theory Spec2Isabelle
  imports Main
begin

section \<open>Source locations, tokens and errors\<close>

text \<open>
  \<^verbatim>\<open>CodeLocation\<close>, \<^verbatim>\<open>Token\<close> and the error types of the runtime. A Go \<^verbatim>\<open>int\<close> is an
  \<open>int\<close>; a Go \<^verbatim>\<open>string\<close> is a list of bytes, which is what \<open>string\<close> is.
\<close>

record CodeLocation =
  Source :: string
  File :: string
  Line :: int
  Column :: int
  StartPos :: int
  EndPos :: int

datatype TokenType =
    TOKEN_STRING
  | TOKEN_COMMENT
  | TOKEN_START_ARRAY
  | TOKEN_END_ARRAY
  | TOKEN_START_MODULE
  | TOKEN_END_MODULE
  | TOKEN_START_DEF
  | TOKEN_END_DEF
  | TOKEN_START_MEMO
  | TOKEN_WORD
  | TOKEN_DOT_SYMBOL
  | TOKEN_EOS

record Token =
  tokType :: TokenType
  tokString :: string
  tokLocation :: CodeLocation

definition NewToken :: "TokenType \<Rightarrow> string \<Rightarrow> CodeLocation \<Rightarrow> Token" where
  "NewToken tokenType str location =
     \<lparr>tokType = tokenType, tokString = str, tokLocation = location\<rparr>"

text \<open>
  The error values. A constructor is the dynamic Go type of the value: \<open>ForthicError\<close> is
  the plain \<^verbatim>\<open>*ForthicError\<close> with its \<^verbatim>\<open>Message\<close> and its \<^verbatim>\<open>Location\<close>, which may be nil;
  every typed error embeds a \<^verbatim>\<open>*ForthicError\<close>. \<open>OtherError\<close> stands for any other Go
  \<^verbatim>\<open>error\<close> (\<^verbatim>\<open>errors.New\<close>) a native handler may return, and \<open>RuntimePanic\<close> for a panic
  of the Go runtime itself (nil dereference, index out of range).
\<close>

datatype error =
    ForthicError string "CodeLocation option"
  | UnknownWordError string
  | UnknownModuleError string
  | StackUnderflowError "CodeLocation option"
  | MissingSemicolonError "CodeLocation option"
  | ExtraSemicolonError "CodeLocation option"
  | IntentionalStopError string
  | OtherError string
  | RuntimePanic string

fun isIntentionalStop :: "error \<Rightarrow> bool" where
  "isIntentionalStop (IntentionalStopError m) = True"
| "isIntentionalStop e = False"

text \<open>
  The constructors of the typed errors: each builds its embedded \<^verbatim>\<open>ForthicError\<close> with a
  fixed message and no location.
\<close>

definition NewStackUnderflowError :: error where
  [simp]: "NewStackUnderflowError = StackUnderflowError None"

definition NewMissingSemicolonError :: error where
  [simp]: "NewMissingSemicolonError = MissingSemicolonError None"

definition NewExtraSemicolonError :: error where
  [simp]: "NewExtraSemicolonError = ExtraSemicolonError None"

text \<open>
  \<^verbatim>\<open>WithLocation\<close> is a method of \<^verbatim>\<open>*ForthicError\<close> and returns its receiver. Called on a
  typed error it is promoted from the embedded \<^verbatim>\<open>*ForthicError\<close>, so what it returns is
  that embedded error, with the location set: a plain \<^verbatim>\<open>ForthicError\<close> that carries the
  message of the typed error and no longer its type. \<open>OtherError\<close> and \<open>RuntimePanic\<close>
  are not Forthic errors and have no such method; they are left as they are.
\<close>

fun WithLocation :: "error \<Rightarrow> CodeLocation option \<Rightarrow> error" where
  "WithLocation (ForthicError m l) loc = ForthicError m loc"
| "WithLocation (UnknownWordError w) loc = ForthicError (''Unknown word: '' @ w) loc"
| "WithLocation (UnknownModuleError m) loc = ForthicError (''Unknown module: '' @ m) loc"
| "WithLocation (StackUnderflowError l) loc = ForthicError ''Stack underflow'' loc"
| "WithLocation (MissingSemicolonError l) loc =
     ForthicError ''Missing semicolon (;) to end definition'' loc"
| "WithLocation (ExtraSemicolonError l) loc =
     ForthicError ''Extra semicolon (;) outside of definition'' loc"
| "WithLocation (IntentionalStopError m) loc = ForthicError m loc"
| "WithLocation (OtherError m) loc = OtherError m"
| "WithLocation (RuntimePanic m) loc = RuntimePanic m"

text \<open>\<^verbatim>\<open>&CodeLocation{Line: l, Column: c}\<close>: the other fields are zero.\<close>

definition lineColumn :: "int \<Rightarrow> int \<Rightarrow> CodeLocation" where
  "lineColumn l c =
     \<lparr>Source = [], File = [], Line = l, Column = c, StartPos = 0, EndPos = 0\<rparr>"

section \<open>The tokenizer\<close>

text \<open>
  The \<^verbatim>\<open>Tokenizer\<close> struct. The fields \<^verbatim>\<open>whitespace\<close> and \<^verbatim>\<open>quoteChars\<close> are set once by
  \<^verbatim>\<open>NewTokenizer\<close> and never assigned again, so they are constants here.
\<close>

record Tokenizer =
  referenceLocation :: CodeLocation
  line :: int
  column :: int
  inputString :: string
  inputPos :: nat
  tokenStartPos :: int
  tokenEndPos :: int
  tokenLine :: int
  tokenColumn :: int
  tokenString :: string
  stringDelta :: "(nat \<times> nat) option"
  streaming :: bool

definition whitespace :: "char list" where
  "whitespace = [CHR '' '', CHR 0x09, CHR 0x0A, CHR 0x0D, CHR ''('', CHR '')'', CHR '','']"

definition quoteChars :: "char list" where
  "quoteChars = [CHR 0x22, CHR 0x27, CHR ''^'']"

definition isWhitespace :: "char \<Rightarrow> bool" where
  "isWhitespace ch = (ch \<in> set whitespace)"

definition isQuote :: "char \<Rightarrow> bool" where
  "isQuote ch = (ch \<in> set quoteChars)"

text \<open>\<^verbatim>\<open>strings.ReplaceAll\<close> for a non-empty pattern: leftmost, non-overlapping.\<close>

function ReplaceAll :: "string \<Rightarrow> string \<Rightarrow> string \<Rightarrow> string" where
  "ReplaceAll s old new =
     (if s = [] \<or> old = [] then s
      else if take (length old) s = old then new @ ReplaceAll (drop (length old) s) old new
      else hd s # ReplaceAll (tl s) old new)"
  by pat_completeness auto
termination
  by (relation "measure (\<lambda>(s, old, new). length s)") auto

declare ReplaceAll.simps [simp del]

definition unescapeString :: "string \<Rightarrow> string" where
  "unescapeString s = ReplaceAll (ReplaceAll s ''&lt;'' ''<'') ''&gt;'' ''>''"

definition defaultReference :: CodeLocation where
  "defaultReference =
     \<lparr>Source = [], File = [], Line = 1, Column = 1, StartPos = 0, EndPos = 0\<rparr>"

definition NewTokenizer :: "string \<Rightarrow> CodeLocation option \<Rightarrow> bool \<Rightarrow> Tokenizer" where
  "NewTokenizer inp refLoc strm =
     (let r = (case refLoc of None \<Rightarrow> defaultReference | Some l \<Rightarrow> l) in
      \<lparr>referenceLocation = r, line = Line r, column = Column r,
       inputString = unescapeString inp, inputPos = 0,
       tokenStartPos = 0, tokenEndPos = 0, tokenLine = 0, tokenColumn = 0,
       tokenString = [], stringDelta = None, streaming = strm\<rparr>)"

definition clearTokenString :: "Tokenizer \<Rightarrow> Tokenizer" where
  "clearTokenString t = t\<lparr>tokenString := []\<rparr>"

definition noteStartToken :: "Tokenizer \<Rightarrow> Tokenizer" where
  "noteStartToken t =
     t\<lparr>tokenStartPos := int (inputPos t) + StartPos (referenceLocation t),
       tokenLine := line t, tokenColumn := column t\<rparr>"

text \<open>
  \<^verbatim>\<open>tokenString.WriteRune(ch)\<close> where \<^verbatim>\<open>ch\<close> is \<^verbatim>\<open>rune(b)\<close> for a byte \<^verbatim>\<open>b\<close> of the input: a
  byte below 128 is written as it is, a byte from 128 on is the code point of that
  number and is written as its two-byte UTF-8 encoding.
\<close>

definition writeRune :: "char \<Rightarrow> string \<Rightarrow> string" where
  "writeRune ch b =
     (if (of_char ch :: nat) < 128 then b @ [ch]
      else b @ [char_of (192 + (of_char ch :: nat) div 64),
                char_of (128 + (of_char ch :: nat) mod 64)])"

definition WriteRune :: "char \<Rightarrow> Tokenizer \<Rightarrow> Tokenizer" where
  "WriteRune ch t = t\<lparr>tokenString := writeRune ch (tokenString t)\<rparr>"

definition isTripleQuote :: "Tokenizer \<Rightarrow> nat \<Rightarrow> char \<Rightarrow> bool" where
  "isTripleQuote t index ch =
     (if \<not> isQuote ch then False
      else if index + 2 \<ge> length (inputString t) then False
      else inputString t ! (index + 1) = ch \<and> inputString t ! (index + 2) = ch)"

definition isStartMemo :: "Tokenizer \<Rightarrow> nat \<Rightarrow> bool" where
  "isStartMemo t index =
     (if index + 1 \<ge> length (inputString t) then False
      else inputString t ! index = CHR ''@'' \<and> inputString t ! (index + 1) = CHR '':'')"

text \<open>
  \<^verbatim>\<open>advancePosition\<close>: one step forward and one step back, and the loop over \<^verbatim>\<open>numChars\<close>.
  Stepping back below position 0 panics (\<open>None\<close>), and so does reading the input beyond
  its end.
\<close>

definition stepForward :: "Tokenizer \<Rightarrow> Tokenizer" where
  "stepForward t =
     (if inputPos t < length (inputString t) \<and> inputString t ! inputPos t = CHR 0x0A
      then t\<lparr>line := line t + 1, column := 1, inputPos := inputPos t + 1\<rparr>
      else t\<lparr>column := column t + 1, inputPos := inputPos t + 1\<rparr>)"

definition stepBack :: "Tokenizer \<Rightarrow> Tokenizer option" where
  "stepBack t =
     (if inputPos t = 0 \<or> inputPos t - 1 \<ge> length (inputString t) then None
      else if inputString t ! (inputPos t - 1) = CHR 0x0A
      then Some (t\<lparr>inputPos := inputPos t - 1, line := line t - 1, column := 1\<rparr>)
      else Some (t\<lparr>inputPos := inputPos t - 1, column := column t - 1\<rparr>))"

primrec forwardLoop :: "nat \<Rightarrow> Tokenizer \<Rightarrow> Tokenizer" where
  "forwardLoop 0 t = t"
| "forwardLoop (Suc n) t = forwardLoop n (stepForward t)"

primrec backLoop :: "nat \<Rightarrow> Tokenizer \<Rightarrow> Tokenizer option" where
  "backLoop 0 t = Some t"
| "backLoop (Suc n) t = (case stepBack t of None \<Rightarrow> None | Some t' \<Rightarrow> backLoop n t')"

definition advancePosition :: "int \<Rightarrow> Tokenizer \<Rightarrow> Tokenizer option" where
  "advancePosition numChars t =
     (if numChars \<ge> 0 then Some (forwardLoop (nat numChars) t)
      else backLoop (nat (- numChars)) t)"

definition getTokenLocation :: "Tokenizer \<Rightarrow> CodeLocation" where
  "getTokenLocation t =
     \<lparr>Source = Source (referenceLocation t), File = [],
      Line = tokenLine t, Column = tokenColumn t,
      StartPos = tokenStartPos t,
      EndPos = tokenStartPos t + int (length (tokenString t))\<rparr>"

text \<open>
  What \<^verbatim>\<open>NextToken\<close> returns: a token, an error, \<^verbatim>\<open>(nil, nil)\<close> (an unterminated string in
  streaming mode), or a panic. The tokenizer is mutated in place, so each outcome but the
  panic carries it.
\<close>

datatype tresult =
    TToken Token Tokenizer
  | TErr error Tokenizer
  | TNil Tokenizer
  | TPanic

text \<open>
  The loops of the state machine. Each runs while \<^verbatim>\<open>inputPos < len(inputString)\<close> and
  consumes one character per round, so the distance to the end of the input decreases.
  A loop that only moves the tokenizer returns it, or \<open>None\<close> for a panic.
\<close>

function commentLoop :: "Tokenizer \<Rightarrow> Tokenizer option" where
  "commentLoop t =
     (if inputPos t < length (inputString t) then
        (let ch = inputString t ! inputPos t in
         case advancePosition 1 (WriteRune ch t) of
           None \<Rightarrow> None
         | Some t1 \<Rightarrow>
             if ch = CHR 0x0A then advancePosition (- 1) t1
             else commentLoop t1)
      else Some t)"
  by pat_completeness auto
termination
  by (relation "measure (\<lambda>t. length (inputString t) - inputPos t)")
     (auto simp: advancePosition_def stepForward_def WriteRune_def split: if_splits)

declare commentLoop.simps [simp del]

definition transitionFromCOMMENT :: "Tokenizer \<Rightarrow> tresult" where
  "transitionFromCOMMENT t =
     (case commentLoop (noteStartToken t) of
        None \<Rightarrow> TPanic
      | Some t1 \<Rightarrow> TToken (NewToken TOKEN_COMMENT (tokenString t1) (getTokenLocation t1)) t1)"

definition quotesInDefName :: string where
  "quotesInDefName = ''Definition names can'' @ [CHR 0x27] @ ''t have quotes in them''"

definition quotesInMemoName :: string where
  "quotesInMemoName = ''Memo names can'' @ [CHR 0x27] @ ''t have quotes in them''"

definition charInDefName :: "char \<Rightarrow> string" where
  "charInDefName ch =
     ''Definition names can'' @ [CHR 0x27] @ ''t have '' @ [CHR 0x27] @ [ch] @ [CHR 0x27]
       @ '' in them''"

definition tokenStartError :: "string \<Rightarrow> Tokenizer \<Rightarrow> error" where
  "tokenStartError msg t = ForthicError msg (Some (lineColumn (tokenLine t) (tokenColumn t)))"

function gatherDefinitionName :: "Tokenizer \<Rightarrow> (error option \<times> Tokenizer) option" where
  "gatherDefinitionName t =
     (if inputPos t < length (inputString t) then
        (let ch = inputString t ! inputPos t in
         case advancePosition 1 t of
           None \<Rightarrow> None
         | Some t1 \<Rightarrow>
             if isWhitespace ch then Some (None, t1)
             else if isQuote ch then Some (Some (tokenStartError quotesInDefName t1), t1)
             else if ch \<in> set ''[]{}'' then
               Some (Some (tokenStartError (charInDefName ch) t1), t1)
             else gatherDefinitionName (WriteRune ch t1))
      else Some (None, t))"
  by pat_completeness auto
termination
  by (relation "measure (\<lambda>t. length (inputString t) - inputPos t)")
     (auto simp: advancePosition_def stepForward_def WriteRune_def split: if_splits)

declare gatherDefinitionName.simps [simp del]

definition transitionFromGATHER_DEFINITION_NAME :: "Tokenizer \<Rightarrow> tresult" where
  "transitionFromGATHER_DEFINITION_NAME t =
     (case gatherDefinitionName (noteStartToken t) of
        None \<Rightarrow> TPanic
      | Some (Some err, t1) \<Rightarrow> TErr err t1
      | Some (None, t1) \<Rightarrow>
          TToken (NewToken TOKEN_START_DEF (tokenString t1) (getTokenLocation t1)) t1)"

definition transitionFromGATHER_MEMO_NAME :: "Tokenizer \<Rightarrow> tresult" where
  "transitionFromGATHER_MEMO_NAME t =
     (case gatherDefinitionName (noteStartToken t) of
        None \<Rightarrow> TPanic
      | Some (Some err, t1) \<Rightarrow> TErr err t1
      | Some (None, t1) \<Rightarrow>
          TToken (NewToken TOKEN_START_MEMO (tokenString t1) (getTokenLocation t1)) t1)"

function transitionFromSTART_DEFINITION :: "Tokenizer \<Rightarrow> tresult" where
  "transitionFromSTART_DEFINITION t =
     (if inputPos t < length (inputString t) then
        (let ch = inputString t ! inputPos t in
         case advancePosition 1 t of
           None \<Rightarrow> TPanic
         | Some t1 \<Rightarrow>
             if isWhitespace ch then transitionFromSTART_DEFINITION t1
             else if isQuote ch then TErr (tokenStartError quotesInDefName t1) t1
             else (case advancePosition (- 1) t1 of
                     None \<Rightarrow> TPanic
                   | Some t2 \<Rightarrow> transitionFromGATHER_DEFINITION_NAME t2))
      else TErr (tokenStartError ''Got EOS in START_DEFINITION'' t) t)"
  by pat_completeness auto
termination
  by (relation "measure (\<lambda>t. length (inputString t) - inputPos t)")
     (auto simp: advancePosition_def stepForward_def split: if_splits)

declare transitionFromSTART_DEFINITION.simps [simp del]

function transitionFromSTART_MEMO :: "Tokenizer \<Rightarrow> tresult" where
  "transitionFromSTART_MEMO t =
     (if inputPos t < length (inputString t) then
        (let ch = inputString t ! inputPos t in
         case advancePosition 1 t of
           None \<Rightarrow> TPanic
         | Some t1 \<Rightarrow>
             if isWhitespace ch then transitionFromSTART_MEMO t1
             else if isQuote ch then TErr (tokenStartError quotesInMemoName t1) t1
             else (case advancePosition (- 1) t1 of
                     None \<Rightarrow> TPanic
                   | Some t2 \<Rightarrow> transitionFromGATHER_MEMO_NAME t2))
      else TErr (tokenStartError ''Got EOS in START_MEMO'' t) t)"
  by pat_completeness auto
termination
  by (relation "measure (\<lambda>t. length (inputString t) - inputPos t)")
     (auto simp: advancePosition_def stepForward_def split: if_splits)

declare transitionFromSTART_MEMO.simps [simp del]

function gatherModuleLoop :: "Tokenizer \<Rightarrow> Tokenizer option" where
  "gatherModuleLoop t =
     (if inputPos t < length (inputString t) then
        (let ch = inputString t ! inputPos t in
         case advancePosition 1 t of
           None \<Rightarrow> None
         | Some t1 \<Rightarrow>
             if isWhitespace ch then Some t1
             else if ch = CHR ''}'' then advancePosition (- 1) t1
             else gatherModuleLoop (WriteRune ch t1))
      else Some t)"
  by pat_completeness auto
termination
  by (relation "measure (\<lambda>t. length (inputString t) - inputPos t)")
     (auto simp: advancePosition_def stepForward_def WriteRune_def split: if_splits)

declare gatherModuleLoop.simps [simp del]

definition transitionFromGATHER_MODULE :: "Tokenizer \<Rightarrow> tresult" where
  "transitionFromGATHER_MODULE t =
     (case gatherModuleLoop (noteStartToken t) of
        None \<Rightarrow> TPanic
      | Some t1 \<Rightarrow>
          TToken (NewToken TOKEN_START_MODULE (tokenString t1) (getTokenLocation t1)) t1)"

text \<open>
  \<^verbatim>\<open>t.stringDelta.end = t.inputPos\<close>. The string loops set \<^verbatim>\<open>stringDelta\<close> to a fresh
  struct before they start, so the pointer is not nil where this runs.
\<close>

definition setDeltaEnd :: "Tokenizer \<Rightarrow> Tokenizer" where
  "setDeltaEnd t =
     t\<lparr>stringDelta := (case stringDelta t of None \<Rightarrow> None
                          | Some (s, e) \<Rightarrow> Some (s, inputPos t))\<rparr>"

definition startDelta :: "Tokenizer \<Rightarrow> Tokenizer" where
  "startDelta t = t\<lparr>stringDelta := Some (inputPos t, inputPos t)\<rparr>"

function tripleQuoteLoop :: "char \<Rightarrow> Tokenizer \<Rightarrow> tresult" where
  "tripleQuoteLoop stringDelimiter t =
     (if inputPos t < length (inputString t) then
        (let ch = inputString t ! inputPos t in
         if ch = stringDelimiter \<and> isTripleQuote t (inputPos t) ch then
           (if inputPos t + 3 < length (inputString t)
               \<and> inputString t ! (inputPos t + 3) = stringDelimiter then
              (case advancePosition 1 t of
                 None \<Rightarrow> TPanic
               | Some t1 \<Rightarrow>
                   tripleQuoteLoop stringDelimiter (setDeltaEnd (WriteRune stringDelimiter t1)))
            else
              (case advancePosition 3 t of
                 None \<Rightarrow> TPanic
               | Some t1 \<Rightarrow>
                   TToken (NewToken TOKEN_STRING (tokenString t1) (getTokenLocation t1))
                     (t1\<lparr>stringDelta := None\<rparr>)))
         else
           (case advancePosition 1 t of
              None \<Rightarrow> TPanic
            | Some t1 \<Rightarrow> tripleQuoteLoop stringDelimiter (setDeltaEnd (WriteRune ch t1))))
      else if streaming t then TNil t
      else TErr (tokenStartError ''Unterminated string'' t) t)"
  by pat_completeness auto
termination
  by (relation "measure (\<lambda>(d, t). length (inputString t) - inputPos t)")
     (auto simp: advancePosition_def stepForward_def WriteRune_def setDeltaEnd_def
           split: if_splits)

declare tripleQuoteLoop.simps [simp del]

definition transitionFromGATHER_TRIPLE_QUOTE_STRING :: "char \<Rightarrow> Tokenizer \<Rightarrow> tresult" where
  "transitionFromGATHER_TRIPLE_QUOTE_STRING delim t =
     tripleQuoteLoop delim (startDelta (noteStartToken t))"

function stringLoop :: "char \<Rightarrow> Tokenizer \<Rightarrow> tresult" where
  "stringLoop stringDelimiter t =
     (if inputPos t < length (inputString t) then
        (let ch = inputString t ! inputPos t in
         case advancePosition 1 t of
           None \<Rightarrow> TPanic
         | Some t1 \<Rightarrow>
             if ch = stringDelimiter then
               TToken (NewToken TOKEN_STRING (tokenString t1) (getTokenLocation t1))
                 (t1\<lparr>stringDelta := None\<rparr>)
             else stringLoop stringDelimiter (setDeltaEnd (WriteRune ch t1)))
      else if streaming t then TNil t
      else TErr (tokenStartError ''Unterminated string'' t) t)"
  by pat_completeness auto
termination
  by (relation "measure (\<lambda>(d, t). length (inputString t) - inputPos t)")
     (auto simp: advancePosition_def stepForward_def WriteRune_def setDeltaEnd_def
           split: if_splits)

declare stringLoop.simps [simp del]

definition transitionFromGATHER_STRING :: "char \<Rightarrow> Tokenizer \<Rightarrow> tresult" where
  "transitionFromGATHER_STRING delim t = stringLoop delim (startDelta (noteStartToken t))"

text \<open>The inner loop of the word state: the bracketed time zone of an RFC 9557 datetime.\<close>

function gatherTimezone :: "Tokenizer \<Rightarrow> Tokenizer option" where
  "gatherTimezone t =
     (if inputPos t < length (inputString t) then
        (let tzChar = inputString t ! inputPos t in
         case advancePosition 1 t of
           None \<Rightarrow> None
         | Some t1 \<Rightarrow>
             if tzChar = CHR '']'' then Some (WriteRune tzChar t1)
             else gatherTimezone (WriteRune tzChar t1))
      else Some t)"
  by pat_completeness auto
termination
  by (relation "measure (\<lambda>t. length (inputString t) - inputPos t)")
     (auto simp: advancePosition_def stepForward_def WriteRune_def split: if_splits)

declare gatherTimezone.simps [simp del]

function gatherWordLoop :: "Tokenizer \<Rightarrow> Tokenizer option" where
  "gatherWordLoop t =
     (if inputPos t < length (inputString t) then
        (let ch = inputString t ! inputPos t in
         case advancePosition 1 t of
           None \<Rightarrow> None
         | Some t1 \<Rightarrow>
             if isWhitespace ch then Some t1
             else if ch \<in> set '';{}#'' then advancePosition (- 1) t1
             else if ch = CHR ''['' then
               (if CHR ''T'' \<in> set (tokenString t1) then gatherTimezone (WriteRune ch t1)
                else advancePosition (- 1) t1)
             else if ch = CHR '']'' then advancePosition (- 1) t1
             else gatherWordLoop (WriteRune ch t1))
      else Some t)"
  by pat_completeness auto
termination
  by (relation "measure (\<lambda>t. length (inputString t) - inputPos t)")
     (auto simp: advancePosition_def stepForward_def WriteRune_def split: if_splits)

declare gatherWordLoop.simps [simp del]

definition transitionFromGATHER_WORD :: "Tokenizer \<Rightarrow> tresult" where
  "transitionFromGATHER_WORD t =
     (case gatherWordLoop (noteStartToken t) of
        None \<Rightarrow> TPanic
      | Some t1 \<Rightarrow> TToken (NewToken TOKEN_WORD (tokenString t1) (getTokenLocation t1)) t1)"

text \<open>
  The dot-symbol loop writes each character to its own builder \<^verbatim>\<open>fullTokenString\<close> and
  to \<^verbatim>\<open>tokenString\<close>.
\<close>

function dotSymbolLoop :: "string \<Rightarrow> Tokenizer \<Rightarrow> (string \<times> Tokenizer) option" where
  "dotSymbolLoop fullTokenString t =
     (if inputPos t < length (inputString t) then
        (let ch = inputString t ! inputPos t in
         case advancePosition 1 t of
           None \<Rightarrow> None
         | Some t1 \<Rightarrow>
             if isWhitespace ch then Some (fullTokenString, t1)
             else if ch \<in> set '';[]{}#'' then
               (case advancePosition (- 1) t1 of
                  None \<Rightarrow> None
                | Some t2 \<Rightarrow> Some (fullTokenString, t2))
             else dotSymbolLoop (writeRune ch fullTokenString) (WriteRune ch t1))
      else Some (fullTokenString, t))"
  by pat_completeness auto
termination
  by (relation "measure (\<lambda>(f, t). length (inputString t) - inputPos t)")
     (auto simp: advancePosition_def stepForward_def WriteRune_def split: if_splits)

declare dotSymbolLoop.simps [simp del]

definition transitionFromGATHER_DOT_SYMBOL :: "Tokenizer \<Rightarrow> tresult" where
  "transitionFromGATHER_DOT_SYMBOL t =
     (case dotSymbolLoop [] (noteStartToken t) of
        None \<Rightarrow> TPanic
      | Some (fullToken, t1) \<Rightarrow>
          if length fullToken < 2 then
            TToken (NewToken TOKEN_WORD fullToken (getTokenLocation t1)) t1
          else TToken (NewToken TOKEN_DOT_SYMBOL (drop 1 fullToken) (getTokenLocation t1)) t1)"

function transitionFromSTART :: "Tokenizer \<Rightarrow> tresult" where
  "transitionFromSTART t =
     (if inputPos t < length (inputString t) then
        (let ch = inputString t ! inputPos t in
         case advancePosition 1 (noteStartToken t) of
           None \<Rightarrow> TPanic
         | Some t1 \<Rightarrow>
             if isWhitespace ch then transitionFromSTART t1
             else if ch = CHR ''#'' then transitionFromCOMMENT t1
             else if ch = CHR '':'' then transitionFromSTART_DEFINITION t1
             else if isStartMemo t1 (inputPos t1 - 1) then
               (case advancePosition 1 t1 of
                  None \<Rightarrow> TPanic
                | Some t2 \<Rightarrow> transitionFromSTART_MEMO t2)
             else if ch = CHR '';'' then
               (let t2 = WriteRune ch t1 in
                TToken (NewToken TOKEN_END_DEF [ch] (getTokenLocation t2)) t2)
             else if ch = CHR ''['' then
               (let t2 = WriteRune ch t1 in
                TToken (NewToken TOKEN_START_ARRAY [ch] (getTokenLocation t2)) t2)
             else if ch = CHR '']'' then
               (let t2 = WriteRune ch t1 in
                TToken (NewToken TOKEN_END_ARRAY [ch] (getTokenLocation t2)) t2)
             else if ch = CHR ''{'' then transitionFromGATHER_MODULE t1
             else if ch = CHR ''}'' then
               (let t2 = WriteRune ch t1 in
                TToken (NewToken TOKEN_END_MODULE [ch] (getTokenLocation t2)) t2)
             else if isTripleQuote t1 (inputPos t1 - 1) ch then
               (case advancePosition 2 t1 of
                  None \<Rightarrow> TPanic
                | Some t2 \<Rightarrow> transitionFromGATHER_TRIPLE_QUOTE_STRING ch t2)
             else if isQuote ch then transitionFromGATHER_STRING ch t1
             else if ch = CHR ''.'' then
               (case advancePosition (- 1) t1 of
                  None \<Rightarrow> TPanic
                | Some t2 \<Rightarrow> transitionFromGATHER_DOT_SYMBOL t2)
             else
               (case advancePosition (- 1) t1 of
                  None \<Rightarrow> TPanic
                | Some t2 \<Rightarrow> transitionFromGATHER_WORD t2))
      else TToken (NewToken TOKEN_EOS [] (getTokenLocation t)) t)"
  by pat_completeness auto
termination
  by (relation "measure (\<lambda>t. length (inputString t) - inputPos t)")
     (auto simp: advancePosition_def stepForward_def noteStartToken_def split: if_splits)

declare transitionFromSTART.simps [simp del]

definition NextToken :: "Tokenizer \<Rightarrow> tresult" where
  "NextToken t = transitionFromSTART (clearTokenString t)"

section \<open>Values, words, modules\<close>

text \<open>
  A stack value is a Go \<^verbatim>\<open>interface{}\<close>. The core looks at \<^verbatim>\<open>*Token\<close> values (the array
  sentinel) and pushes \<^verbatim>\<open>*Variable\<close> pointers; \<open>VOpaque\<close> stands for every value the core
  never inspects (\<^verbatim>\<open>float64\<close>, \<^verbatim>\<open>time.Time\<close>, records). A pointer is an address into
  the heap of the interpreter state below.
\<close>

datatype val =
    VNil
  | VBool bool
  | VInt int
  | VString string
  | VArray "val list"
  | VToken Token
  | VVariable nat
  | VOpaque nat

text \<open>
  The word types. A native handler and an error handler are Go functions; a word holds the
  index of each in a table that execution takes as a parameter. \<^verbatim>\<open>ModuleWord\<close> and
  \<^verbatim>\<open>DefinitionWord\<close> are the two types whose \<^verbatim>\<open>Execute\<close> reads the \<^verbatim>\<open>errorHandlers\<close> of their
  \<^verbatim>\<open>BaseWord\<close>, so they carry the list. A memo word owns a mutable cell
  (\<^verbatim>\<open>hasValue\<close>, \<^verbatim>\<open>value\<close>) that its two refresh words share: the cell lives in the heap
  and the three words hold its address together with the wrapped word. The \<^verbatim>\<open>location\<close>
  of a word is written by \<^verbatim>\<open>SetLocation\<close> and read by no code of the core; it is left out.
\<close>

datatype word =
    PushValueWord string val
  | ModuleWord string nat "nat list"
  | DefinitionWord string "word list" "nat list"
  | ExecuteWord string word
  | StartModuleWord string
  | EndModuleWord
  | EndArrayWord
  | ModuleMemoWord nat word
  | ModuleMemoBangWord nat word
  | ModuleMemoBangAtWord nat word

fun GetName :: "word \<Rightarrow> string" where
  "GetName (PushValueWord n v) = n"
| "GetName (ModuleWord n h ehs) = n"
| "GetName (DefinitionWord n ws ehs) = n"
| "GetName (ExecuteWord n target) = n"
| "GetName (StartModuleWord n) = n"
| "GetName EndModuleWord = ''}''"
| "GetName EndArrayWord = '']''"
| "GetName (ModuleMemoWord c w) = GetName w"
| "GetName (ModuleMemoBangWord c w) = GetName w @ ''!''"
| "GetName (ModuleMemoBangAtWord c w) = GetName w @ ''!@''"

fun errorHandlers :: "word \<Rightarrow> nat list" where
  "errorHandlers (ModuleWord n h ehs) = ehs"
| "errorHandlers (DefinitionWord n ws ehs) = ehs"
| "errorHandlers w = []"

record Variable =
  variableName :: string
  variableValue :: val

record MemoCell =
  hasValue :: bool
  memoValue :: val

text \<open>
  The \<^verbatim>\<open>Module\<close> struct. \<^verbatim>\<open>variables\<close> is an association list because \<^verbatim>\<open>Dup\<close> iterates over
  it; the back pointer \<^verbatim>\<open>interp\<close> is read by \<^verbatim>\<open>GetInterp\<close> only and is left out.
\<close>

record Module =
  words :: "word list"
  exportable :: "string list"
  variables :: "(string \<times> nat) list"
  modules :: "string \<rightharpoonup> nat"
  modulePrefixes :: "string \<Rightarrow> string set"
  name :: string
  forthicCode :: string

definition emptyModule :: "string \<Rightarrow> string \<Rightarrow> Module" where
  "emptyModule nm code =
     \<lparr>words = [], exportable = [], variables = [], modules = Map.empty,
      modulePrefixes = (\<lambda>k. {}), name = nm, forthicCode = code\<rparr>"

text \<open>The loop of \<^verbatim>\<open>FindDictionaryWord\<close>: from index \<^verbatim>\<open>len - 1\<close> down to 0.\<close>

fun findDown :: "word list \<Rightarrow> string \<Rightarrow> nat \<Rightarrow> word option" where
  "findDown ws wordName 0 = None"
| "findDown ws wordName (Suc k) =
     (if GetName (ws ! k) = wordName then Some (ws ! k) else findDown ws wordName k)"

definition FindDictionaryWord :: "Module \<Rightarrow> string \<Rightarrow> word option" where
  "FindDictionaryWord m wordName = findDown (words m) wordName (length (words m))"

definition FindVariable :: "Module \<Rightarrow> string \<Rightarrow> word option" where
  "FindVariable m varName =
     (case map_of (variables m) varName of
        Some variable \<Rightarrow> Some (PushValueWord varName (VVariable variable))
      | None \<Rightarrow> None)"

definition Module_FindWord :: "Module \<Rightarrow> string \<Rightarrow> word option" where
  "Module_FindWord m nm =
     (case FindDictionaryWord m nm of
        Some w \<Rightarrow> Some w
      | None \<Rightarrow> FindVariable m nm)"

definition AddWord :: "word \<Rightarrow> Module \<Rightarrow> Module" where
  "AddWord w m = m\<lparr>words := words m @ [w]\<rparr>"

definition AddExportable :: "string list \<Rightarrow> Module \<Rightarrow> Module" where
  "AddExportable names m = m\<lparr>exportable := exportable m @ names\<rparr>"

definition AddExportableWord :: "word \<Rightarrow> Module \<Rightarrow> Module" where
  "AddExportableWord w m =
     m\<lparr>words := words m @ [w], exportable := exportable m @ [GetName w]\<rparr>"

definition AddModuleWord :: "string \<Rightarrow> nat \<Rightarrow> Module \<Rightarrow> Module" where
  "AddModuleWord wordName handler m = AddExportableWord (ModuleWord wordName handler []) m"

definition ExportableWords :: "Module \<Rightarrow> word list" where
  "ExportableWords m = filter (\<lambda>w. GetName w \<in> set (exportable m)) (words m)"

definition Module_RegisterModule :: "string \<Rightarrow> string \<Rightarrow> nat \<Rightarrow> Module \<Rightarrow> Module" where
  "Module_RegisterModule moduleName prefix module m =
     m\<lparr>modules := (modules m)(moduleName \<mapsto> module),
       modulePrefixes := (modulePrefixes m)
          (moduleName := insert prefix (modulePrefixes m moduleName))\<rparr>"

section \<open>The interpreter state\<close>

text \<open>
  The \<^verbatim>\<open>Interpreter\<close> struct together with the heap its pointers point into: modules,
  variables and memo cells, each a total map from addresses with the next free address.
  The operand stack and the module stack are Go slices: the top is the last element.
  \<^verbatim>\<open>curDefinition\<close> is the definition under construction, its name and body.
\<close>

record Interpreter =
  stack :: "val list"
  appModule :: nat
  moduleStack :: "nat list"
  registeredMods :: "string \<rightharpoonup> nat"
  tokenizerStack :: "Tokenizer list"
  previousToken :: "Token option"
  isCompiling :: bool
  isMemoDefinition :: bool
  curDefinition :: "(string \<times> word list) option"
  literalHandlers :: "(string \<Rightarrow> val option) list"
  timezone :: string
  moduleHeap :: "nat \<Rightarrow> Module"
  nextModule :: nat
  variableHeap :: "nat \<Rightarrow> Variable"
  nextVariable :: nat
  memoHeap :: "nat \<Rightarrow> MemoCell"
  nextMemo :: nat

text \<open>
  The outcome of a call that may fail: it returns (\<open>Ok\<close>), returns an error (\<open>Err\<close>, with
  the state as the call left it), or panics. Nothing in the repository recovers from a
  panic, so a panic ends the program and carries no state.
\<close>

datatype 'a result =
    Ok 'a
  | Err error Interpreter
  | Panic error

type_synonym natives = "nat \<Rightarrow> Interpreter \<Rightarrow> Interpreter result"

type_synonym ehandlers = "nat \<Rightarrow> error \<Rightarrow> word \<Rightarrow> Interpreter \<Rightarrow> Interpreter result"

subsection \<open>Stack operations\<close>

definition StackPush :: "val \<Rightarrow> Interpreter \<Rightarrow> Interpreter" where
  "StackPush v i = i\<lparr>stack := stack i @ [v]\<rparr>"

definition underflowLocation :: "Interpreter \<Rightarrow> CodeLocation option" where
  "underflowLocation i =
     (if tokenizerStack i \<noteq> [] then Some (getTokenLocation (last (tokenizerStack i)))
      else None)"

definition StackPop :: "Interpreter \<Rightarrow> (val \<times> Interpreter) result" where
  "StackPop i =
     (if stack i = [] then Panic (WithLocation NewStackUnderflowError (underflowLocation i))
      else Ok (last (stack i), i\<lparr>stack := butlast (stack i)\<rparr>))"


subsection \<open>Module operations\<close>

definition CurModule :: "Interpreter \<Rightarrow> nat option" where
  "CurModule i = (if moduleStack i = [] then None else Some (last (moduleStack i)))"

definition indexPanic :: error where
  "indexPanic = RuntimePanic ''index out of range''"

definition nilPanic :: error where
  "nilPanic = RuntimePanic ''nil pointer dereference''"

definition ModuleStackPush :: "nat \<Rightarrow> Interpreter \<Rightarrow> Interpreter" where
  "ModuleStackPush module i = i\<lparr>moduleStack := moduleStack i @ [module]\<rparr>"

definition ModuleStackPop :: "Interpreter \<Rightarrow> (nat \<times> Interpreter) result" where
  "ModuleStackPop i =
     (if length (moduleStack i) \<le> 1
      then Panic (ForthicError ''Cannot pop app module from module stack'' None)
      else Ok (last (moduleStack i), i\<lparr>moduleStack := butlast (moduleStack i)\<rparr>))"

definition updateModule :: "nat \<Rightarrow> (Module \<Rightarrow> Module) \<Rightarrow> Interpreter \<Rightarrow> Interpreter" where
  "updateModule a f i = i\<lparr>moduleHeap := (moduleHeap i)(a := f (moduleHeap i a))\<rparr>"

definition NewModule :: "string \<Rightarrow> string \<Rightarrow> Interpreter \<Rightarrow> nat \<times> Interpreter" where
  "NewModule nm code i =
     (nextModule i,
      i\<lparr>moduleHeap := (moduleHeap i)(nextModule i := emptyModule nm code),
        nextModule := nextModule i + 1\<rparr>)"

definition RegisterModule :: "nat \<Rightarrow> Interpreter \<Rightarrow> Interpreter" where
  "RegisterModule module i =
     i\<lparr>registeredMods := (registeredMods i)(name (moduleHeap i module) \<mapsto> module)\<rparr>"

definition FindModule :: "Interpreter \<Rightarrow> string \<Rightarrow> error + nat" where
  "FindModule i nm =
     (case registeredMods i nm of
        None \<Rightarrow> Inl (UnknownModuleError nm)
      | Some module \<Rightarrow> Inr module)"

text \<open>
  \<^verbatim>\<open>Variable.Dup\<close> allocates a new cell with the same name and value; \<^verbatim>\<open>Module.Dup\<close> copies
  the words and the exportable names, duplicates each variable and copies the child
  module pointers.
\<close>

definition Variable_Dup :: "nat \<Rightarrow> Interpreter \<Rightarrow> nat \<times> Interpreter" where
  "Variable_Dup v i =
     (nextVariable i,
      i\<lparr>variableHeap := (variableHeap i)
           (nextVariable i := \<lparr>variableName = variableName (variableHeap i v),
                               variableValue = variableValue (variableHeap i v)\<rparr>),
        nextVariable := nextVariable i + 1\<rparr>)"

fun dupVariables ::
  "(string \<times> nat) list \<Rightarrow> Interpreter \<Rightarrow> (string \<times> nat) list \<times> Interpreter" where
  "dupVariables [] i = ([], i)"
| "dupVariables ((key, variable) # rest) i =
     (let (v', i1) = Variable_Dup variable i;
          (rest', i2) = dupVariables rest i1
      in ((key, v') # rest', i2))"

definition Dup :: "nat \<Rightarrow> Interpreter \<Rightarrow> nat \<times> Interpreter" where
  "Dup m i =
     (let src = moduleHeap i m;
          (result, i1) = NewModule (name src) (forthicCode src) i;
          (vars, i2) = dupVariables (variables src) i1
      in (result,
          updateModule result
            (\<lambda>r. r\<lparr>words := words src, exportable := exportable src,
                    variables := vars, modules := modules src\<rparr>) i2))"

text \<open>
  \<^verbatim>\<open>Module.ImportModule(prefix, module, interp)\<close> on the host module \<open>m\<close>: the loop over the
  exportable words of the duplicate, then the registration of the duplicate.
\<close>

definition importedWord :: "string \<Rightarrow> word \<Rightarrow> word" where
  "importedWord prefix w =
     (if prefix = [] then w else ExecuteWord (prefix @ ''.'' @ GetName w) w)"

definition ImportModule :: "nat \<Rightarrow> string \<Rightarrow> nat \<Rightarrow> Interpreter \<Rightarrow> Interpreter" where
  "ImportModule m prefix module i =
     (let (newModule, i1) = Dup module i;
          ws = ExportableWords (moduleHeap i1 newModule);
          i2 = fold (\<lambda>w. updateModule m (AddWord (importedWord prefix w))) ws i1
      in updateModule m
           (Module_RegisterModule (name (moduleHeap i2 module)) prefix newModule) i2)"

definition Interpreter_ImportModule :: "nat \<Rightarrow> string \<Rightarrow> Interpreter \<Rightarrow> Interpreter" where
  "Interpreter_ImportModule module prefix i =
     (let i1 = RegisterModule module i in ImportModule (appModule i1) prefix module i1)"

text \<open>\<^verbatim>\<open>AddMemoWords\<close> allocates the memo word's cell and appends the three words.\<close>

definition AddMemoWords :: "nat \<Rightarrow> word \<Rightarrow> Interpreter \<Rightarrow> Interpreter" where
  "AddMemoWords m w i =
     (let c = nextMemo i;
          i1 = i\<lparr>memoHeap := (memoHeap i)(c := \<lparr>hasValue = False, memoValue = VNil\<rparr>),
                 nextMemo := c + 1\<rparr>
      in updateModule m
           (\<lambda>r. r\<lparr>words := words r @
                    [ModuleMemoWord c w, ModuleMemoBangWord c w, ModuleMemoBangAtWord c w]\<rparr>)
           i1)"

section \<open>Executing words\<close>

subsection \<open>Error handlers\<close>

text \<open>
  \<^verbatim>\<open>BaseWord.TryErrorHandlers(err, word, interp)\<close> on the word \<open>w\<close>: \<open>Ok\<close> is the \<^verbatim>\<open>nil\<close>
  return (handled), \<open>Err\<close> the returned error. A handler may change the interpreter.
\<close>

fun handlersLoop ::
  "ehandlers \<Rightarrow> nat list \<Rightarrow> error \<Rightarrow> word \<Rightarrow> Interpreter \<Rightarrow> Interpreter result" where
  "handlersLoop H [] err wd i = Err err i"
| "handlersLoop H (handler # rest) err wd i =
     (case H handler err wd i of
        Ok i' \<Rightarrow> Ok i'
      | Err handlerErr i' \<Rightarrow> handlersLoop H rest err wd i'
      | Panic e \<Rightarrow> Panic e)"

definition TryErrorHandlers ::
  "ehandlers \<Rightarrow> word \<Rightarrow> error \<Rightarrow> word \<Rightarrow> Interpreter \<Rightarrow> Interpreter result" where
  "TryErrorHandlers H w err wd i =
     (if isIntentionalStop err then Err err i
      else handlersLoop H (errorHandlers w) err wd i)"

text \<open>
  The state after every handler of a list, called in order, has returned an error;
  \<open>None\<close> if one of them did not.
\<close>

fun failedThrough ::
  "ehandlers \<Rightarrow> nat list \<Rightarrow> error \<Rightarrow> word \<Rightarrow> Interpreter \<Rightarrow> Interpreter option" where
  "failedThrough H [] err wd i = Some i"
| "failedThrough H (handler # rest) err wd i =
     (case H handler err wd i of
        Err handlerErr i' \<Rightarrow> failedThrough H rest err wd i'
      | Ok i' \<Rightarrow> None
      | Panic e \<Rightarrow> None)"

subsection \<open>The special words\<close>

definition isStartArrayToken :: "val \<Rightarrow> bool" where
  "isStartArrayToken item =
     (case item of VToken token \<Rightarrow> tokType token = TOKEN_START_ARRAY | _ \<Rightarrow> False)"

function endArrayLoop :: "val list \<Rightarrow> Interpreter \<Rightarrow> (val list \<times> Interpreter) result" where
  "endArrayLoop items i =
     (case StackPop i of
        Panic e \<Rightarrow> Panic e
      | Err e i' \<Rightarrow> Err e i'
      | Ok (item, i') \<Rightarrow>
          if isStartArrayToken item then Ok (items, i')
          else endArrayLoop (items @ [item]) i')"
  by pat_completeness auto
termination
  by (relation "measure (\<lambda>(items, i). length (stack i))")
     (auto simp: StackPop_def split: if_splits)

declare endArrayLoop.simps [simp del]

definition EndArrayWord_Execute :: "Interpreter \<Rightarrow> Interpreter result" where
  "EndArrayWord_Execute i =
     (case endArrayLoop [] i of
        Panic e \<Rightarrow> Panic e
      | Err e i' \<Rightarrow> Err e i'
      | Ok (items, i') \<Rightarrow> Ok (StackPush (VArray (rev items)) i'))"

definition StartModuleWord_Execute :: "string \<Rightarrow> Interpreter \<Rightarrow> Interpreter result" where
  "StartModuleWord_Execute nm i =
     (if nm = [] then Ok (ModuleStackPush (appModule i) i)
      else
        (case CurModule i of
           None \<Rightarrow> Panic indexPanic
         | Some cur \<Rightarrow>
             (case modules (moduleHeap i cur) nm of
                Some module \<Rightarrow> Ok (ModuleStackPush module i)
              | None \<Rightarrow>
                  (let (module, i1) = NewModule nm [] i;
                       i2 = updateModule cur (Module_RegisterModule nm nm module) i1;
                       i3 = (if name (moduleHeap i2 cur) = [] then RegisterModule module i2
                             else i2)
                   in Ok (ModuleStackPush module i3)))))"

definition EndModuleWord_Execute :: "Interpreter \<Rightarrow> Interpreter result" where
  "EndModuleWord_Execute i =
     (case ModuleStackPop i of
        Panic e \<Rightarrow> Panic e
      | Err e i' \<Rightarrow> Err e i'
      | Ok (module, i') \<Rightarrow> Ok i')"

text \<open>
  The tail of \<^verbatim>\<open>ModuleMemoWord.Refresh\<close> after the wrapped word has run: pop the top of
  the stack into the cell and set \<^verbatim>\<open>hasValue\<close>.
\<close>

definition storeMemo :: "nat \<Rightarrow> Interpreter result \<Rightarrow> Interpreter result" where
  "storeMemo c r =
     (case r of
        Panic e \<Rightarrow> Panic e
      | Err e i' \<Rightarrow> Err e i'
      | Ok i' \<Rightarrow>
          (case StackPop i' of
             Panic e \<Rightarrow> Panic e
           | Err e i'' \<Rightarrow> Err e i''
           | Ok (v, i'') \<Rightarrow>
               Ok (i''\<lparr>memoHeap := (memoHeap i'')(c := \<lparr>hasValue = True, memoValue = v\<rparr>)\<rparr>)))"

definition pushMemo :: "nat \<Rightarrow> Interpreter \<Rightarrow> Interpreter" where
  "pushMemo c i = StackPush (memoValue (memoHeap i c)) i"

subsection \<open>Execute\<close>

text \<open>
  \<^verbatim>\<open>Execute\<close> of every word type; \<open>executeWords\<close> is the loop over the body of a
  \<^verbatim>\<open>DefinitionWord\<close> (its first argument is the definition itself, which the error handlers
  receive), and \<open>Refresh\<close> is \<^verbatim>\<open>ModuleMemoWord.Refresh\<close>.
\<close>

fun Execute :: "natives \<Rightarrow> ehandlers \<Rightarrow> word \<Rightarrow> Interpreter \<Rightarrow> Interpreter result"
and executeWords ::
  "natives \<Rightarrow> ehandlers \<Rightarrow> word \<Rightarrow> word list \<Rightarrow> Interpreter \<Rightarrow> Interpreter result"
where
  "Execute N H (PushValueWord n v) i = Ok (StackPush v i)"
| "Execute N H (ModuleWord n handler ehs) i =
     (case N handler i of
        Ok i' \<Rightarrow> Ok i'
      | Panic e \<Rightarrow> Panic e
      | Err err i' \<Rightarrow>
          (case TryErrorHandlers H (ModuleWord n handler ehs) err (ModuleWord n handler ehs) i' of
             Ok i'' \<Rightarrow> Ok i''
           | Err handledErr i'' \<Rightarrow> Err err i''
           | Panic e \<Rightarrow> Panic e))"
| "Execute N H (DefinitionWord n ws ehs) i = executeWords N H (DefinitionWord n ws ehs) ws i"
| "Execute N H (ExecuteWord n targetWord) i = Execute N H targetWord i"
| "Execute N H (StartModuleWord n) i = StartModuleWord_Execute n i"
| "Execute N H EndModuleWord i = EndModuleWord_Execute i"
| "Execute N H EndArrayWord i = EndArrayWord_Execute i"
| "Execute N H (ModuleMemoWord c w) i =
     (if \<not> hasValue (memoHeap i c) then
        (case storeMemo c (Execute N H w i) of
           Ok i' \<Rightarrow> Ok (pushMemo c i')
         | Err e i' \<Rightarrow> Err e i'
         | Panic e \<Rightarrow> Panic e)
      else Ok (pushMemo c i))"
| "Execute N H (ModuleMemoBangWord c w) i = storeMemo c (Execute N H w i)"
| "Execute N H (ModuleMemoBangAtWord c w) i =
     (case storeMemo c (Execute N H w i) of
        Ok i' \<Rightarrow> Ok (pushMemo c i')
      | Err e i' \<Rightarrow> Err e i'
      | Panic e \<Rightarrow> Panic e)"
| "executeWords N H self [] i = Ok i"
| "executeWords N H self (wd # rest) i =
     (case Execute N H wd i of
        Ok i' \<Rightarrow> executeWords N H self rest i'
      | Panic e \<Rightarrow> Panic e
      | Err err i' \<Rightarrow>
          (case TryErrorHandlers H self err self i' of
             Ok i'' \<Rightarrow> executeWords N H self rest i''
           | Err handledErr i'' \<Rightarrow> Err err i''
           | Panic e \<Rightarrow> Panic e))"

definition Refresh :: "natives \<Rightarrow> ehandlers \<Rightarrow> nat \<Rightarrow> word \<Rightarrow> Interpreter \<Rightarrow> Interpreter result" where
  "Refresh N H c w i = storeMemo c (Execute N H w i)"

section \<open>Literal handlers\<close>

text \<open>
  A literal handler maps a lexeme to a value or fails. \<^verbatim>\<open>ToBool\<close> and \<^verbatim>\<open>ToInt\<close> are modelled
  in full. The float, datetime, date and time handlers compute with \<^verbatim>\<open>strconv.ParseFloat\<close>
  and the \<^verbatim>\<open>time\<close> package: each is modelled by the test it makes on the lexeme before it
  calls the library, and the library part is a parameter (\<open>externals\<close>).
\<close>

definition ToBool :: "string \<Rightarrow> val option" where
  "ToBool str =
     (if str = ''TRUE'' then Some (VBool True)
      else if str = ''FALSE'' then Some (VBool False)
      else None)"

definition isDigit :: "char \<Rightarrow> bool" where
  "isDigit c = (c \<in> set ''0123456789'')"

definition digitValue :: "char \<Rightarrow> int" where
  "digitValue c = of_char c - 48"

text \<open>
  \<^verbatim>\<open>strconv.ParseInt(s, 10, 64)\<close>: an optional sign, then one or more decimal digits, and
  the value must fit in 64 bits (signed).
\<close>

definition ParseInt :: "string \<Rightarrow> int option" where
  "ParseInt s =
     (if s = [] then None
      else
        (let neg = (hd s = CHR ''-'');
             ds = (if hd s = CHR ''+'' \<or> hd s = CHR ''-'' then tl s else s)
         in if ds = [] then None
            else if \<not> list_all isDigit ds then None
            else
              (let un = foldl (\<lambda>acc c. 10 * acc + digitValue c) 0 ds
               in if \<not> neg \<and> un \<ge> 2 ^ 63 then None
                  else if neg \<and> un > 2 ^ 63 then None
                  else Some (if neg then - un else un))))"

text \<open>\<^verbatim>\<open>strconv.FormatInt(n, 10)\<close>.\<close>

fun natDigits :: "nat \<Rightarrow> string" where
  "natDigits n =
     (if n < 10 then [''0123456789'' ! n]
      else natDigits (n div 10) @ [''0123456789'' ! (n mod 10)])"

declare natDigits.simps [simp del]

definition FormatInt :: "int \<Rightarrow> string" where
  "FormatInt n = (if n < 0 then CHR ''-'' # natDigits (nat (- n)) else natDigits (nat n))"

definition ToInt :: "string \<Rightarrow> val option" where
  "ToInt str =
     (if CHR ''.'' \<in> set str then None
      else
        (case ParseInt str of
           None \<Rightarrow> None
         | Some n \<Rightarrow> if FormatInt n \<noteq> str then None else Some (VInt n)))"

record externals =
  parseFloat :: "string \<Rightarrow> val option"
  parseZonedDateTime :: "string \<Rightarrow> val option"
  makeLiteralDate :: "string \<Rightarrow> val option"
  makeTime :: "string \<Rightarrow> val option"

definition ToFloat :: "externals \<Rightarrow> string \<Rightarrow> val option" where
  "ToFloat ext str = (if CHR ''.'' \<notin> set str then None else parseFloat ext str)"

definition ToZonedDateTime :: "externals \<Rightarrow> string \<Rightarrow> val option" where
  "ToZonedDateTime ext str =
     (if CHR ''T'' \<notin> set str then None else parseZonedDateTime ext str)"

text \<open>The regular expression \<^verbatim>\<open>^(\d{4}|YYYY)-(\d{2}|MM)-(\d{2}|DD)$\<close>.\<close>

definition matchesLiteralDate :: "string \<Rightarrow> bool" where
  "matchesLiteralDate str =
     (length str = 10 \<and> str ! 4 = CHR ''-'' \<and> str ! 7 = CHR ''-''
      \<and> (list_all isDigit (take 4 str) \<or> take 4 str = ''YYYY'')
      \<and> (list_all isDigit (take 2 (drop 5 str)) \<or> take 2 (drop 5 str) = ''MM'')
      \<and> (list_all isDigit (drop 8 str) \<or> drop 8 str = ''DD''))"

definition ToLiteralDate :: "externals \<Rightarrow> string \<Rightarrow> val option" where
  "ToLiteralDate ext str = (if \<not> matchesLiteralDate str then None else makeLiteralDate ext str)"

text \<open>The regular expression \<^verbatim>\<open>^(\d{1,2}):(\d{2})(?:\s*(AM|PM))?$\<close>.\<close>

definition isSpace :: "char \<Rightarrow> bool" where
  "isSpace c = (c \<in> set [CHR 0x09, CHR 0x0A, CHR 0x0C, CHR 0x0D, CHR '' ''])"

definition matchesTime :: "string \<Rightarrow> bool" where
  "matchesTime str =
     (let hours = takeWhile isDigit str;
          r = drop (length hours) str
      in (length hours = 1 \<or> length hours = 2)
         \<and> length r \<ge> 3 \<and> r ! 0 = CHR '':'' \<and> isDigit (r ! 1) \<and> isDigit (r ! 2)
         \<and> (drop 3 r = [] \<or> dropWhile isSpace (drop 3 r) = ''AM''
              \<or> dropWhile isSpace (drop 3 r) = ''PM''))"

definition ToTime :: "externals \<Rightarrow> string \<Rightarrow> val option" where
  "ToTime ext str = (if \<not> matchesTime str then None else makeTime ext str)"

definition standardLiterals :: "externals \<Rightarrow> (string \<Rightarrow> val option) list" where
  "standardLiterals ext =
     [ToBool, ToFloat ext, ToZonedDateTime ext, ToLiteralDate ext, ToTime ext, ToInt]"

definition RegisterLiteralHandler ::
  "(string \<Rightarrow> val option) \<Rightarrow> Interpreter \<Rightarrow> Interpreter" where
  "RegisterLiteralHandler handler i = i\<lparr>literalHandlers := handler # literalHandlers i\<rparr>"

fun literalLoop :: "(string \<Rightarrow> val option) list \<Rightarrow> string \<Rightarrow> word option" where
  "literalLoop [] nm = None"
| "literalLoop (handler # rest) nm =
     (case handler nm of
        Some v \<Rightarrow> Some (PushValueWord nm v)
      | None \<Rightarrow> literalLoop rest nm)"

definition findLiteralWord :: "Interpreter \<Rightarrow> string \<Rightarrow> word option" where
  "findLiteralWord i nm = literalLoop (literalHandlers i) nm"

section \<open>The interpreter\<close>

text \<open>
  \<^verbatim>\<open>NewInterpreter()\<close>: the app module is the first module of the heap. Modules given to
  \<^verbatim>\<open>NewInterpreter\<close> are imported with \<open>Interpreter_ImportModule\<close> afterwards.
\<close>

definition NewInterpreter :: "externals \<Rightarrow> Interpreter" where
  "NewInterpreter ext =
     \<lparr>stack = [], appModule = 0, moduleStack = [0], registeredMods = Map.empty,
      tokenizerStack = [], previousToken = None, isCompiling = False,
      isMemoDefinition = False, curDefinition = None,
      literalHandlers = standardLiterals ext, timezone = ''UTC'',
      moduleHeap = (\<lambda>a. emptyModule [] []), nextModule = 1,
      variableHeap = (\<lambda>a. \<lparr>variableName = [], variableValue = VNil\<rparr>), nextVariable = 0,
      memoHeap = (\<lambda>a. \<lparr>hasValue = False, memoValue = VNil\<rparr>), nextMemo = 0\<rparr>"

subsection \<open>Name resolution\<close>

text \<open>The loop of \<^verbatim>\<open>Interpreter.FindWord\<close> over the module stack, from the top down.\<close>

fun findInStack :: "Interpreter \<Rightarrow> string \<Rightarrow> nat \<Rightarrow> word option" where
  "findInStack i nm 0 = None"
| "findInStack i nm (Suc j) =
     (case Module_FindWord (moduleHeap i (moduleStack i ! j)) nm of
        Some w \<Rightarrow> Some w
      | None \<Rightarrow> findInStack i nm j)"

definition FindWord :: "Interpreter \<Rightarrow> string \<Rightarrow> error + word" where
  "FindWord i nm =
     (case findInStack i nm (length (moduleStack i)) of
        Some w \<Rightarrow> Inr w
      | None \<Rightarrow>
          (case findLiteralWord i nm of
             Some w \<Rightarrow> Inr w
           | None \<Rightarrow> Inl (UnknownWordError nm)))"

subsection \<open>Token handling\<close>

definition appendToDefinition :: "word \<Rightarrow> Interpreter \<Rightarrow> Interpreter result" where
  "appendToDefinition w i =
     (case curDefinition i of
        None \<Rightarrow> Panic nilPanic
      | Some (nm, ws) \<Rightarrow> Ok (i\<lparr>curDefinition := Some (nm, ws @ [w])\<rparr>))"

definition handleWord ::
  "natives \<Rightarrow> ehandlers \<Rightarrow> word \<Rightarrow> CodeLocation \<Rightarrow> Interpreter \<Rightarrow> Interpreter result" where
  "handleWord N H w location i =
     (if isCompiling i then appendToDefinition w i else Execute N H w i)"

definition handleStringToken ::
  "natives \<Rightarrow> ehandlers \<Rightarrow> Token \<Rightarrow> Interpreter \<Rightarrow> Interpreter result" where
  "handleStringToken N H token i =
     handleWord N H (PushValueWord ''<string>'' (VString (tokString token))) (tokLocation token) i"

definition handleDotSymbolToken ::
  "natives \<Rightarrow> ehandlers \<Rightarrow> Token \<Rightarrow> Interpreter \<Rightarrow> Interpreter result" where
  "handleDotSymbolToken N H token i =
     handleWord N H (PushValueWord ''<dot-symbol>'' (VString (tokString token)))
       (tokLocation token) i"

definition handleStartArrayToken ::
  "natives \<Rightarrow> ehandlers \<Rightarrow> Token \<Rightarrow> Interpreter \<Rightarrow> Interpreter result" where
  "handleStartArrayToken N H token i =
     handleWord N H (PushValueWord ''<start_array_token>'' (VToken token)) (tokLocation token) i"

definition handleEndArrayToken ::
  "natives \<Rightarrow> ehandlers \<Rightarrow> Token \<Rightarrow> Interpreter \<Rightarrow> Interpreter result" where
  "handleEndArrayToken N H token i = handleWord N H EndArrayWord (tokLocation token) i"

text \<open>
  The module tokens: the word is appended when compiling, and executed in both modes.
\<close>

definition handleImmediate ::
  "natives \<Rightarrow> ehandlers \<Rightarrow> word \<Rightarrow> Interpreter \<Rightarrow> Interpreter result" where
  "handleImmediate N H w i =
     (if isCompiling i then
        (case appendToDefinition w i of
           Ok i' \<Rightarrow> Execute N H w i'
         | Err e i' \<Rightarrow> Err e i'
         | Panic e \<Rightarrow> Panic e)
      else Execute N H w i)"

definition handleStartModuleToken ::
  "natives \<Rightarrow> ehandlers \<Rightarrow> Token \<Rightarrow> Interpreter \<Rightarrow> Interpreter result" where
  "handleStartModuleToken N H token i = handleImmediate N H (StartModuleWord (tokString token)) i"

definition handleEndModuleToken ::
  "natives \<Rightarrow> ehandlers \<Rightarrow> Token \<Rightarrow> Interpreter \<Rightarrow> Interpreter result" where
  "handleEndModuleToken N H token i = handleImmediate N H EndModuleWord i"

definition missingSemicolon :: "Interpreter \<Rightarrow> Interpreter result" where
  "missingSemicolon i =
     (case previousToken i of
        None \<Rightarrow> Panic nilPanic
      | Some p \<Rightarrow> Err (WithLocation NewMissingSemicolonError (Some (tokLocation p))) i)"

definition handleStartDefinitionToken :: "Token \<Rightarrow> Interpreter \<Rightarrow> Interpreter result" where
  "handleStartDefinitionToken token i =
     (if isCompiling i then missingSemicolon i
      else Ok (i\<lparr>curDefinition := Some (tokString token, []),
                 isCompiling := True, isMemoDefinition := False\<rparr>))"

definition handleStartMemoToken :: "Token \<Rightarrow> Interpreter \<Rightarrow> Interpreter result" where
  "handleStartMemoToken token i =
     (if isCompiling i then missingSemicolon i
      else Ok (i\<lparr>curDefinition := Some (tokString token, []),
                 isCompiling := True, isMemoDefinition := True\<rparr>))"

definition handleEndDefinitionToken :: "Token \<Rightarrow> Interpreter \<Rightarrow> Interpreter result" where
  "handleEndDefinitionToken token i =
     (if \<not> isCompiling i
      then Err (WithLocation NewExtraSemicolonError (Some (tokLocation token))) i
      else
        (case curDefinition i of
           None \<Rightarrow> Err (WithLocation NewExtraSemicolonError (Some (tokLocation token))) i
         | Some (nm, ws) \<Rightarrow>
             (case CurModule i of
                None \<Rightarrow> Panic indexPanic
              | Some cur \<Rightarrow>
                  (let i1 = (if isMemoDefinition i
                             then AddMemoWords cur (DefinitionWord nm ws []) i
                             else updateModule cur (AddWord (DefinitionWord nm ws [])) i)
                   in Ok (i1\<lparr>isCompiling := False\<rparr>)))))"

definition handleWordToken ::
  "natives \<Rightarrow> ehandlers \<Rightarrow> Token \<Rightarrow> Interpreter \<Rightarrow> Interpreter result" where
  "handleWordToken N H token i =
     (case FindWord i (tokString token) of
        Inl err \<Rightarrow> Err err i
      | Inr w \<Rightarrow> handleWord N H w (tokLocation token) i)"

definition handleEOS :: "Interpreter \<Rightarrow> Interpreter result" where
  "handleEOS i =
     (if isCompiling i then
        (case previousToken i of
           Some p \<Rightarrow> Err (WithLocation NewMissingSemicolonError (Some (tokLocation p))) i
         | None \<Rightarrow> Err NewMissingSemicolonError i)
      else Ok i)"

definition handleToken ::
  "natives \<Rightarrow> ehandlers \<Rightarrow> Token \<Rightarrow> Interpreter \<Rightarrow> Interpreter result" where
  "handleToken N H token i =
     (case tokType token of
        TOKEN_STRING \<Rightarrow> handleStringToken N H token i
      | TOKEN_COMMENT \<Rightarrow> Ok i
      | TOKEN_START_ARRAY \<Rightarrow> handleStartArrayToken N H token i
      | TOKEN_END_ARRAY \<Rightarrow> handleEndArrayToken N H token i
      | TOKEN_START_MODULE \<Rightarrow> handleStartModuleToken N H token i
      | TOKEN_END_MODULE \<Rightarrow> handleEndModuleToken N H token i
      | TOKEN_START_DEF \<Rightarrow> handleStartDefinitionToken token i
      | TOKEN_START_MEMO \<Rightarrow> handleStartMemoToken token i
      | TOKEN_END_DEF \<Rightarrow> handleEndDefinitionToken token i
      | TOKEN_DOT_SYMBOL \<Rightarrow> handleDotSymbolToken N H token i
      | TOKEN_WORD \<Rightarrow> handleWordToken N H token i
      | TOKEN_EOS \<Rightarrow> handleEOS i)"

subsection \<open>Run\<close>

text \<open>
  \<^verbatim>\<open>runWithTokenizer\<close> holds a pointer to the tokenizer that \<^verbatim>\<open>Run\<close> pushed on the tokenizer
  stack. The loop threads the tokenizer and writes it back to its slot \<open>k\<close> of the stack
  after each \<^verbatim>\<open>NextToken\<close>, so that \<^verbatim>\<open>StackPop\<close> reads the location of the current token
  there. \<^verbatim>\<open>Run\<close> creates its tokenizer with \<^verbatim>\<open>streaming = false\<close>; the \<^verbatim>\<open>(nil, nil)\<close> return
  of a streaming tokenizer would make \<^verbatim>\<open>handleToken\<close> dereference a nil token.
  The loop is a partial function: \<open>None\<close> is a loop that never returns.
\<close>

definition syncTokenizer :: "nat \<Rightarrow> Tokenizer \<Rightarrow> Interpreter \<Rightarrow> Interpreter" where
  "syncTokenizer k t i = i\<lparr>tokenizerStack := (tokenizerStack i)[k := t]\<rparr>"

partial_function (option) runWithTokenizer ::
  "natives \<Rightarrow> ehandlers \<Rightarrow> nat \<Rightarrow> Tokenizer \<Rightarrow> Interpreter \<Rightarrow> Interpreter result option" where
  "runWithTokenizer N H k t i =
     (case NextToken t of
        TPanic \<Rightarrow> Some (Panic (RuntimePanic ''Invalid input position''))
      | TErr err t' \<Rightarrow> Some (Err err (syncTokenizer k t' i))
      | TNil t' \<Rightarrow> Some (Panic nilPanic)
      | TToken token t' \<Rightarrow>
          (case handleToken N H token (syncTokenizer k t' i) of
             Panic e \<Rightarrow> Some (Panic e)
           | Err err i' \<Rightarrow> Some (Err err i')
           | Ok i' \<Rightarrow>
               if tokType token = TOKEN_EOS then Some (Ok i')
               else runWithTokenizer N H k t' (i'\<lparr>previousToken := Some token\<rparr>)))"

definition popTokenizer :: "Interpreter \<Rightarrow> Interpreter" where
  "popTokenizer i = i\<lparr>tokenizerStack := butlast (tokenizerStack i)\<rparr>"

text \<open>
  Consecutive calls, each made only if the one before returned without an error: what the
  loop of \<^verbatim>\<open>runWithTokenizer\<close> does with the tokens it reads one after the other.
\<close>

fun steps :: "(Interpreter \<Rightarrow> Interpreter result) list \<Rightarrow> Interpreter \<Rightarrow> Interpreter result" where
  "steps [] i = Ok i"
| "steps (f # fs) i =
     (case f i of
        Ok i' \<Rightarrow> steps fs i'
      | Err err i' \<Rightarrow> Err err i'
      | Panic e \<Rightarrow> Panic e)"

definition Run ::
  "natives \<Rightarrow> ehandlers \<Rightarrow> string \<Rightarrow> Interpreter \<Rightarrow> Interpreter result option" where
  "Run N H code i =
     (let tokenizer = NewTokenizer code None False;
          k = length (tokenizerStack i)
      in case runWithTokenizer N H k tokenizer
                (i\<lparr>tokenizerStack := tokenizerStack i @ [tokenizer]\<rparr>) of
           None \<Rightarrow> None
         | Some (Ok i') \<Rightarrow> Some (Ok (popTokenizer i'))
         | Some (Err err i') \<Rightarrow> Some (Err err (popTokenizer i'))
         | Some (Panic e) \<Rightarrow> Some (Panic e))"

section \<open>Fixtures for concrete runs\<close>

text \<open>
  A host that supplies no float or date parsing, no native word and no error handler, and
  the interpreter it creates.
\<close>

definition plainExternals :: externals where
  "plainExternals =
     \<lparr>parseFloat = (\<lambda>s. None), parseZonedDateTime = (\<lambda>s. None),
      makeLiteralDate = (\<lambda>s. None), makeTime = (\<lambda>s. None)\<rparr>"

definition noNatives :: natives where
  "noNatives = (\<lambda>k i. Ok i)"

definition noHandlers :: ehandlers where
  "noHandlers = (\<lambda>k err w i. Err err i)"

definition plainInterpreter :: Interpreter where
  "plainInterpreter = NewInterpreter plainExternals"

definition startArrayToken :: Token where
  "startArrayToken = NewToken TOKEN_START_ARRAY ''['' (lineColumn 1 1)"

definition endArrayToken :: Token where
  "endArrayToken = NewToken TOKEN_END_ARRAY '']'' (lineColumn 1 1)"

text \<open>
  Natives and error handlers after the repository's tests of the error handlers: native 0
  fails with an ordinary error, native 1 with an intentional stop; handler 0 fails too,
  every other handler succeeds and leaves a mark on the stack.
\<close>

definition failingNatives :: natives where
  "failingNatives k i =
     (if k = 0 then Err (OtherError ''Test error'') i
      else if k = 1 then Err (IntentionalStopError ''Intentional stop'') i
      else Ok i)"

definition sampleHandlers :: ehandlers where
  "sampleHandlers k err w i =
     (if k = 0 then Err (OtherError ''Handler 1 failed'') i
      else Ok (StackPush (VString ''handled'') i))"

text \<open>An interpreter in the middle of compiling the definition \<^verbatim>\<open>W\<close>.\<close>

definition compilingInterpreter :: Interpreter where
  "compilingInterpreter =
     plainInterpreter\<lparr>isCompiling := True, curDefinition := Some (''W'', []),
       previousToken := Some (NewToken TOKEN_START_DEF ''W'' (lineColumn 1 3))\<rparr>"

definition startModuleToken :: Token where
  "startModuleToken = NewToken TOKEN_START_MODULE ''m'' (lineColumn 1 1)"

definition endModuleToken :: Token where
  "endModuleToken = NewToken TOKEN_END_MODULE ''}'' (lineColumn 1 1)"

text \<open>
  Inputs for the triple-quote state: three quotes, \<^verbatim>\<open>a\<close> and four quotes; the same with
  six closing quotes; and a tokenizer that stands on the first of four quotes.
\<close>

definition fourQuoteInput :: string where
  "fourQuoteInput =
     [CHR 0x22, CHR 0x22, CHR 0x22, CHR ''a'', CHR 0x22, CHR 0x22, CHR 0x22, CHR 0x22]"

definition sixQuoteInput :: string where
  "sixQuoteInput =
     [CHR 0x22, CHR 0x22, CHR 0x22, CHR ''a'',
      CHR 0x22, CHR 0x22, CHR 0x22, CHR 0x22, CHR 0x22, CHR 0x22]"

definition afterOpener :: Tokenizer where
  "afterOpener =
     \<lparr>referenceLocation = defaultReference, line = 1, column = 5,
      inputString = fourQuoteInput, inputPos = 4, tokenStartPos = 0, tokenEndPos = 0,
      tokenLine = 1, tokenColumn = 1, tokenString = [], stringDelta = None,
      streaming = False\<rparr>"

definition closedTokenizer :: Tokenizer where
  "closedTokenizer =
     \<lparr>referenceLocation = defaultReference, line = 1, column = 9,
      inputString = fourQuoteInput, inputPos = 8, tokenStartPos = 4, tokenEndPos = 0,
      tokenLine = 1, tokenColumn = 5, tokenString = [CHR 0x22], stringDelta = None,
      streaming = False\<rparr>"

text \<open>
  An interpreter whose heap holds, besides the app module, a library module \<^verbatim>\<open>lib\<close> with
  the exportable word \<^verbatim>\<open>A\<close>, the internal word \<^verbatim>\<open>B\<close> and the variable \<^verbatim>\<open>v\<close>.
\<close>

definition libraryModule :: Module where
  "libraryModule =
     (emptyModule ''lib'' [])
       \<lparr>words := [PushValueWord ''A'' (VInt 1), PushValueWord ''B'' (VInt 2)],
        exportable := [''A''], variables := [(''v'', 0)]\<rparr>"

definition libraryInterpreter :: Interpreter where
  "libraryInterpreter =
     plainInterpreter
       \<lparr>moduleHeap := (moduleHeap plainInterpreter)(1 := libraryModule), nextModule := 2,
        variableHeap := (variableHeap plainInterpreter)
           (0 := \<lparr>variableName = ''v'', variableValue = VInt 7\<rparr>),
        nextVariable := 1\<rparr>"

text \<open>
  The invariant of the module stack: it is not empty and its bottom is the app module;
  the app module is allocated and is named by the empty string, every other module on the
  stack has a name, and so has every child registered under a non-empty key.
\<close>

definition moduleInvariant :: "Interpreter \<Rightarrow> bool" where
  "moduleInvariant i \<longleftrightarrow>
     moduleStack i \<noteq> [] \<and> hd (moduleStack i) = appModule i
     \<and> appModule i < nextModule i
     \<and> name (moduleHeap i (appModule i)) = []
     \<and> (\<forall>a\<in>set (moduleStack i). a \<noteq> appModule i \<longrightarrow> name (moduleHeap i a) \<noteq> [])
     \<and> (\<forall>a k c. modules (moduleHeap i a) k = Some c \<longrightarrow> k \<noteq> [] \<longrightarrow> c \<noteq> appModule i
           \<longrightarrow> name (moduleHeap i c) \<noteq> [])"

text \<open>
  A module in which the name \<^verbatim>\<open>X\<close> is defined twice and \<^verbatim>\<open>v\<close> is a variable, and an
  interpreter whose module stack holds the app module, with its own word \<^verbatim>\<open>A\<close>, below the
  library module.
\<close>

definition shadowModule :: Module where
  "shadowModule =
     (emptyModule ''m'' [])
       \<lparr>words := [PushValueWord ''X'' (VInt 1), PushValueWord ''X'' (VInt 2)],
        variables := [(''v'', 0)]\<rparr>"

definition stackedInterpreter :: Interpreter where
  "stackedInterpreter =
     libraryInterpreter
       \<lparr>moduleHeap := (moduleHeap libraryInterpreter)
           (0 := (emptyModule [] [])\<lparr>words := [PushValueWord ''A'' (VInt 0)]\<rparr>),
        moduleStack := [0, 1]\<rparr>"

text \<open>
  An interpreter that has read \<^verbatim>\<open>@: X 2\<close>, and the definition it is compiling.
\<close>

definition memoBody :: word where
  "memoBody = DefinitionWord ''X'' [PushValueWord ''2'' (VInt 2)] []"

definition compilingMemo :: Interpreter where
  "compilingMemo =
     plainInterpreter\<lparr>isCompiling := True, isMemoDefinition := True,
       curDefinition := Some (''X'', [PushValueWord ''2'' (VInt 2)])\<rparr>"

definition endDefToken :: Token where
  "endDefToken = NewToken TOKEN_END_DEF '';'' (lineColumn 1 1)"

text \<open>
  The integer \<^verbatim>\<open>+\<close> native that the spec's scenarios assume (the \<^verbatim>\<open>+\<close> of the repository's
  math module computes in \<^verbatim>\<open>float64\<close>): it pops two integers and pushes their sum. It is
  native 0 of \<open>arithmeticNatives\<close>, and \<open>arithmeticInterpreter\<close> is a new interpreter into
  which a module with the exportable word \<^verbatim>\<open>+\<close> has been imported without a prefix.
\<close>

definition intPlus :: "Interpreter \<Rightarrow> Interpreter result" where
  "intPlus i =
     (case StackPop i of
        Panic e \<Rightarrow> Panic e
      | Err e i' \<Rightarrow> Err e i'
      | Ok (b, i1) \<Rightarrow>
          (case StackPop i1 of
             Panic e \<Rightarrow> Panic e
           | Err e i' \<Rightarrow> Err e i'
           | Ok (a, i2) \<Rightarrow>
               (case (a, b) of
                  (VInt x, VInt y) \<Rightarrow> Ok (StackPush (VInt (x + y)) i2)
                | _ \<Rightarrow> Err (OtherError ''+ expects two integers'') i2)))"

definition arithmeticNatives :: natives where
  "arithmeticNatives k i = (if k = 0 then intPlus i else Ok i)"

definition arithmeticInterpreter :: Interpreter where
  "arithmeticInterpreter =
     (let (m, i1) = NewModule ''math'' [] plainInterpreter;
          i2 = updateModule m (AddModuleWord ''+'' 0) i1
      in Interpreter_ImportModule m [] i2)"

text \<open>
  An outcome keeps the module invariant when the state it carries satisfies it; the host
  keeps it when every native word and every error handler does.
\<close>

definition keepsInvariant :: "Interpreter result \<Rightarrow> bool" where
  "keepsInvariant r =
     (case r of Ok i' \<Rightarrow> moduleInvariant i' | Err e i' \<Rightarrow> moduleInvariant i' | Panic e \<Rightarrow> True)"

definition hostKeepsInvariant :: "natives \<Rightarrow> ehandlers \<Rightarrow> bool" where
  "hostKeepsInvariant N H \<longleftrightarrow>
     (\<forall>k i. moduleInvariant i \<longrightarrow> keepsInvariant (N k i))
     \<and> (\<forall>k err w i. moduleInvariant i \<longrightarrow> keepsInvariant (H k err w i))"

section \<open>Evaluation rules\<close>

text \<open>The definitions that a run on a concrete input unfolds.\<close>

lemmas tok_defs = NextToken_def clearTokenString_def NewTokenizer_def defaultReference_def
  unescapeString_def noteStartToken_def advancePosition_def stepForward_def stepBack_def
  isWhitespace_def whitespace_def isQuote_def quoteChars_def isTripleQuote_def isStartMemo_def
  WriteRune_def writeRune_def getTokenLocation_def NewToken_def
  transitionFromCOMMENT_def transitionFromGATHER_DEFINITION_NAME_def
  transitionFromGATHER_MEMO_NAME_def transitionFromGATHER_MODULE_def
  transitionFromGATHER_TRIPLE_QUOTE_STRING_def transitionFromGATHER_STRING_def
  transitionFromGATHER_WORD_def transitionFromGATHER_DOT_SYMBOL_def
  setDeltaEnd_def startDelta_def tokenStartError_def lineColumn_def
  Let_def numeral_2_eq_2 numeral_3_eq_3

lemmas tok_simps = transitionFromSTART.simps commentLoop.simps gatherDefinitionName.simps
  transitionFromSTART_DEFINITION.simps transitionFromSTART_MEMO.simps gatherModuleLoop.simps
  tripleQuoteLoop.simps stringLoop.simps gatherTimezone.simps gatherWordLoop.simps
  dotSymbolLoop.simps ReplaceAll.simps

lemmas interp_defs = handleToken_def handleStringToken_def handleDotSymbolToken_def
  handleStartArrayToken_def handleEndArrayToken_def handleStartModuleToken_def
  handleEndModuleToken_def handleStartDefinitionToken_def handleStartMemoToken_def
  handleEndDefinitionToken_def handleWordToken_def handleEOS_def handleWord_def
  handleImmediate_def appendToDefinition_def missingSemicolon_def
  FindWord_def findLiteralWord_def Module_FindWord_def FindDictionaryWord_def FindVariable_def
  CurModule_def AddMemoWords_def updateModule_def AddWord_def syncTokenizer_def popTokenizer_def
  StackPush_def StackPop_def storeMemo_def pushMemo_def TryErrorHandlers_def
  EndArrayWord_Execute_def endArrayLoop.simps isStartArrayToken_def

lemmas literal_defs = standardLiterals_def ToBool_def ToFloat_def ToZonedDateTime_def
  ToLiteralDate_def ToTime_def ToInt_def ParseInt_def FormatInt_def natDigits.simps
  matchesLiteralDate_def matchesTime_def isDigit_def isSpace_def digitValue_def

section \<open>Arrays\<close>

lemma endArrayLoop_collect:
  "tokType t = TOKEN_START_ARRAY \<Longrightarrow> \<forall>v\<in>set vs. \<not> isStartArrayToken v \<Longrightarrow>
   stack i = pre @ VToken t # vs \<Longrightarrow>
   endArrayLoop items i = Ok (items @ rev vs, i\<lparr>stack := pre\<rparr>)"
proof (induction vs arbitrary: items i rule: rev_induct)
  case Nil
  then show ?case
    by (subst endArrayLoop.simps) (simp add: StackPop_def isStartArrayToken_def)
next
  case (snoc x xs)
  have pop: "StackPop i = Ok (x, i\<lparr>stack := pre @ VToken t # xs\<rparr>)"
    using snoc.prems(3) by (simp add: StackPop_def butlast_append)
  have nx: "\<not> isStartArrayToken x" using snoc.prems(2) by simp
  have "endArrayLoop items i = endArrayLoop (items @ [x]) (i\<lparr>stack := pre @ VToken t # xs\<rparr>)"
    by (subst endArrayLoop.simps) (simp add: pop nx)
  also have "\<dots> = Ok ((items @ [x]) @ rev xs, i\<lparr>stack := pre @ VToken t # xs\<rparr>\<lparr>stack := pre\<rparr>)"
    using snoc.prems by (intro snoc.IH) auto
  finally show ?case by simp
qed

lemma EndArrayWord_collect:
  assumes "tokType t = TOKEN_START_ARRAY" and "\<forall>v\<in>set vs. \<not> isStartArrayToken v"
    and "stack i = pre @ VToken t # vs"
  shows "EndArrayWord_Execute i = Ok (i\<lparr>stack := pre @ [VArray vs]\<rparr>)"
  using endArrayLoop_collect [OF assms, of "[]"]
  by (simp add: EndArrayWord_Execute_def StackPush_def)

lemma steps_append:
  "steps (fs @ gs) i =
     (case steps fs i of Ok i' \<Rightarrow> steps gs i' | Err e i' \<Rightarrow> Err e i' | Panic e \<Rightarrow> Panic e)"
  by (induction fs arbitrary: i) (auto split: result.splits)

lemma steps_push_values:
  "\<not> isCompiling i \<Longrightarrow>
   steps (map (\<lambda>(n, v). handleWord N H (PushValueWord n v) loc) nvs) i =
     Ok (i\<lparr>stack := stack i @ map snd nvs\<rparr>)"
proof (induction nvs arbitrary: i)
  case Nil
  then show ?case by simp
next
  case (Cons p nvs)
  obtain n v where p: "p = (n, v)" by (cases p)
  have "\<not> isCompiling (StackPush v i)" using Cons.prems by (simp add: StackPush_def)
  from Cons.IH [OF this] show ?case
    using Cons.prems by (simp add: p handleWord_def StackPush_def)
qed

lemma Run_nested_array:
  "\<exists>i'. Run N H ''[ 1 2 [ 3 4 ] 5 ]'' (NewInterpreter plainExternals) = Some (Ok i')
        \<and> stack i' = [VArray [VInt 1, VInt 2, VArray [VInt 3, VInt 4], VInt 5]]"
  by (simp add: Run_def runWithTokenizer.simps tok_defs tok_simps interp_defs literal_defs
        NewInterpreter_def emptyModule_def plainExternals_def)

text \<open>
  C1. \<^verbatim>\<open>END_ARRAY\<close> pops down to the nearest \<^verbatim>\<open>START_ARRAY\<close> sentinel, drops the sentinel and
  pushes one sequence that holds the popped values in the order they were pushed. So the
  literal \<^verbatim>\<open>[ v1 ... vn ]\<close>, handled in interpret mode on an empty stack (the sentinel of
  \<^verbatim>\<open>[\<close>, one push per value, then \<^verbatim>\<open>]\<close>), leaves the single sequence \<open>v1 ... vn\<close>. The
  values are ordinary values: none of them is itself a \<^verbatim>\<open>START_ARRAY\<close> token. Running the
  nested literal \<^verbatim>\<open>[ 1 2 [ 3 4 ] 5 ]\<close> on a new interpreter leaves that one nested sequence.
\<close>

theorem C1_end_array_collects:
  assumes "tokType t = TOKEN_START_ARRAY"
    and "\<forall>v\<in>set (map snd nvs). \<not> isStartArrayToken v"
  shows "(stack i = pre @ VToken t # map snd nvs \<longrightarrow>
            Execute N H EndArrayWord i = Ok (i\<lparr>stack := pre @ [VArray (map snd nvs)]\<rparr>))
       \<and> (\<not> isCompiling i \<and> stack i = [] \<longrightarrow>
            steps (handleStartArrayToken N H t
                   # map (\<lambda>(n, v). handleWord N H (PushValueWord n v) loc) nvs
                   @ [handleEndArrayToken N H t']) i
              = Ok (i\<lparr>stack := [VArray (map snd nvs)]\<rparr>))
       \<and> (\<exists>i'. Run N H ''[ 1 2 [ 3 4 ] 5 ]'' (NewInterpreter plainExternals) = Some (Ok i')
             \<and> stack i' = [VArray [VInt 1, VInt 2, VArray [VInt 3, VInt 4], VInt 5]])"
proof (intro conjI impI)
  show "\<exists>i'. Run N H ''[ 1 2 [ 3 4 ] 5 ]'' (NewInterpreter plainExternals) = Some (Ok i')
             \<and> stack i' = [VArray [VInt 1, VInt 2, VArray [VInt 3, VInt 4], VInt 5]]"
    by (rule Run_nested_array)
next
  assume "stack i = pre @ VToken t # map snd nvs"
  then show "Execute N H EndArrayWord i = Ok (i\<lparr>stack := pre @ [VArray (map snd nvs)]\<rparr>)"
    using EndArrayWord_collect [OF assms] by simp
next
  assume a: "\<not> isCompiling i \<and> stack i = []"
  let ?i1 = "i\<lparr>stack := [VToken t]\<rparr>"
  let ?i2 = "i\<lparr>stack := VToken t # map snd nvs\<rparr>"
  have s1: "handleStartArrayToken N H t i = Ok ?i1"
    using a by (simp add: handleStartArrayToken_def handleWord_def StackPush_def)
  have s2: "steps (map (\<lambda>(n, v). handleWord N H (PushValueWord n v) loc) nvs) ?i1 = Ok ?i2"
    using a steps_push_values [of ?i1 N H loc nvs] by simp
  have "EndArrayWord_Execute ?i2 = Ok (?i2\<lparr>stack := [] @ [VArray (map snd nvs)]\<rparr>)"
    by (rule EndArrayWord_collect [OF assms]) simp
  then have s3: "handleEndArrayToken N H t' ?i2 = Ok (i\<lparr>stack := [VArray (map snd nvs)]\<rparr>)"
    using a by (simp add: handleEndArrayToken_def handleWord_def)
  show "steps (handleStartArrayToken N H t
               # map (\<lambda>(n, v). handleWord N H (PushValueWord n v) loc) nvs
               @ [handleEndArrayToken N H t']) i
          = Ok (i\<lparr>stack := [VArray (map snd nvs)]\<rparr>)"
    by (simp add: s1 steps_append s2 s3)
qed

theorem C1_end_array_collects_witness:
  "Execute noNatives noHandlers EndArrayWord
        (plainInterpreter\<lparr>stack := [VString ''x'', VToken startArrayToken, VInt 1, VInt 2]\<rparr>)
       = Ok (plainInterpreter\<lparr>stack := [VString ''x'', VArray [VInt 1, VInt 2]]\<rparr>)
   \<and> steps (handleStartArrayToken noNatives noHandlers startArrayToken
            # map (\<lambda>(n, v). handleWord noNatives noHandlers (PushValueWord n v) (lineColumn 1 1))
                [(''1'', VInt 1), (''2'', VInt 2)]
            @ [handleEndArrayToken noNatives noHandlers endArrayToken]) plainInterpreter
       = Ok (plainInterpreter\<lparr>stack := [VArray [VInt 1, VInt 2]]\<rparr>)"
proof -
  have h1: "tokType startArrayToken = TOKEN_START_ARRAY"
    by (simp add: startArrayToken_def NewToken_def)
  have h2: "\<forall>v\<in>set (map snd [(''1'', VInt 1), (''2'', VInt 2)]). \<not> isStartArrayToken v"
    by (simp add: isStartArrayToken_def)
  have c: "\<not> isCompiling plainInterpreter \<and> stack plainInterpreter = []"
    by (simp add: plainInterpreter_def NewInterpreter_def)
  show ?thesis
    using c
      C1_end_array_collects [OF h1 h2,
        of "plainInterpreter\<lparr>stack := [VString ''x'', VToken startArrayToken, VInt 1, VInt 2]\<rparr>"
           "[VString ''x'']" noNatives noHandlers]
      C1_end_array_collects [OF h1 h2, of plainInterpreter "[]" noNatives noHandlers
           "lineColumn 1 1" endArrayToken]
    by simp
qed

section \<open>Error handlers of a word\<close>

lemma handlersLoop_first_success:
  "failedThrough H pre err wd i = Some j \<Longrightarrow> H h err wd j = Ok j' \<Longrightarrow>
   handlersLoop H (pre @ h # post) err wd i = Ok j'"
  by (induction pre arbitrary: i) (auto split: result.splits)

lemma handlersLoop_all_fail:
  "failedThrough H hs err wd i = Some j \<Longrightarrow> handlersLoop H hs err wd i = Err err j"
  by (induction hs arbitrary: i) (auto split: result.splits)

lemma TryErrorHandlers_stop:
  "isIntentionalStop err \<Longrightarrow> TryErrorHandlers H w err wd i = Err err i"
  by (simp add: TryErrorHandlers_def)

lemma TryErrorHandlers_first_success:
  "\<not> isIntentionalStop err \<Longrightarrow> errorHandlers w = pre @ h # post \<Longrightarrow>
   failedThrough H pre err wd i = Some j \<Longrightarrow> H h err wd j = Ok j' \<Longrightarrow>
   TryErrorHandlers H w err wd i = Ok j'"
  by (simp add: TryErrorHandlers_def handlersLoop_first_success)

lemma TryErrorHandlers_all_fail:
  "\<not> isIntentionalStop err \<Longrightarrow> failedThrough H (errorHandlers w) err wd i = Some j \<Longrightarrow>
   TryErrorHandlers H w err wd i = Err err j"
  by (simp add: TryErrorHandlers_def handlersLoop_all_fail)

text \<open>
  C6. Let the handler of a \<^verbatim>\<open>ModuleWord\<close>, or a word of the body of a \<^verbatim>\<open>DefinitionWord\<close>,
  return the error \<open>err\<close>. If \<open>err\<close> is an intentional stop, no handler runs and \<open>err\<close> is
  returned. Otherwise the handlers run in the order of the list: when the handlers before
  \<open>h\<close> have all returned an error and \<open>h\<close> returns none, the fault is swallowed (the
  \<^verbatim>\<open>ModuleWord\<close> returns no error, the definition goes on with the rest of its body) and
  the handlers after \<open>h\<close> are not called; when every handler returns an error, the word
  returns \<open>err\<close> itself, not a handler's error.
\<close>

theorem C6_error_handlers:
   "(N handler i = Err err i1 \<longrightarrow>
       (isIntentionalStop err \<longrightarrow> Execute N H (ModuleWord n handler ehs) i = Err err i1)
     \<and> (\<not> isIntentionalStop err \<and> ehs = pre @ h # post
          \<and> failedThrough H pre err (ModuleWord n handler ehs) i1 = Some j \<and> H h err (ModuleWord n handler ehs) j = Ok j'
          \<longrightarrow> Execute N H (ModuleWord n handler ehs) i = Ok j')
     \<and> (\<not> isIntentionalStop err \<and> failedThrough H ehs err (ModuleWord n handler ehs) i1 = Some j
          \<longrightarrow> Execute N H (ModuleWord n handler ehs) i = Err err j))
  \<and> (Execute N H wd i = Err err i1 \<longrightarrow>
       (isIntentionalStop err \<longrightarrow> executeWords N H (DefinitionWord dn body ehs) (wd # rest) i = Err err i1)
     \<and> (\<not> isIntentionalStop err \<and> ehs = pre @ h # post
          \<and> failedThrough H pre err (DefinitionWord dn body ehs) i1 = Some j \<and> H h err (DefinitionWord dn body ehs) j = Ok j'
          \<longrightarrow> executeWords N H (DefinitionWord dn body ehs) (wd # rest) i = executeWords N H (DefinitionWord dn body ehs) rest j')
     \<and> (\<not> isIntentionalStop err \<and> failedThrough H ehs err (DefinitionWord dn body ehs) i1 = Some j
          \<longrightarrow> executeWords N H (DefinitionWord dn body ehs) (wd # rest) i = Err err j))"
proof -
  define mw where "mw = ModuleWord n handler ehs"
  define dw where "dw = DefinitionWord dn body ehs"
  have m: "errorHandlers mw = ehs" and d: "errorHandlers dw = ehs"
    by (simp_all add: mw_def dw_def)
  have m1: "Execute N H mw i = Err err i1"
    if "N handler i = Err err i1" "isIntentionalStop err"
    using that by (simp add: mw_def TryErrorHandlers_stop)
  have m2: "Execute N H mw i = Ok j'"
    if "N handler i = Err err i1" "\<not> isIntentionalStop err" "ehs = pre @ h # post"
       "failedThrough H pre err mw i1 = Some j" "H h err mw j = Ok j'"
    using that TryErrorHandlers_first_success [of err mw pre h post H mw i1 j j'] m
    by (simp add: mw_def)
  have m3: "Execute N H mw i = Err err j"
    if "N handler i = Err err i1" "\<not> isIntentionalStop err"
       "failedThrough H ehs err mw i1 = Some j"
    using that TryErrorHandlers_all_fail [of err H mw mw i1 j] m
    by (simp add: mw_def)
  have d1: "executeWords N H dw (wd # rest) i = Err err i1"
    if "Execute N H wd i = Err err i1" "isIntentionalStop err"
    using that by (simp add: TryErrorHandlers_stop)
  have d2: "executeWords N H dw (wd # rest) i = executeWords N H dw rest j'"
    if "Execute N H wd i = Err err i1" "\<not> isIntentionalStop err" "ehs = pre @ h # post"
       "failedThrough H pre err dw i1 = Some j" "H h err dw j = Ok j'"
    using that TryErrorHandlers_first_success [of err dw pre h post H dw i1 j j'] d
    by simp
  have d3: "executeWords N H dw (wd # rest) i = Err err j"
    if "Execute N H wd i = Err err i1" "\<not> isIntentionalStop err"
       "failedThrough H ehs err dw i1 = Some j"
    using that TryErrorHandlers_all_fail [of err H dw dw i1 j] d
    by simp
  show ?thesis
    using m1 m2 m3 d1 d2 d3 unfolding mw_def dw_def by blast
qed

theorem C6_error_handlers_witness:
  "Execute failingNatives sampleHandlers (ModuleWord ''FAILING-WORD'' 0 [0, 2, 3]) plainInterpreter
     = Ok (plainInterpreter\<lparr>stack := [VString ''handled'']\<rparr>)
   \<and> Execute failingNatives sampleHandlers (ModuleWord ''FAILING-WORD'' 0 [0, 0]) plainInterpreter
     = Err (OtherError ''Test error'') plainInterpreter
   \<and> Execute failingNatives sampleHandlers (ModuleWord ''STOPPING-WORD'' 1 [2]) plainInterpreter
     = Err (IntentionalStopError ''Intentional stop'') plainInterpreter
   \<and> executeWords failingNatives sampleHandlers
        (DefinitionWord ''D'' [ModuleWord ''FAILING-WORD'' 0 [], PushValueWord ''1'' (VInt 1)] [0, 2, 3])
        [ModuleWord ''FAILING-WORD'' 0 [], PushValueWord ''1'' (VInt 1)] plainInterpreter
     = Ok (plainInterpreter\<lparr>stack := [VString ''handled'', VInt 1]\<rparr>)
   \<and> executeWords failingNatives sampleHandlers
        (DefinitionWord ''D'' [ModuleWord ''FAILING-WORD'' 0 [], PushValueWord ''1'' (VInt 1)] [0, 0])
        [ModuleWord ''FAILING-WORD'' 0 [], PushValueWord ''1'' (VInt 1)] plainInterpreter
     = Err (OtherError ''Test error'') plainInterpreter
   \<and> executeWords failingNatives sampleHandlers
        (DefinitionWord ''D'' [ModuleWord ''STOPPING-WORD'' 1 [], PushValueWord ''1'' (VInt 1)] [2])
        [ModuleWord ''STOPPING-WORD'' 1 [], PushValueWord ''1'' (VInt 1)] plainInterpreter
     = Err (IntentionalStopError ''Intentional stop'') plainInterpreter"
proof -
  let ?i = plainInterpreter
  let ?e = "OtherError ''Test error''"
  let ?s = "IntentionalStopError ''Intentional stop''"
  let ?d = "\<lambda>w hs. DefinitionWord ''D'' [w, PushValueWord ''1'' (VInt 1)] hs"
  let ?f = "ModuleWord ''FAILING-WORD'' 0 []"
  let ?g = "ModuleWord ''STOPPING-WORD'' 1 []"
  have n0: "failingNatives 0 ?i = Err ?e ?i" and n1: "failingNatives 1 ?i = Err ?s ?i"
    by (simp_all add: failingNatives_def)
  have x0: "Execute failingNatives sampleHandlers ?f ?i = Err ?e ?i"
    and x1: "Execute failingNatives sampleHandlers ?g ?i = Err ?s ?i"
    by (simp_all add: failingNatives_def TryErrorHandlers_def)
  have st: "\<not> isIntentionalStop ?e" "isIntentionalStop ?s" by simp_all
  have f1: "failedThrough sampleHandlers [0] ?e w ?i = Some ?i"
    and f2: "failedThrough sampleHandlers [0, 0] ?e w ?i = Some ?i" for w
    by (simp_all add: sampleHandlers_def)
  have ok: "sampleHandlers 2 ?e w ?i = Ok (StackPush (VString ''handled'') ?i)" for w
    by (simp add: sampleHandlers_def)
  have sp: "StackPush (VString ''handled'') ?i = ?i\<lparr>stack := [VString ''handled'']\<rparr>"
    by (simp add: StackPush_def plainInterpreter_def NewInterpreter_def)
  have rest: "executeWords failingNatives sampleHandlers (?d ?f [0, 2, 3])
                [PushValueWord ''1'' (VInt 1)] (?i\<lparr>stack := [VString ''handled'']\<rparr>)
              = Ok (?i\<lparr>stack := [VString ''handled'', VInt 1]\<rparr>)"
    by (simp add: StackPush_def)
  note C = C6_error_handlers [where N = failingNatives and H = sampleHandlers and i = ?i
             and ?i1.0 = ?i and j = ?i]
  show ?thesis
    using C [where handler = 0 and n = "''FAILING-WORD''" and ehs = "[0, 2, 3]" and err = ?e
               and pre = "[0]" and h = 2 and post = "[3]"
               and j' = "?i\<lparr>stack := [VString ''handled'']\<rparr>"
               and wd = ?f and dn = "''D''" and body = "[?f, PushValueWord ''1'' (VInt 1)]"
               and rest = "[PushValueWord ''1'' (VInt 1)]"]
          C [where handler = 0 and n = "''FAILING-WORD''" and ehs = "[0, 0]" and err = ?e
               and wd = ?f and dn = "''D''" and body = "[?f, PushValueWord ''1'' (VInt 1)]"
               and rest = "[PushValueWord ''1'' (VInt 1)]"]
          C [where handler = 1 and n = "''STOPPING-WORD''" and ehs = "[2]" and err = ?s
               and wd = ?g and dn = "''D''" and body = "[?g, PushValueWord ''1'' (VInt 1)]"
               and rest = "[PushValueWord ''1'' (VInt 1)]"]
          n0 n1 x0 x1 st f1 f2 ok sp rest
    by simp
qed

section \<open>Compile mode\<close>

text \<open>
  C9 as stated fails for the array tokens: while the definition \<^verbatim>\<open>W\<close> is being compiled,
  the \<^verbatim>\<open>START_ARRAY\<close> token only appends its push word to the body. The stack stays empty,
  whereas appending and executing the word, as the module tokens do, would have pushed
  the sentinel.
\<close>

theorem C9_arrays_immediate_counterexample:
  "handleToken noNatives noHandlers startArrayToken compilingInterpreter
     = Ok (compilingInterpreter
            \<lparr>curDefinition :=
               Some (''W'', [PushValueWord ''<start_array_token>'' (VToken startArrayToken)])\<rparr>)
   \<and> stack (compilingInterpreter
            \<lparr>curDefinition :=
               Some (''W'', [PushValueWord ''<start_array_token>'' (VToken startArrayToken)])\<rparr>)
       = []
   \<and> handleImmediate noNatives noHandlers
        (PushValueWord ''<start_array_token>'' (VToken startArrayToken)) compilingInterpreter
     = Ok (compilingInterpreter
            \<lparr>curDefinition :=
               Some (''W'', [PushValueWord ''<start_array_token>'' (VToken startArrayToken)]),
             stack := [VToken startArrayToken]\<rparr>)"
  by (simp add: handleToken_def handleStartArrayToken_def handleWord_def handleImmediate_def
        appendToDefinition_def compilingInterpreter_def plainInterpreter_def NewInterpreter_def
        startArrayToken_def NewToken_def StackPush_def)

lemma compiling_append:
  "isCompiling i \<Longrightarrow> curDefinition i = Some (nm, ws) \<Longrightarrow>
   handleWord N H w loc i = Ok (i\<lparr>curDefinition := Some (nm, ws @ [w])\<rparr>)"
  by (simp add: handleWord_def appendToDefinition_def)

lemma compiling_immediate:
  "isCompiling i \<Longrightarrow> curDefinition i = Some (nm, ws) \<Longrightarrow>
   handleImmediate N H w i = Execute N H w (i\<lparr>curDefinition := Some (nm, ws @ [w])\<rparr>)"
  by (simp add: handleImmediate_def appendToDefinition_def)

text \<open>
  C9, amended. While a definition is being compiled, the \<^verbatim>\<open>START_MODULE\<close> and
  \<^verbatim>\<open>END_MODULE\<close> tokens are immediate: their word is appended to the body and executed on
  the state that holds the extended body. The \<^verbatim>\<open>START_ARRAY\<close> and \<^verbatim>\<open>END_ARRAY\<close> tokens, like
  the string, dot-symbol and resolved word tokens, only append their word: nothing is
  executed.
\<close>

theorem C9_compile_mode_routing:
  assumes "isCompiling i" and "curDefinition i = Some (nm, ws)"
  shows
   "(tokType tok = TOKEN_START_MODULE \<longrightarrow>
       handleToken N H tok i =
         Execute N H (StartModuleWord (tokString tok))
           (i\<lparr>curDefinition := Some (nm, ws @ [StartModuleWord (tokString tok)])\<rparr>))
  \<and> (tokType tok = TOKEN_END_MODULE \<longrightarrow>
       handleToken N H tok i =
         Execute N H EndModuleWord (i\<lparr>curDefinition := Some (nm, ws @ [EndModuleWord])\<rparr>))
  \<and> (tokType tok = TOKEN_START_ARRAY \<longrightarrow>
       handleToken N H tok i =
         Ok (i\<lparr>curDefinition :=
               Some (nm, ws @ [PushValueWord ''<start_array_token>'' (VToken tok)])\<rparr>))
  \<and> (tokType tok = TOKEN_END_ARRAY \<longrightarrow>
       handleToken N H tok i = Ok (i\<lparr>curDefinition := Some (nm, ws @ [EndArrayWord])\<rparr>))
  \<and> (tokType tok = TOKEN_STRING \<longrightarrow>
       handleToken N H tok i =
         Ok (i\<lparr>curDefinition :=
               Some (nm, ws @ [PushValueWord ''<string>'' (VString (tokString tok))])\<rparr>))
  \<and> (tokType tok = TOKEN_DOT_SYMBOL \<longrightarrow>
       handleToken N H tok i =
         Ok (i\<lparr>curDefinition :=
               Some (nm, ws @ [PushValueWord ''<dot-symbol>'' (VString (tokString tok))])\<rparr>))
  \<and> (tokType tok = TOKEN_WORD \<and> FindWord i (tokString tok) = Inr w \<longrightarrow>
       handleToken N H tok i = Ok (i\<lparr>curDefinition := Some (nm, ws @ [w])\<rparr>))"
  using assms
  by (simp add: handleToken_def handleStartModuleToken_def handleEndModuleToken_def
        handleStartArrayToken_def handleEndArrayToken_def handleStringToken_def
        handleDotSymbolToken_def handleWordToken_def compiling_append compiling_immediate)

theorem C9_compile_mode_routing_witness:
  "handleToken noNatives noHandlers startModuleToken compilingInterpreter
     = Execute noNatives noHandlers (StartModuleWord ''m'')
         (compilingInterpreter\<lparr>curDefinition := Some (''W'', [StartModuleWord ''m''])\<rparr>)
   \<and> moduleStack (compilingInterpreter\<lparr>curDefinition := Some (''W'', [StartModuleWord ''m''])\<rparr>)
       = [0]
   \<and> (case Execute noNatives noHandlers (StartModuleWord ''m'')
         (compilingInterpreter\<lparr>curDefinition := Some (''W'', [StartModuleWord ''m''])\<rparr>) of
        Ok i' \<Rightarrow> moduleStack i' = [0, 1] | Err e i' \<Rightarrow> False | Panic e \<Rightarrow> False)
   \<and> handleToken noNatives noHandlers endArrayToken compilingInterpreter
     = Ok (compilingInterpreter\<lparr>curDefinition := Some (''W'', [EndArrayWord])\<rparr>)"
proof -
  have c: "isCompiling compilingInterpreter" "curDefinition compilingInterpreter = Some (''W'', [])"
    by (simp_all add: compilingInterpreter_def)
  have t: "tokType startModuleToken = TOKEN_START_MODULE" "tokString startModuleToken = ''m''"
      "tokType endArrayToken = TOKEN_END_ARRAY"
    by (simp_all add: startModuleToken_def endArrayToken_def NewToken_def)
  have x: "case Execute noNatives noHandlers (StartModuleWord ''m'')
         (compilingInterpreter\<lparr>curDefinition := Some (''W'', [StartModuleWord ''m''])\<rparr>) of
        Ok i' \<Rightarrow> moduleStack i' = [0, 1] | Err e i' \<Rightarrow> False | Panic e \<Rightarrow> False"
    by (simp add: StartModuleWord_Execute_def CurModule_def compilingInterpreter_def
          plainInterpreter_def NewInterpreter_def NewModule_def updateModule_def
          Module_RegisterModule_def emptyModule_def Let_def ModuleStackPush_def
          RegisterModule_def)
  have ms: "moduleStack (compilingInterpreter\<lparr>curDefinition := Some (''W'', [StartModuleWord ''m''])\<rparr>) = [0]"
    by (simp add: compilingInterpreter_def plainInterpreter_def NewInterpreter_def)
  have a: "handleToken noNatives noHandlers startModuleToken compilingInterpreter
     = Execute noNatives noHandlers (StartModuleWord ''m'')
         (compilingInterpreter\<lparr>curDefinition := Some (''W'', [StartModuleWord ''m''])\<rparr>)"
    using C9_compile_mode_routing [OF c, of startModuleToken noNatives noHandlers] t
    by (simp del: Execute.simps)
  have b: "handleToken noNatives noHandlers endArrayToken compilingInterpreter
     = Ok (compilingInterpreter\<lparr>curDefinition := Some (''W'', [EndArrayWord])\<rparr>)"
    using C9_compile_mode_routing [OF c, of endArrayToken noNatives noHandlers] t
    by simp
  show ?thesis
    using a b x ms by blast
qed

section \<open>Stack underflow\<close>





section \<open>Missing terminator\<close>







section \<open>Triple-quoted strings\<close>

lemma stepForward_fields [simp]:
  "inputString (stepForward t) = inputString t"
  "inputPos (stepForward t) = inputPos t + 1"
  "tokenString (stepForward t) = tokenString t"
  by (simp_all add: stepForward_def)

lemma advance_one: "advancePosition 1 t = Some (stepForward t)"
  by (simp add: advancePosition_def)

lemma advance_three: "advancePosition 3 t = Some (stepForward (stepForward (stepForward t)))"
  by (simp add: advancePosition_def numeral_3_eq_3)

lemma written_fields [simp]:
  "inputString (setDeltaEnd (WriteRune c t)) = inputString t"
  "inputPos (setDeltaEnd (WriteRune c t)) = inputPos t"
  "tokenString (setDeltaEnd (WriteRune c t)) = writeRune c (tokenString t)"
  by (simp_all add: setDeltaEnd_def WriteRune_def)

lemma take_drop_step:
  assumes "pos < length s" and "pos + 4 \<le> p'"
  shows "take (p' - 3 - pos) (drop pos s)
           = s ! pos # take (p' - 3 - (pos + 1)) (drop (pos + 1) s)"
proof -
  have "p' - 3 - pos = Suc (p' - 3 - (pos + 1))" using assms by simp
  moreover have "drop pos s = s ! pos # drop (pos + 1) s"
    using assms by (simp add: Cons_nth_drop_Suc)
  ultimately show ?thesis by simp
qed

lemma tql_end:
  "\<not> inputPos t < length (inputString t) \<Longrightarrow>
   tripleQuoteLoop d t =
     (if streaming t then TNil t else TErr (tokenStartError ''Unterminated string'' t) t)"
  by (subst tripleQuoteLoop.simps) simp

lemma tql_greedy:
  "inputPos t < length (inputString t) \<Longrightarrow> inputString t ! inputPos t = d \<Longrightarrow>
   isTripleQuote t (inputPos t) d \<Longrightarrow>
   inputPos t + 3 < length (inputString t) \<Longrightarrow> inputString t ! (inputPos t + 3) = d \<Longrightarrow>
   tripleQuoteLoop d t = tripleQuoteLoop d (setDeltaEnd (WriteRune d (stepForward t)))"
  by (subst tripleQuoteLoop.simps) (simp add: advance_one Let_def)

lemma tql_close:
  "inputPos t < length (inputString t) \<Longrightarrow> inputString t ! inputPos t = d \<Longrightarrow>
   isTripleQuote t (inputPos t) d \<Longrightarrow>
   \<not> (inputPos t + 3 < length (inputString t) \<and> inputString t ! (inputPos t + 3) = d) \<Longrightarrow>
   tripleQuoteLoop d t =
     TToken (NewToken TOKEN_STRING (tokenString t)
               (getTokenLocation (stepForward (stepForward (stepForward t)))))
       (stepForward (stepForward (stepForward t))\<lparr>stringDelta := None\<rparr>)"
  by (subst tripleQuoteLoop.simps) (auto simp: advance_three Let_def)

lemma tql_other:
  "inputPos t < length (inputString t) \<Longrightarrow>
   \<not> (inputString t ! inputPos t = d \<and> isTripleQuote t (inputPos t) (inputString t ! inputPos t)) \<Longrightarrow>
   tripleQuoteLoop d t =
     tripleQuoteLoop d (setDeltaEnd (WriteRune (inputString t ! inputPos t) (stepForward t)))"
  by (subst tripleQuoteLoop.simps) (auto simp: advance_one Let_def)

lemma tripleQuoteLoop_close:
  "tripleQuoteLoop d t = TToken tok t' \<Longrightarrow> isQuote d \<Longrightarrow>
   inputString t' = inputString t
   \<and> inputPos t + 3 \<le> inputPos t' \<and> inputPos t' \<le> length (inputString t)
   \<and> inputString t ! (inputPos t' - 3) = d
   \<and> inputString t ! (inputPos t' - 2) = d
   \<and> inputString t ! (inputPos t' - 1) = d
   \<and> (inputPos t' < length (inputString t) \<longrightarrow> inputString t ! inputPos t' \<noteq> d)
   \<and> tokType tok = TOKEN_STRING
   \<and> tokString tok =
       foldl (\<lambda>b c. writeRune c b) (tokenString t)
         (take (inputPos t' - 3 - inputPos t) (drop (inputPos t) (inputString t)))
   \<and> (\<forall>q. inputPos t \<le> q \<and> q + 3 < inputPos t'
          \<and> inputString t ! q = d \<and> inputString t ! (q + 1) = d
          \<and> inputString t ! (q + 2) = d
        \<longrightarrow> inputString t ! (q + 3) = d)"
proof (induction d t rule: tripleQuoteLoop.induct)
  case (1 d t)
  let ?s = "inputString t" and ?p = "inputPos t"
  have lt: "?p < length ?s"
    using "1.prems"(1) by (cases "?p < length ?s") (auto simp: tql_end split: if_splits)
  note quote = "1.prems"(2)
  show ?case
  proof (cases "?s ! ?p = d \<and> isTripleQuote t ?p (?s ! ?p)")
    case True
    note delim = True
    then have three: "?s ! ?p = d" "?p + 2 < length ?s" "?s ! (?p + 1) = d" "?s ! (?p + 2) = d"
      by (auto simp: isTripleQuote_def split: if_splits)
    show ?thesis
    proof (cases "?p + 3 < length ?s \<and> ?s ! (?p + 3) = d")
      case True
      let ?t3 = "setDeltaEnd (WriteRune d (stepForward t))"
      have "tripleQuoteLoop d t = tripleQuoteLoop d ?t3"
        by (rule tql_greedy) (use lt delim True in auto)
      then have rec: "tripleQuoteLoop d ?t3 = TToken tok t'"
        using "1.prems"(1) by simp
      have IH: "inputString t' = ?s
         \<and> ?p + 1 + 3 \<le> inputPos t' \<and> inputPos t' \<le> length ?s
         \<and> ?s ! (inputPos t' - 3) = d \<and> ?s ! (inputPos t' - 2) = d
         \<and> ?s ! (inputPos t' - 1) = d
         \<and> (inputPos t' < length ?s \<longrightarrow> ?s ! inputPos t' \<noteq> d)
         \<and> tokType tok = TOKEN_STRING
         \<and> tokString tok =
             foldl (\<lambda>b c. writeRune c b) (writeRune d (tokenString t))
               (take (inputPos t' - 3 - (?p + 1)) (drop (?p + 1) ?s))
         \<and> (\<forall>q. ?p + 1 \<le> q \<and> q + 3 < inputPos t'
                \<and> ?s ! q = d \<and> ?s ! (q + 1) = d \<and> ?s ! (q + 2) = d
              \<longrightarrow> ?s ! (q + 3) = d)"
        using "1.IH"(1) [OF lt refl delim True advance_one rec quote] by simp
      have ge: "?p + 4 \<le> inputPos t'" using IH by simp
      have td: "take (inputPos t' - 3 - ?p) (drop ?p ?s)
                 = d # take (inputPos t' - 3 - (?p + 1)) (drop (?p + 1) ?s)"
        using take_drop_step [OF lt ge] three by simp
      have minimal: "?s ! (q + 3) = d"
        if "?p \<le> q" "q + 3 < inputPos t'" "?s ! q = d" "?s ! (q + 1) = d" "?s ! (q + 2) = d"
        for q
      proof (cases "q = ?p")
        case True
        then show ?thesis using \<open>?p + 3 < length ?s \<and> ?s ! (?p + 3) = d\<close> by simp
      next
        case False
        then have "?p + 1 \<le> q" using that by simp
        then show ?thesis using IH that by blast
      qed
      have mins: "\<forall>q. ?p \<le> q \<and> q + 3 < inputPos t'
                \<and> ?s ! q = d \<and> ?s ! (q + 1) = d \<and> ?s ! (q + 2) = d
              \<longrightarrow> ?s ! (q + 3) = d"
        using minimal by blast
      show ?thesis
        unfolding td using IH mins by simp
    next
      case False
      let ?t1 = "stepForward (stepForward (stepForward t))"
      have "tripleQuoteLoop d t =
              TToken (NewToken TOKEN_STRING (tokenString t) (getTokenLocation ?t1))
                (?t1\<lparr>stringDelta := None\<rparr>)"
        by (rule tql_close) (use lt delim False in auto)
      then have res: "TToken (NewToken TOKEN_STRING (tokenString t) (getTokenLocation ?t1))
                   (?t1\<lparr>stringDelta := None\<rparr>) = TToken tok t'"
        using "1.prems"(1) by simp
      then have t': "t' = ?t1\<lparr>stringDelta := None\<rparr>"
        and tok: "tok = NewToken TOKEN_STRING (tokenString t) (getTokenLocation ?t1)"
        by simp_all
      have p': "inputPos t' = ?p + 3" "inputString t' = ?s" by (simp_all add: t')
      show ?thesis
        using three False by (auto simp: p' tok NewToken_def)
    qed
  next
    case False
    let ?t3 = "setDeltaEnd (WriteRune (?s ! ?p) (stepForward t))"
    have "tripleQuoteLoop d t = tripleQuoteLoop d ?t3"
      by (rule tql_other) (use lt False in auto)
    then have rec: "tripleQuoteLoop d ?t3 = TToken tok t'"
      using "1.prems"(1) by simp
    have IH: "inputString t' = ?s
         \<and> ?p + 1 + 3 \<le> inputPos t' \<and> inputPos t' \<le> length ?s
         \<and> ?s ! (inputPos t' - 3) = d \<and> ?s ! (inputPos t' - 2) = d
         \<and> ?s ! (inputPos t' - 1) = d
         \<and> (inputPos t' < length ?s \<longrightarrow> ?s ! inputPos t' \<noteq> d)
         \<and> tokType tok = TOKEN_STRING
         \<and> tokString tok =
             foldl (\<lambda>b c. writeRune c b) (writeRune (?s ! ?p) (tokenString t))
               (take (inputPos t' - 3 - (?p + 1)) (drop (?p + 1) ?s))
         \<and> (\<forall>q. ?p + 1 \<le> q \<and> q + 3 < inputPos t'
                \<and> ?s ! q = d \<and> ?s ! (q + 1) = d \<and> ?s ! (q + 2) = d
              \<longrightarrow> ?s ! (q + 3) = d)"
      using "1.IH"(2) [OF lt refl False advance_one rec quote] by simp
    have ge: "?p + 4 \<le> inputPos t'" using IH by simp
    have td: "take (inputPos t' - 3 - ?p) (drop ?p ?s)
                 = ?s ! ?p # take (inputPos t' - 3 - (?p + 1)) (drop (?p + 1) ?s)"
      by (rule take_drop_step [OF lt ge])
    have minimal: "?s ! (q + 3) = d"
      if "?p \<le> q" "q + 3 < inputPos t'" "?s ! q = d" "?s ! (q + 1) = d" "?s ! (q + 2) = d"
      for q
    proof (cases "q = ?p")
      case True
      then have "isTripleQuote t ?p (?s ! ?p)"
        using that IH quote by (simp add: isTripleQuote_def)
      then show ?thesis using False that True by simp
    next
      case False
      then have "?p + 1 \<le> q" using that by simp
      then show ?thesis using IH that by blast
    qed
    have mins: "\<forall>q. ?p \<le> q \<and> q + 3 < inputPos t'
                \<and> ?s ! q = d \<and> ?s ! (q + 1) = d \<and> ?s ! (q + 2) = d
              \<longrightarrow> ?s ! (q + 3) = d"
      using minimal by blast
    show ?thesis
      unfolding td using IH mins by simp
  qed
qed

lemma NextToken_four_quotes:
  "NextToken (NewTokenizer fourQuoteInput None False) =
     TToken \<lparr>tokType = TOKEN_STRING, tokString = [CHR ''a'', CHR 0x22],
              tokLocation = \<lparr>Source = [], File = [], Line = 1, Column = 4,
                              StartPos = 3, EndPos = 5\<rparr>\<rparr>
       \<lparr>referenceLocation = defaultReference, line = 1, column = 9,
        inputString = fourQuoteInput, inputPos = 8, tokenStartPos = 3, tokenEndPos = 0,
        tokenLine = 1, tokenColumn = 4, tokenString = [CHR ''a'', CHR 0x22],
        stringDelta = None, streaming = False\<rparr>"
  by (simp add: fourQuoteInput_def tok_defs tok_simps)

lemma NextToken_six_quotes:
  "NextToken (NewTokenizer sixQuoteInput None False) =
     TToken \<lparr>tokType = TOKEN_STRING, tokString = [CHR ''a'', CHR 0x22, CHR 0x22, CHR 0x22],
              tokLocation = \<lparr>Source = [], File = [], Line = 1, Column = 4,
                              StartPos = 3, EndPos = 7\<rparr>\<rparr>
       \<lparr>referenceLocation = defaultReference, line = 1, column = 11,
        inputString = sixQuoteInput, inputPos = 10, tokenStartPos = 3, tokenEndPos = 0,
        tokenLine = 1, tokenColumn = 4,
        tokenString = [CHR ''a'', CHR 0x22, CHR 0x22, CHR 0x22],
        stringDelta = None, streaming = False\<rparr>"
  by (simp add: sixQuoteInput_def tok_defs tok_simps)

text \<open>
  C8 as stated fails: the input of three quotes, \<^verbatim>\<open>a\<close> and four quotes lexes to one
  \<^verbatim>\<open>STRING\<close> token whose content is the two characters \<^verbatim>\<open>a\<close> and one quote, not the
  four characters \<^verbatim>\<open>a\<close> and three quotes.
\<close>

theorem C8_four_quotes_counterexample:
  "NextToken (NewTokenizer fourQuoteInput None False) =
     TToken \<lparr>tokType = TOKEN_STRING, tokString = [CHR ''a'', CHR 0x22],
              tokLocation = \<lparr>Source = [], File = [], Line = 1, Column = 4,
                              StartPos = 3, EndPos = 5\<rparr>\<rparr>
       \<lparr>referenceLocation = defaultReference, line = 1, column = 9,
        inputString = fourQuoteInput, inputPos = 8, tokenStartPos = 3, tokenEndPos = 0,
        tokenLine = 1, tokenColumn = 4, tokenString = [CHR ''a'', CHR 0x22],
        stringDelta = None, streaming = False\<rparr>
   \<and> [CHR ''a'', CHR 0x22] \<noteq> [CHR ''a'', CHR 0x22, CHR 0x22, CHR 0x22]
   \<and> length [CHR ''a'', CHR 0x22] = 2"
  by (simp add: NextToken_four_quotes)

lemma triple_quote_state_close:
  assumes "isQuote d" and "transitionFromGATHER_TRIPLE_QUOTE_STRING d t = TToken tok t'"
  shows "inputString t' = inputString t
        \<and> inputPos t + 3 \<le> inputPos t' \<and> inputPos t' \<le> length (inputString t)
        \<and> inputString t ! (inputPos t' - 3) = d
        \<and> inputString t ! (inputPos t' - 2) = d
        \<and> inputString t ! (inputPos t' - 1) = d
        \<and> (inputPos t' < length (inputString t) \<longrightarrow> inputString t ! inputPos t' \<noteq> d)
        \<and> tokType tok = TOKEN_STRING
        \<and> tokString tok =
            foldl (\<lambda>b c. writeRune c b) (tokenString t)
              (take (inputPos t' - 3 - inputPos t) (drop (inputPos t) (inputString t)))
        \<and> (\<forall>q. inputPos t \<le> q \<and> q + 3 < inputPos t'
               \<and> inputString t ! q = d \<and> inputString t ! (q + 1) = d
               \<and> inputString t ! (q + 2) = d
             \<longrightarrow> inputString t ! (q + 3) = d)"
proof -
  have "tripleQuoteLoop d (startDelta (noteStartToken t)) = TToken tok t'"
    using assms(2) by (simp add: transitionFromGATHER_TRIPLE_QUOTE_STRING_def)
  from tripleQuoteLoop_close [OF this assms(1)] show ?thesis
    by (simp add: startDelta_def noteStartToken_def)
qed

text \<open>
  C8, amended. Three quotes, \<^verbatim>\<open>a\<close> and four quotes lex to the \<^verbatim>\<open>STRING\<close> token with the
  two-character content \<^verbatim>\<open>a\<close>, quote (it takes six closing quotes to end the content with
  three). In general, for a quote character \<open>d\<close>: where the scan stands on four
  delimiters in a row, the first is content and the scan goes on one character later;
  and when the triple-quote state returns a token, the tokenizer stands right after three
  delimiters that no delimiter follows, the content is what lies between the opener and
  that run, and no earlier run of three delimiters within the content was followed by
  anything but a delimiter.
\<close>

theorem C8_greedy_triple_quote:
  "(\<exists>tok t'. NextToken (NewTokenizer fourQuoteInput None False) = TToken tok t'
        \<and> tokType tok = TOKEN_STRING \<and> tokString tok = [CHR ''a'', CHR 0x22])
   \<and> (\<exists>tok t'. NextToken (NewTokenizer sixQuoteInput None False) = TToken tok t'
        \<and> tokType tok = TOKEN_STRING
        \<and> tokString tok = [CHR ''a'', CHR 0x22, CHR 0x22, CHR 0x22])
   \<and> (inputPos t + 3 < length (inputString t)
        \<and> inputString t ! inputPos t = d \<and> isTripleQuote t (inputPos t) d
        \<and> inputString t ! (inputPos t + 3) = d \<longrightarrow>
        tripleQuoteLoop d t = tripleQuoteLoop d (setDeltaEnd (WriteRune d (stepForward t))))
   \<and> (isQuote d \<and> transitionFromGATHER_TRIPLE_QUOTE_STRING d t = TToken tok t' \<longrightarrow>
        inputString t' = inputString t
        \<and> inputPos t + 3 \<le> inputPos t' \<and> inputPos t' \<le> length (inputString t)
        \<and> inputString t ! (inputPos t' - 3) = d
        \<and> inputString t ! (inputPos t' - 2) = d
        \<and> inputString t ! (inputPos t' - 1) = d
        \<and> (inputPos t' < length (inputString t) \<longrightarrow> inputString t ! inputPos t' \<noteq> d)
        \<and> tokType tok = TOKEN_STRING
        \<and> tokString tok =
            foldl (\<lambda>b c. writeRune c b) (tokenString t)
              (take (inputPos t' - 3 - inputPos t) (drop (inputPos t) (inputString t)))
        \<and> (\<forall>q. inputPos t \<le> q \<and> q + 3 < inputPos t'
               \<and> inputString t ! q = d \<and> inputString t ! (q + 1) = d
               \<and> inputString t ! (q + 2) = d
             \<longrightarrow> inputString t ! (q + 3) = d))"
proof -
  have A: "\<exists>tok t'. NextToken (NewTokenizer fourQuoteInput None False) = TToken tok t'
        \<and> tokType tok = TOKEN_STRING \<and> tokString tok = [CHR ''a'', CHR 0x22]"
    by (simp add: NextToken_four_quotes)
  have B: "\<exists>tok t'. NextToken (NewTokenizer sixQuoteInput None False) = TToken tok t'
        \<and> tokType tok = TOKEN_STRING
        \<and> tokString tok = [CHR ''a'', CHR 0x22, CHR 0x22, CHR 0x22]"
    by (simp add: NextToken_six_quotes)
  have C: "inputPos t + 3 < length (inputString t)
        \<and> inputString t ! inputPos t = d \<and> isTripleQuote t (inputPos t) d
        \<and> inputString t ! (inputPos t + 3) = d \<longrightarrow>
        tripleQuoteLoop d t = tripleQuoteLoop d (setDeltaEnd (WriteRune d (stepForward t)))"
    by (intro impI tql_greedy) auto
  have D: "isQuote d \<and> transitionFromGATHER_TRIPLE_QUOTE_STRING d t = TToken tok t' \<longrightarrow>
        inputString t' = inputString t
        \<and> inputPos t + 3 \<le> inputPos t' \<and> inputPos t' \<le> length (inputString t)
        \<and> inputString t ! (inputPos t' - 3) = d
        \<and> inputString t ! (inputPos t' - 2) = d
        \<and> inputString t ! (inputPos t' - 1) = d
        \<and> (inputPos t' < length (inputString t) \<longrightarrow> inputString t ! inputPos t' \<noteq> d)
        \<and> tokType tok = TOKEN_STRING
        \<and> tokString tok =
            foldl (\<lambda>b c. writeRune c b) (tokenString t)
              (take (inputPos t' - 3 - inputPos t) (drop (inputPos t) (inputString t)))
        \<and> (\<forall>q. inputPos t \<le> q \<and> q + 3 < inputPos t'
               \<and> inputString t ! q = d \<and> inputString t ! (q + 1) = d
               \<and> inputString t ! (q + 2) = d
             \<longrightarrow> inputString t ! (q + 3) = d)"
    by (intro impI, elim conjE, rule triple_quote_state_close)
  show ?thesis
    by (rule conjI [OF A conjI [OF B conjI [OF C D]]])
qed

theorem C8_greedy_triple_quote_witness:
  "tripleQuoteLoop (CHR 0x22) afterOpener
     = tripleQuoteLoop (CHR 0x22)
         (setDeltaEnd (WriteRune (CHR 0x22) (stepForward afterOpener)))
   \<and> inputPos afterOpener = 4 \<and> inputPos closedTokenizer = 8
   \<and> transitionFromGATHER_TRIPLE_QUOTE_STRING (CHR 0x22) afterOpener
       = TToken (NewToken TOKEN_STRING [CHR 0x22]
                   \<lparr>Source = [], File = [], Line = 1, Column = 5, StartPos = 4, EndPos = 5\<rparr>)
           closedTokenizer
   \<and> inputString afterOpener ! 5 = CHR 0x22
   \<and> inputString afterOpener ! 6 = CHR 0x22
   \<and> inputString afterOpener ! 7 = CHR 0x22
   \<and> take (8 - 3 - 4) (drop 4 (inputString afterOpener)) = [CHR 0x22]"
proof -
  let ?q = "CHR 0x22"
  have f: "inputPos afterOpener = 4" "inputString afterOpener = fourQuoteInput"
      "length fourQuoteInput = 8" "fourQuoteInput ! 4 = ?q" "fourQuoteInput ! 7 = ?q"
      "isTripleQuote afterOpener 4 ?q" "isQuote ?q" "inputPos closedTokenizer = 8"
    by (simp_all add: afterOpener_def closedTokenizer_def fourQuoteInput_def isTripleQuote_def
          isQuote_def quoteChars_def)
  have x: "transitionFromGATHER_TRIPLE_QUOTE_STRING ?q afterOpener
       = TToken (NewToken TOKEN_STRING [?q]
                   \<lparr>Source = [], File = [], Line = 1, Column = 5, StartPos = 4, EndPos = 5\<rparr>)
           closedTokenizer"
    by (simp add: afterOpener_def closedTokenizer_def fourQuoteInput_def tok_defs tok_simps)
  show ?thesis
    using C8_greedy_triple_quote [of afterOpener ?q
            "NewToken TOKEN_STRING [?q]
               \<lparr>Source = [], File = [], Line = 1, Column = 5, StartPos = 4, EndPos = 5\<rparr>"
            closedTokenizer]
          f x
    by (simp add: fourQuoteInput_def)
qed

section \<open>Memoized words\<close>

lemma arith_state:
  "arithmeticInterpreter =
     plainInterpreter
       \<lparr>registeredMods := [''math'' \<mapsto> 1],
        moduleHeap := (moduleHeap plainInterpreter)
          (1 := (emptyModule ''math'' [])\<lparr>words := [ModuleWord ''+'' 0 []], exportable := [''+'']\<rparr>,
           2 := (emptyModule ''math'' [])\<lparr>words := [ModuleWord ''+'' 0 []], exportable := [''+'']\<rparr>,
           0 := (emptyModule [] [])\<lparr>words := [ModuleWord ''+'' 0 []],
                  modules := [''math'' \<mapsto> 2],
                  modulePrefixes := (\<lambda>k. {})(''math'' := {[]})\<rparr>),
        nextModule := 3\<rparr>"
  by (simp add: arithmeticInterpreter_def plainInterpreter_def NewInterpreter_def NewModule_def
        updateModule_def AddModuleWord_def AddExportableWord_def Interpreter_ImportModule_def
        RegisterModule_def ImportModule_def Dup_def Let_def emptyModule_def ExportableWords_def
        importedWord_def AddWord_def Module_RegisterModule_def eval_nat_numeral)

lemma memo_run:
  "\<exists>i'. Run arithmeticNatives noHandlers ''@: X 2 3 + ; X X X!'' arithmeticInterpreter = Some (Ok i')
        \<and> stack i' = [VInt 5, VInt 5]"
  by (simp add: arith_state Run_def runWithTokenizer.simps tok_defs tok_simps interp_defs
        literal_defs plainInterpreter_def NewInterpreter_def emptyModule_def
        arithmeticNatives_def intPlus_def plainExternals_def)

lemma memo_first:
  assumes "\<not> hasValue (memoHeap i c)" and "Execute N H w i = Ok i1" and "stack i1 = rest @ [v]"
  shows "Execute N H (ModuleMemoWord c w) i
           = Ok (i1\<lparr>stack := rest @ [v],
                    memoHeap := (memoHeap i1)(c := \<lparr>hasValue = True, memoValue = v\<rparr>)\<rparr>)"
  using assms by (simp add: storeMemo_def StackPop_def pushMemo_def StackPush_def)

lemma memo_cached:
  "hasValue (memoHeap i c) \<Longrightarrow>
   Execute N H (ModuleMemoWord c w) i = Ok (i\<lparr>stack := stack i @ [memoValue (memoHeap i c)]\<rparr>)"
  by (simp add: pushMemo_def StackPush_def)

lemma memo_bang:
  assumes "Execute N H w i = Ok i1" and "stack i1 = rest @ [v]"
  shows "Execute N H (ModuleMemoBangWord c w) i
           = Ok (i1\<lparr>stack := rest,
                    memoHeap := (memoHeap i1)(c := \<lparr>hasValue = True, memoValue = v\<rparr>)\<rparr>)"
  using assms by (simp add: storeMemo_def StackPop_def)

lemma memo_install:
  assumes "isCompiling i" and "isMemoDefinition i" and "curDefinition i = Some (nm, ws)"
    and "moduleStack i \<noteq> []" and "tokType tok = TOKEN_END_DEF"
  shows "\<exists>i'. handleToken N H tok i = Ok i'
      \<and> words (moduleHeap i' (last (moduleStack i))) =
          words (moduleHeap i (last (moduleStack i)))
            @ [ModuleMemoWord (nextMemo i) (DefinitionWord nm ws []),
               ModuleMemoBangWord (nextMemo i) (DefinitionWord nm ws []),
               ModuleMemoBangAtWord (nextMemo i) (DefinitionWord nm ws [])]
      \<and> \<not> hasValue (memoHeap i' (nextMemo i)) \<and> \<not> isCompiling i'"
  using assms
  by (simp add: handleToken_def handleEndDefinitionToken_def CurModule_def AddMemoWords_def
        updateModule_def Let_def)

text \<open>
  C2. The \<^verbatim>\<open>;\<close> that ends \<^verbatim>\<open>@: NAME body\<close> appends three words to the current module, named
  \<^verbatim>\<open>NAME\<close>, \<^verbatim>\<open>NAME!\<close> and \<^verbatim>\<open>NAME!@\<close>, around a fresh cell without a value. While the cell has
  no value, executing \<^verbatim>\<open>NAME\<close> runs the body, stores the top of the stack in the cell and
  leaves it on the stack; once the cell has a value, \<^verbatim>\<open>NAME\<close> only pushes that value,
  whatever the body is; \<^verbatim>\<open>NAME!\<close> runs the body and moves the top of the stack into the
  cell, so it pushes nothing. With an integer \<^verbatim>\<open>+\<close>, running \<^verbatim>\<open>@: X 2 3 + ; X X X!\<close> on an
  empty stack leaves the stack 5, 5.
\<close>

theorem C2_memo_words:
  "(isCompiling i \<and> isMemoDefinition i \<and> curDefinition i = Some (nm, ws)
      \<and> moduleStack i \<noteq> [] \<and> tokType tok = TOKEN_END_DEF \<longrightarrow>
      (\<exists>i'. handleToken N H tok i = Ok i'
         \<and> words (moduleHeap i' (last (moduleStack i))) =
             words (moduleHeap i (last (moduleStack i)))
               @ [ModuleMemoWord (nextMemo i) (DefinitionWord nm ws []),
                  ModuleMemoBangWord (nextMemo i) (DefinitionWord nm ws []),
                  ModuleMemoBangAtWord (nextMemo i) (DefinitionWord nm ws [])]
         \<and> \<not> hasValue (memoHeap i' (nextMemo i)) \<and> \<not> isCompiling i'))
   \<and> GetName (ModuleMemoWord c w) = GetName w
   \<and> GetName (ModuleMemoBangWord c w) = GetName w @ ''!''
   \<and> GetName (ModuleMemoBangAtWord c w) = GetName w @ ''!@''
   \<and> (\<not> hasValue (memoHeap i c) \<and> Execute N H w i = Ok i1 \<and> stack i1 = rest @ [v] \<longrightarrow>
        Execute N H (ModuleMemoWord c w) i
          = Ok (i1\<lparr>stack := rest @ [v],
                   memoHeap := (memoHeap i1)(c := \<lparr>hasValue = True, memoValue = v\<rparr>)\<rparr>))
   \<and> (hasValue (memoHeap i c) \<longrightarrow>
        Execute N H (ModuleMemoWord c w) i
          = Ok (i\<lparr>stack := stack i @ [memoValue (memoHeap i c)]\<rparr>))
   \<and> (Execute N H w i = Ok i1 \<and> stack i1 = rest @ [v] \<longrightarrow>
        Execute N H (ModuleMemoBangWord c w) i
          = Ok (i1\<lparr>stack := rest,
                   memoHeap := (memoHeap i1)(c := \<lparr>hasValue = True, memoValue = v\<rparr>)\<rparr>))
   \<and> (\<exists>i'. Run arithmeticNatives noHandlers ''@: X 2 3 + ; X X X!'' arithmeticInterpreter
              = Some (Ok i')
         \<and> stack i' = [VInt 5, VInt 5])"
proof -
  have c1: "isCompiling i \<and> isMemoDefinition i \<and> curDefinition i = Some (nm, ws)
      \<and> moduleStack i \<noteq> [] \<and> tokType tok = TOKEN_END_DEF \<longrightarrow>
      (\<exists>i'. handleToken N H tok i = Ok i'
         \<and> words (moduleHeap i' (last (moduleStack i))) =
             words (moduleHeap i (last (moduleStack i)))
               @ [ModuleMemoWord (nextMemo i) (DefinitionWord nm ws []),
                  ModuleMemoBangWord (nextMemo i) (DefinitionWord nm ws []),
                  ModuleMemoBangAtWord (nextMemo i) (DefinitionWord nm ws [])]
         \<and> \<not> hasValue (memoHeap i' (nextMemo i)) \<and> \<not> isCompiling i')"
    using memo_install by blast
  have c2: "GetName (ModuleMemoWord c w) = GetName w
   \<and> GetName (ModuleMemoBangWord c w) = GetName w @ ''!''
   \<and> GetName (ModuleMemoBangAtWord c w) = GetName w @ ''!@''"
    by simp
  have c3: "\<not> hasValue (memoHeap i c) \<and> Execute N H w i = Ok i1 \<and> stack i1 = rest @ [v] \<longrightarrow>
        Execute N H (ModuleMemoWord c w) i
          = Ok (i1\<lparr>stack := rest @ [v],
                   memoHeap := (memoHeap i1)(c := \<lparr>hasValue = True, memoValue = v\<rparr>)\<rparr>)"
    using memo_first by blast
  have c4: "hasValue (memoHeap i c) \<longrightarrow>
        Execute N H (ModuleMemoWord c w) i
          = Ok (i\<lparr>stack := stack i @ [memoValue (memoHeap i c)]\<rparr>)"
    using memo_cached by blast
  have c5: "Execute N H w i = Ok i1 \<and> stack i1 = rest @ [v] \<longrightarrow>
        Execute N H (ModuleMemoBangWord c w) i
          = Ok (i1\<lparr>stack := rest,
                   memoHeap := (memoHeap i1)(c := \<lparr>hasValue = True, memoValue = v\<rparr>)\<rparr>)"
    using memo_bang by blast
  show ?thesis
    using c1 c2 c3 c4 c5 memo_run by blast
qed

theorem C2_memo_words_witness:
  "(\<exists>i'. handleToken noNatives noHandlers endDefToken compilingMemo = Ok i'
        \<and> words (moduleHeap i' 0)
            = [ModuleMemoWord 0 memoBody, ModuleMemoBangWord 0 memoBody,
               ModuleMemoBangAtWord 0 memoBody])
   \<and> Execute noNatives noHandlers (ModuleMemoWord 0 memoBody) plainInterpreter
       = Ok (plainInterpreter\<lparr>stack := [VInt 2],
               memoHeap := (memoHeap plainInterpreter)(0 := \<lparr>hasValue = True, memoValue = VInt 2\<rparr>)\<rparr>)
   \<and> Execute noNatives noHandlers (ModuleMemoWord 0 memoBody)
        (plainInterpreter\<lparr>stack := [VInt 2],
               memoHeap := (memoHeap plainInterpreter)(0 := \<lparr>hasValue = True, memoValue = VInt 2\<rparr>)\<rparr>)
       = Ok (plainInterpreter\<lparr>stack := [VInt 2, VInt 2],
               memoHeap := (memoHeap plainInterpreter)(0 := \<lparr>hasValue = True, memoValue = VInt 2\<rparr>)\<rparr>)
   \<and> Execute noNatives noHandlers (ModuleMemoBangWord 0 memoBody)
        (plainInterpreter\<lparr>stack := [VInt 9]\<rparr>)
       = Ok (plainInterpreter\<lparr>stack := [VInt 9],
               memoHeap := (memoHeap plainInterpreter)(0 := \<lparr>hasValue = True, memoValue = VInt 2\<rparr>)\<rparr>)"
proof -
  let ?c = "plainInterpreter\<lparr>stack := [VInt 2],
               memoHeap := (memoHeap plainInterpreter)(0 := \<lparr>hasValue = True, memoValue = VInt 2\<rparr>)\<rparr>"
  have m: "isCompiling compilingMemo" "isMemoDefinition compilingMemo"
      "curDefinition compilingMemo = Some (''X'', [PushValueWord ''2'' (VInt 2)])"
      "moduleStack compilingMemo = [0]" "nextMemo compilingMemo = 0"
      "words (moduleHeap compilingMemo 0) = []" "tokType endDefToken = TOKEN_END_DEF"
    by (simp_all add: compilingMemo_def plainInterpreter_def NewInterpreter_def emptyModule_def
          endDefToken_def NewToken_def)
  have p: "\<not> hasValue (memoHeap plainInterpreter 0)" "stack plainInterpreter = []"
    by (simp_all add: plainInterpreter_def NewInterpreter_def)
  have x: "Execute noNatives noHandlers memoBody plainInterpreter
             = Ok (plainInterpreter\<lparr>stack := [VInt 2]\<rparr>)"
      "Execute noNatives noHandlers memoBody (plainInterpreter\<lparr>stack := [VInt 9]\<rparr>)
             = Ok (plainInterpreter\<lparr>stack := [VInt 9, VInt 2]\<rparr>)"
    by (simp_all add: memoBody_def StackPush_def p)
  have h: "hasValue (memoHeap ?c 0)" "memoValue (memoHeap ?c 0) = VInt 2" by simp_all
  note T = C2_memo_words [where N = noNatives and H = noHandlers]
  have a: "\<exists>i'. handleToken noNatives noHandlers endDefToken compilingMemo = Ok i'
        \<and> words (moduleHeap i' 0)
            = [ModuleMemoWord 0 memoBody, ModuleMemoBangWord 0 memoBody,
               ModuleMemoBangAtWord 0 memoBody]"
    using T [where i = compilingMemo and nm = "''X''"
            and ws = "[PushValueWord ''2'' (VInt 2)]" and tok = endDefToken, THEN conjunct1] m
    by (auto simp: memoBody_def)
  have b: "Execute noNatives noHandlers (ModuleMemoWord 0 memoBody) plainInterpreter = Ok ?c"
    using T [where i = plainInterpreter and c = 0 and w = memoBody
            and ?i1.0 = "plainInterpreter\<lparr>stack := [VInt 2]\<rparr>" and rest = "[]" and v = "VInt 2",
            THEN conjunct2, THEN conjunct2, THEN conjunct2, THEN conjunct2, THEN conjunct1]
          p x
    by (simp del: Execute.simps)
  have c: "Execute noNatives noHandlers (ModuleMemoWord 0 memoBody) ?c
       = Ok (plainInterpreter\<lparr>stack := [VInt 2, VInt 2],
               memoHeap := (memoHeap plainInterpreter)(0 := \<lparr>hasValue = True, memoValue = VInt 2\<rparr>)\<rparr>)"
    using T [where i = ?c and c = 0 and w = memoBody,
            THEN conjunct2, THEN conjunct2, THEN conjunct2, THEN conjunct2, THEN conjunct2,
            THEN conjunct1]
          h
    by (simp del: Execute.simps)
  have d: "Execute noNatives noHandlers (ModuleMemoBangWord 0 memoBody)
        (plainInterpreter\<lparr>stack := [VInt 9]\<rparr>)
       = Ok (plainInterpreter\<lparr>stack := [VInt 9],
               memoHeap := (memoHeap plainInterpreter)(0 := \<lparr>hasValue = True, memoValue = VInt 2\<rparr>)\<rparr>)"
    using T [where i = "plainInterpreter\<lparr>stack := [VInt 9]\<rparr>" and c = 0
            and w = memoBody
            and ?i1.0 = "plainInterpreter\<lparr>stack := [VInt 9, VInt 2]\<rparr>"
            and rest = "[VInt 9]" and v = "VInt 2",
            THEN conjunct2, THEN conjunct2, THEN conjunct2, THEN conjunct2, THEN conjunct2,
            THEN conjunct2, THEN conjunct1]
          x
    by (simp del: Execute.simps)
  show ?thesis
    using a b c d by blast
qed


section \<open>Name resolution\<close>

lemma findDown_newest:
  "k < n \<Longrightarrow> GetName (ws ! k) = nm \<Longrightarrow> \<forall>j. k < j \<and> j < n \<longrightarrow> GetName (ws ! j) \<noteq> nm \<Longrightarrow>
   findDown ws nm n = Some (ws ! k)"
proof (induction n)
  case 0
  then show ?case by simp
next
  case (Suc n)
  show ?case
  proof (cases "k = n")
    case True
    then show ?thesis using Suc.prems by simp
  next
    case False
    then have "k < n" using Suc.prems by simp
    moreover have "GetName (ws ! n) \<noteq> nm" using Suc.prems \<open>k < n\<close> by simp
    ultimately show ?thesis using Suc by simp
  qed
qed

lemma findDown_none:
  "\<forall>j<n. GetName (ws ! j) \<noteq> nm \<Longrightarrow> findDown ws nm n = None"
  by (induction n) simp_all

lemma findInStack_top:
  "k < n \<Longrightarrow> Module_FindWord (moduleHeap i (moduleStack i ! k)) nm = Some w \<Longrightarrow>
   \<forall>j. k < j \<and> j < n \<longrightarrow> Module_FindWord (moduleHeap i (moduleStack i ! j)) nm = None \<Longrightarrow>
   findInStack i nm n = Some w"
proof (induction n)
  case 0
  then show ?case by simp
next
  case (Suc n)
  show ?case
  proof (cases "k = n")
    case True
    then show ?thesis using Suc.prems by simp
  next
    case False
    then have "k < n" using Suc.prems by simp
    moreover have "Module_FindWord (moduleHeap i (moduleStack i ! n)) nm = None"
      using Suc.prems \<open>k < n\<close> by simp
    ultimately show ?thesis using Suc by simp
  qed
qed

lemma findInStack_none:
  "\<forall>j<n. Module_FindWord (moduleHeap i (moduleStack i ! j)) nm = None \<Longrightarrow>
   findInStack i nm n = None"
  by (induction n) simp_all

lemma literalLoop_first:
  "\<forall>g\<in>set pre. g nm = None \<Longrightarrow> h nm = Some v \<Longrightarrow>
   literalLoop (pre @ h # post) nm = Some (PushValueWord nm v)"
  by (induction pre) simp_all

lemma literalLoop_none:
  "\<forall>g\<in>set hs. g nm = None \<Longrightarrow> literalLoop hs nm = None"
  by (induction hs) simp_all

text \<open>
  C3. A module answers a name with the newest dictionary word of that name, and with a
  word that pushes the variable cell itself only when no dictionary word has the name.
  The interpreter asks the modules of the module stack from the top down and takes the
  first answer; when no module answers, the literal handlers are tried in order and the
  first value wraps into a push word; when they all fail the unknown-word error is
  returned.
\<close>

theorem C3_name_resolution:
  "(k < length (words m) \<and> GetName (words m ! k) = nm
      \<and> (\<forall>j. k < j \<and> j < length (words m) \<longrightarrow> GetName (words m ! j) \<noteq> nm)
     \<longrightarrow> Module_FindWord m nm = Some (words m ! k))
   \<and> ((\<forall>w\<in>set (words m). GetName w \<noteq> nm)
     \<longrightarrow> Module_FindWord m nm =
           (case map_of (variables m) nm of
              Some a \<Rightarrow> Some (PushValueWord nm (VVariable a))
            | None \<Rightarrow> None))
   \<and> Execute N H (PushValueWord nm (VVariable a)) i = Ok (i\<lparr>stack := stack i @ [VVariable a]\<rparr>)
   \<and> (l < length (moduleStack i)
      \<and> Module_FindWord (moduleHeap i (moduleStack i ! l)) nm = Some w
      \<and> (\<forall>j. l < j \<and> j < length (moduleStack i)
             \<longrightarrow> Module_FindWord (moduleHeap i (moduleStack i ! j)) nm = None)
     \<longrightarrow> FindWord i nm = Inr w)
   \<and> ((\<forall>a\<in>set (moduleStack i). Module_FindWord (moduleHeap i a) nm = None)
      \<and> literalHandlers i = pre @ h # post \<and> (\<forall>g\<in>set pre. g nm = None) \<and> h nm = Some v
     \<longrightarrow> FindWord i nm = Inr (PushValueWord nm v))
   \<and> ((\<forall>a\<in>set (moduleStack i). Module_FindWord (moduleHeap i a) nm = None)
      \<and> (\<forall>g\<in>set (literalHandlers i). g nm = None)
     \<longrightarrow> FindWord i nm = Inl (UnknownWordError nm))"
proof -
  have A: "k < length (words m) \<and> GetName (words m ! k) = nm
      \<and> (\<forall>j. k < j \<and> j < length (words m) \<longrightarrow> GetName (words m ! j) \<noteq> nm)
     \<longrightarrow> Module_FindWord m nm = Some (words m ! k)"
    using findDown_newest [of k "length (words m)" "words m" nm]
    by (auto simp: Module_FindWord_def FindDictionaryWord_def)
  have B: "(\<forall>w\<in>set (words m). GetName w \<noteq> nm)
     \<longrightarrow> Module_FindWord m nm =
           (case map_of (variables m) nm of
              Some a \<Rightarrow> Some (PushValueWord nm (VVariable a))
            | None \<Rightarrow> None)"
    using findDown_none [of "length (words m)" "words m" nm]
    by (auto simp: Module_FindWord_def FindDictionaryWord_def FindVariable_def)
  have C: "Execute N H (PushValueWord nm (VVariable a)) i = Ok (i\<lparr>stack := stack i @ [VVariable a]\<rparr>)"
    by (simp add: StackPush_def)
  have D: "l < length (moduleStack i)
      \<and> Module_FindWord (moduleHeap i (moduleStack i ! l)) nm = Some w
      \<and> (\<forall>j. l < j \<and> j < length (moduleStack i)
             \<longrightarrow> Module_FindWord (moduleHeap i (moduleStack i ! j)) nm = None)
     \<longrightarrow> FindWord i nm = Inr w"
    using findInStack_top [of l "length (moduleStack i)" i nm w]
    by (auto simp: FindWord_def)
  have none: "findInStack i nm (length (moduleStack i)) = None"
    if "\<forall>a\<in>set (moduleStack i). Module_FindWord (moduleHeap i a) nm = None"
    using that by (intro findInStack_none) simp
  have E: "(\<forall>a\<in>set (moduleStack i). Module_FindWord (moduleHeap i a) nm = None)
      \<and> literalHandlers i = pre @ h # post \<and> (\<forall>g\<in>set pre. g nm = None) \<and> h nm = Some v
     \<longrightarrow> FindWord i nm = Inr (PushValueWord nm v)"
    using none literalLoop_first [of pre nm h v post]
    by (auto simp: FindWord_def findLiteralWord_def)
  have F: "(\<forall>a\<in>set (moduleStack i). Module_FindWord (moduleHeap i a) nm = None)
      \<and> (\<forall>g\<in>set (literalHandlers i). g nm = None)
     \<longrightarrow> FindWord i nm = Inl (UnknownWordError nm)"
    using none literalLoop_none [of "literalHandlers i" nm]
    by (auto simp: FindWord_def findLiteralWord_def)
  show ?thesis
    by (rule conjI [OF A conjI [OF B conjI [OF C conjI [OF D conjI [OF E F]]]]])
qed

theorem C3_name_resolution_witness:
  "Module_FindWord shadowModule ''X'' = Some (PushValueWord ''X'' (VInt 2))
   \<and> Module_FindWord shadowModule ''v'' = Some (PushValueWord ''v'' (VVariable 0))
   \<and> Execute noNatives noHandlers (PushValueWord ''v'' (VVariable 0)) plainInterpreter
       = Ok (plainInterpreter\<lparr>stack := [VVariable 0]\<rparr>)
   \<and> FindWord stackedInterpreter ''A'' = Inr (PushValueWord ''A'' (VInt 1))
   \<and> FindWord plainInterpreter ''TRUE'' = Inr (PushValueWord ''TRUE'' (VBool True))
   \<and> FindWord plainInterpreter ''nope'' = Inl (UnknownWordError ''nope'')"
proof -
  have w: "words shadowModule = [PushValueWord ''X'' (VInt 1), PushValueWord ''X'' (VInt 2)]"
      "variables shadowModule = [(''v'', 0)]"
    by (simp_all add: shadowModule_def emptyModule_def)
  have s: "moduleStack stackedInterpreter = [0, 1]"
      "moduleHeap stackedInterpreter 1 = libraryModule"
      "moduleStack plainInterpreter = [0]"
      "moduleHeap plainInterpreter 0 = emptyModule [] []"
      "stack plainInterpreter = []"
    by (simp_all add: stackedInterpreter_def libraryInterpreter_def plainInterpreter_def
          NewInterpreter_def)
  have l: "Module_FindWord libraryModule ''A'' = Some (PushValueWord ''A'' (VInt 1))"
    by (simp add: libraryModule_def emptyModule_def Module_FindWord_def FindDictionaryWord_def
          eval_nat_numeral)
  have e: "Module_FindWord (emptyModule [] []) nm = None" for nm
    by (simp add: emptyModule_def Module_FindWord_def FindDictionaryWord_def FindVariable_def)
  have h: "literalHandlers plainInterpreter
             = [] @ ToBool # [ToFloat plainExternals, ToZonedDateTime plainExternals,
                  ToLiteralDate plainExternals, ToTime plainExternals, ToInt]"
    by (simp add: plainInterpreter_def NewInterpreter_def standardLiterals_def)
  have n: "\<forall>g\<in>set (literalHandlers plainInterpreter). g ''nope'' = None"
    by (simp add: h literal_defs plainExternals_def)
  have t: "ToBool ''TRUE'' = Some (VBool True)" by (simp add: ToBool_def)
  show ?thesis
    using C3_name_resolution [where m = shadowModule and k = 1 and nm = "''X''"
            and N = noNatives and H = noHandlers and a = 0 and i = plainInterpreter]
          C3_name_resolution [where m = shadowModule and nm = "''v''"
            and N = noNatives and H = noHandlers and a = 0 and i = plainInterpreter]
          C3_name_resolution [where i = stackedInterpreter and l = 1 and nm = "''A''"
            and w = "PushValueWord ''A'' (VInt 1)"]
          C3_name_resolution [where i = plainInterpreter and nm = "''TRUE''" and pre = "[]"
            and h = ToBool and v = "VBool True"]
          C3_name_resolution [where i = plainInterpreter and nm = "''nope''"]
          w s l e h n t
    by (simp del: Execute.simps)
qed


section \<open>The module stack\<close>

lemma StartModule_app:
  "StartModuleWord_Execute [] i = Ok (i\<lparr>moduleStack := moduleStack i @ [appModule i]\<rparr>)"
  by (simp add: StartModuleWord_Execute_def ModuleStackPush_def)

lemma StartModule_existing:
  "moduleStack i \<noteq> [] \<Longrightarrow> nm \<noteq> [] \<Longrightarrow>
   modules (moduleHeap i (last (moduleStack i))) nm = Some m \<Longrightarrow>
   StartModuleWord_Execute nm i = Ok (i\<lparr>moduleStack := moduleStack i @ [m]\<rparr>)"
  by (simp add: StartModuleWord_Execute_def ModuleStackPush_def CurModule_def)

lemma StartModule_create:
  assumes inv: "moduleInvariant i" and nm: "nm \<noteq> []"
    and none: "modules (moduleHeap i (last (moduleStack i))) nm = None"
  shows "\<exists>i'. StartModuleWord_Execute nm i = Ok i'
           \<and> moduleStack i' = moduleStack i @ [nextModule i]
           \<and> name (moduleHeap i' (nextModule i)) = nm
           \<and> words (moduleHeap i' (nextModule i)) = []
           \<and> variables (moduleHeap i' (nextModule i)) = []
           \<and> modules (moduleHeap i' (last (moduleStack i))) nm = Some (nextModule i)
           \<and> registeredMods i' =
               (if last (moduleStack i) = appModule i
                then (registeredMods i)(nm \<mapsto> nextModule i) else registeredMods i)
           \<and> stack i' = stack i
           \<and> moduleInvariant i'"
proof -
  let ?cur = "last (moduleStack i)"
  have ne: "moduleStack i \<noteq> []" and app: "appModule i < nextModule i"
    and an: "name (moduleHeap i (appModule i)) = []"
    using inv by (simp_all add: moduleInvariant_def)
  have cur: "?cur \<in> set (moduleStack i)" using ne by simp
  have cn: "?cur \<noteq> appModule i \<Longrightarrow> name (moduleHeap i ?cur) \<noteq> []"
    using inv cur by (simp add: moduleInvariant_def)
  have st: "\<forall>a\<in>set (moduleStack i). a \<noteq> appModule i \<longrightarrow> name (moduleHeap i a) \<noteq> []"
    using inv by (simp add: moduleInvariant_def)
  have ch: "\<And>a k c. modules (moduleHeap i a) k = Some c \<Longrightarrow> k \<noteq> [] \<Longrightarrow> c \<noteq> appModule i
              \<Longrightarrow> name (moduleHeap i c) \<noteq> []"
    using inv by (simp add: moduleInvariant_def)
  have hdm: "hd (moduleStack i) = appModule i" using inv by (simp add: moduleInvariant_def)
  show ?thesis
  proof (cases "?cur = appModule i")
    case True
    then have neq: "?cur \<noteq> nextModule i" using app by simp
    show ?thesis
      using nm none ne True neq an app st hdm
      apply (simp add: StartModuleWord_Execute_def ModuleStackPush_def CurModule_def
          NewModule_def updateModule_def RegisterModule_def Let_def Module_RegisterModule_def
          emptyModule_def moduleInvariant_def)
      apply (intro conjI allI impI)
      apply (auto dest: ch)
      done
  next
    case False
    then have cnn: "name (moduleHeap i ?cur) \<noteq> []" by (rule cn)
    show ?thesis
      using nm none ne False cnn an app st hdm
      apply (simp add: StartModuleWord_Execute_def ModuleStackPush_def CurModule_def
          NewModule_def updateModule_def RegisterModule_def Let_def Module_RegisterModule_def
          emptyModule_def moduleInvariant_def)
      apply (intro conjI allI impI)
      apply (auto dest: ch)
      done
  qed
qed

lemma StartModule_existing_inv:
  assumes inv: "moduleInvariant i" and nm: "nm \<noteq> []"
    and some: "modules (moduleHeap i (last (moduleStack i))) nm = Some m"
  shows "moduleInvariant (i\<lparr>moduleStack := moduleStack i @ [m]\<rparr>)"
  using assms unfolding moduleInvariant_def by auto

lemma StartModule_app_inv:
  "moduleInvariant i \<Longrightarrow> moduleInvariant (i\<lparr>moduleStack := moduleStack i @ [appModule i]\<rparr>)"
  unfolding moduleInvariant_def by auto

lemma EndModule_inv:
  "moduleInvariant i \<Longrightarrow> 1 < length (moduleStack i) \<Longrightarrow>
   moduleInvariant (i\<lparr>moduleStack := butlast (moduleStack i)\<rparr>)"
  unfolding moduleInvariant_def
  by (cases "moduleStack i") (auto dest: in_set_butlastD)

lemma NewInterpreter_inv: "moduleInvariant (NewInterpreter ext)"
  by (simp add: moduleInvariant_def NewInterpreter_def emptyModule_def)

lemma moduleInvariant_cong:
  assumes "moduleInvariant i"
    and "moduleStack j = moduleStack i" and "appModule j = appModule i"
    and "nextModule j = nextModule i"
    and "\<forall>a. name (moduleHeap j a) = name (moduleHeap i a)
             \<and> modules (moduleHeap j a) = modules (moduleHeap i a)"
  shows "moduleInvariant j"
  using assms unfolding moduleInvariant_def by simp

lemma keeps_simps [simp]:
  "keepsInvariant (Ok i) = moduleInvariant i"
  "keepsInvariant (Err e i) = moduleInvariant i"
  "keepsInvariant (Panic e)"
  by (simp_all add: keepsInvariant_def)

lemma inv_stack [simp]: "moduleInvariant (i\<lparr>stack := s\<rparr>) = moduleInvariant i"
  by (simp add: moduleInvariant_def)

lemma inv_memoHeap [simp]: "moduleInvariant (i\<lparr>memoHeap := h\<rparr>) = moduleInvariant i"
  by (simp add: moduleInvariant_def)

lemma inv_nextMemo [simp]: "moduleInvariant (i\<lparr>nextMemo := h\<rparr>) = moduleInvariant i"
  by (simp add: moduleInvariant_def)

lemma inv_curDefinition [simp]: "moduleInvariant (i\<lparr>curDefinition := d\<rparr>) = moduleInvariant i"
  by (simp add: moduleInvariant_def)

lemma inv_isCompiling [simp]: "moduleInvariant (i\<lparr>isCompiling := d\<rparr>) = moduleInvariant i"
  by (simp add: moduleInvariant_def)

lemma inv_isMemoDefinition [simp]:
  "moduleInvariant (i\<lparr>isMemoDefinition := d\<rparr>) = moduleInvariant i"
  by (simp add: moduleInvariant_def)

lemma inv_previousToken [simp]: "moduleInvariant (i\<lparr>previousToken := d\<rparr>) = moduleInvariant i"
  by (simp add: moduleInvariant_def)

lemma inv_tokenizerStack [simp]: "moduleInvariant (i\<lparr>tokenizerStack := d\<rparr>) = moduleInvariant i"
  by (simp add: moduleInvariant_def)

lemma inv_add_words:
  "moduleInvariant i \<Longrightarrow>
   moduleInvariant (updateModule a (\<lambda>r. r\<lparr>words := f r\<rparr>) i)"
  by (erule moduleInvariant_cong) (simp_all add: updateModule_def)

lemma inv_AddWord:
  "moduleInvariant i \<Longrightarrow> moduleInvariant (updateModule a (AddWord w) i)"
  by (erule moduleInvariant_cong) (simp_all add: updateModule_def AddWord_def)

lemma inv_AddMemoWords:
  "moduleInvariant i \<Longrightarrow> moduleInvariant (AddMemoWords a w i)"
  by (erule moduleInvariant_cong) (simp_all add: AddMemoWords_def updateModule_def Let_def)

lemma endArrayLoop_keeps:
  "moduleInvariant i \<Longrightarrow>
   (case endArrayLoop items i of Ok (xs, i') \<Rightarrow> moduleInvariant i'
      | Err e i' \<Rightarrow> moduleInvariant i' | Panic e \<Rightarrow> True)"
proof (induction items i rule: endArrayLoop.induct)
  case (1 items i)
  show ?case
  proof (cases "stack i = []")
    case True
    then show ?thesis by (subst endArrayLoop.simps) (simp add: StackPop_def)
  next
    case False
    let ?i' = "i\<lparr>stack := butlast (stack i)\<rparr>"
    have pop: "StackPop i = Ok (last (stack i), ?i')" using False by (simp add: StackPop_def)
    show ?thesis
    proof (cases "isStartArrayToken (last (stack i))")
      case True
      then show ?thesis using "1.prems" by (subst endArrayLoop.simps) (simp add: pop)
    next
      case False
      have "moduleInvariant ?i'" using "1.prems" by simp
      from "1.IH" [OF pop refl False this] show ?thesis
        using False by (subst endArrayLoop.simps) (simp add: pop)
    qed
  qed
qed

lemma EndArray_keeps: "moduleInvariant i \<Longrightarrow> keepsInvariant (EndArrayWord_Execute i)"
  using endArrayLoop_keeps [of i "[]"]
  by (auto simp: EndArrayWord_Execute_def StackPush_def split: result.splits)

lemma storeMemo_keeps: "keepsInvariant r \<Longrightarrow> keepsInvariant (storeMemo c r)"
  by (auto simp: storeMemo_def StackPop_def split: result.splits if_splits)

lemma handlersLoop_keeps:
  "hostKeepsInvariant N H \<Longrightarrow> moduleInvariant i \<Longrightarrow> keepsInvariant (handlersLoop H hs err wd i)"
proof (induction hs arbitrary: i)
  case Nil
  then show ?case by simp
next
  case (Cons h hs)
  have "keepsInvariant (H h err wd i)"
    using Cons.prems by (simp add: hostKeepsInvariant_def)
  then show ?case using Cons by (auto split: result.splits)
qed

lemma TryErrorHandlers_keeps:
  "hostKeepsInvariant N H \<Longrightarrow> moduleInvariant i \<Longrightarrow>
   keepsInvariant (TryErrorHandlers H w err wd i)"
  by (simp add: TryErrorHandlers_def handlersLoop_keeps)

lemma StartModule_keeps: "moduleInvariant i \<Longrightarrow> keepsInvariant (StartModuleWord_Execute n i)"
proof -
  assume inv: "moduleInvariant i"
  then have ne: "moduleStack i \<noteq> []" by (simp add: moduleInvariant_def)
  show ?thesis
  proof (cases "n = []")
    case True
    then show ?thesis using StartModule_app_inv [OF inv] by (simp add: StartModule_app)
  next
    case False
    show ?thesis
    proof (cases "modules (moduleHeap i (last (moduleStack i))) n")
      case None
      then show ?thesis using StartModule_create [OF inv False None] by auto
    next
      case (Some m)
      then show ?thesis
        using StartModule_existing [OF ne False Some] StartModule_existing_inv [OF inv False Some]
        by simp
    qed
  qed
qed

lemma EndModule_keeps: "moduleInvariant i \<Longrightarrow> keepsInvariant (EndModuleWord_Execute i)"
  using EndModule_inv [of i]
  by (auto simp: EndModuleWord_Execute_def ModuleStackPop_def split: if_splits)

lemma Execute_keeps:
  "hostKeepsInvariant N H \<Longrightarrow> moduleInvariant i \<Longrightarrow> keepsInvariant (Execute N H w i)"
  "hostKeepsInvariant N H \<Longrightarrow> moduleInvariant i \<Longrightarrow>
     keepsInvariant (executeWords N H self ws i)"
proof (induction N H w i and N H self ws i rule: Execute_executeWords.induct)
  case (1 N H n v i)
  then show ?case by (simp add: StackPush_def)
next
  case (2 N H n handler ehs i)
  have k: "keepsInvariant (N handler i)" using 2 by (simp add: hostKeepsInvariant_def)
  show ?case
  proof (cases "N handler i")
    case (Ok i')
    then show ?thesis using k by simp
  next
    case (Err err i')
    then have inv': "moduleInvariant i'" using k by simp
    have t: "keepsInvariant (TryErrorHandlers H (ModuleWord n handler ehs) err
               (ModuleWord n handler ehs) i')"
      using TryErrorHandlers_keeps [OF "2.prems"(1) inv'] .
    then show ?thesis using Err by (auto split: result.splits)
  next
    case (Panic e)
    then show ?thesis by simp
  qed
next
  case (3 N H n ws ehs i)
  then show ?case by simp
next
  case (4 N H n targetWord i)
  then show ?case by simp
next
  case (5 N H n i)
  then show ?case by (simp add: StartModule_keeps)
next
  case (6 N H i)
  then show ?case by (simp add: EndModule_keeps)
next
  case (7 N H i)
  then show ?case by (simp add: EndArray_keeps)
next
  case (8 N H c w i)
  show ?case
  proof (cases "hasValue (memoHeap i c)")
    case True
    then show ?thesis using "8.prems" by (simp add: pushMemo_def StackPush_def)
  next
    case False
    then have "keepsInvariant (storeMemo c (Execute N H w i))"
      using 8 by (simp add: storeMemo_keeps)
    then show ?thesis
      using False by (auto simp: pushMemo_def StackPush_def split: result.splits)
  qed
next
  case (9 N H c w i)
  then show ?case by (simp add: storeMemo_keeps)
next
  case (10 N H c w i)
  have "keepsInvariant (storeMemo c (Execute N H w i))"
    using 10 by (simp add: storeMemo_keeps)
  then show ?case
    by (auto simp: pushMemo_def StackPush_def split: result.splits)
next
  case (11 N H self i)
  then show ?case by simp
next
  case (12 N H self wd rest i)
  have k: "keepsInvariant (Execute N H wd i)" using 12 by simp
  show ?case
  proof (cases "Execute N H wd i")
    case (Ok i')
    then show ?thesis using 12 k by simp
  next
    case (Err err i')
    then have inv': "moduleInvariant i'" using k by simp
    have t: "keepsInvariant (TryErrorHandlers H self err self i')"
      using TryErrorHandlers_keeps [OF "12.prems"(1) inv'] .
    show ?thesis
    proof (cases "TryErrorHandlers H self err self i'")
      case (Ok i'')
      then show ?thesis using 12 Err t by simp
    next
      case (Err e2 i'')
      then show ?thesis using \<open>Execute N H wd i = Err err i'\<close> t by simp
    next
      case (Panic e2)
      then show ?thesis using \<open>Execute N H wd i = Err err i'\<close> by simp
    qed
  next
    case (Panic e)
    then show ?thesis by simp
  qed
qed

lemma handleToken_keeps:
  assumes host: "hostKeepsInvariant N H" and inv: "moduleInvariant i"
  shows "keepsInvariant (handleToken N H tok i)"
proof -
  have hw: "keepsInvariant (handleWord N H w loc i)" for w loc
    using Execute_keeps(1) [OF host inv]
    by (auto simp: handleWord_def appendToDefinition_def inv split: option.splits)
  have hi: "keepsInvariant (handleImmediate N H w i)" for w
    using Execute_keeps(1) [OF host] inv
    by (auto simp: handleImmediate_def appendToDefinition_def split: option.splits)
  show ?thesis
  proof (cases "tokType tok")
    case TOKEN_END_DEF
    then show ?thesis
      using inv
      by (auto simp: handleToken_def handleEndDefinitionToken_def inv_AddWord inv_AddMemoWords
            Let_def split: option.splits)
  next
    case TOKEN_WORD
    then show ?thesis
      using hw inv by (auto simp: handleToken_def handleWordToken_def split: sum.splits)
  qed (use inv hw hi in \<open>auto simp: handleToken_def handleStringToken_def
         handleStartArrayToken_def handleEndArrayToken_def handleStartModuleToken_def
         handleEndModuleToken_def handleStartDefinitionToken_def handleStartMemoToken_def
         handleDotSymbolToken_def handleEOS_def missingSemicolon_def
         split: option.splits\<close>)
qed

lemma runWithTokenizer_keeps:
  assumes "runWithTokenizer N H k t i = Some r"
  shows "hostKeepsInvariant N H \<longrightarrow> moduleInvariant i \<longrightarrow> keepsInvariant r"
  using assms
proof (rule runWithTokenizer.raw_induct
         [rotated 1, where P = "\<lambda>N H k t i r. hostKeepsInvariant N H \<longrightarrow> moduleInvariant i
                                   \<longrightarrow> keepsInvariant r"])
  fix rwt N H k t i r
  assume IH: "\<And>N H k t i r. rwt N H k t i = Some r \<Longrightarrow>
                 hostKeepsInvariant N H \<longrightarrow> moduleInvariant i \<longrightarrow> keepsInvariant r"
    and body: "(case NextToken t of
      TToken token t' \<Rightarrow>
        (case handleToken N H token (syncTokenizer k t' i) of
        Ok i' \<Rightarrow>
          if tokType token = TOKEN_EOS then Some (Ok i')
          else rwt N H k t' (i'\<lparr>previousToken := Some token\<rparr>)
        | Err err i' \<Rightarrow> Some (Err err i') | Panic e \<Rightarrow> Some (Panic e))
      | TErr err t' \<Rightarrow> Some (Err err (syncTokenizer k t' i))
      | TNil t' \<Rightarrow> Some (Panic nilPanic)
      | TPanic \<Rightarrow> Some (Panic (RuntimePanic ''Invalid input position''))) = Some r"
  show "hostKeepsInvariant N H \<longrightarrow> moduleInvariant i \<longrightarrow> keepsInvariant r"
  proof (intro impI)
    assume host: "hostKeepsInvariant N H" and inv: "moduleInvariant i"
    have s: "moduleInvariant (syncTokenizer k t' i)" for t'
      using inv by (simp add: syncTokenizer_def)
    show "keepsInvariant r"
    proof (cases "NextToken t")
      case (TToken token t')
      note h = handleToken_keeps [OF host s, of token t']
      show ?thesis
      proof (cases "handleToken N H token (syncTokenizer k t' i)")
        case (Ok j)
        then have j: "moduleInvariant j" using h by simp
        show ?thesis
        proof (cases "tokType token = TOKEN_EOS")
          case True
          then have "r = Ok j" using body TToken Ok by simp
          then show ?thesis using j by simp
        next
          case False
          then have "rwt N H k t' (j\<lparr>previousToken := Some token\<rparr>) = Some r"
            using body TToken Ok by simp
          from IH [OF this] host j show ?thesis by simp
        qed
      next
        case (Err e j)
        then have "r = Err e j" using body TToken by simp
        then show ?thesis using h Err by simp
      next
        case (Panic e)
        then have "r = Panic e" using body TToken by simp
        then show ?thesis by simp
      qed
    next
      case (TErr e t')
      then have "r = Err e (syncTokenizer k t' i)" using body by simp
      then show ?thesis using s by simp
    next
      case (TNil t')
      then have "r = Panic nilPanic" using body by simp
      then show ?thesis by simp
    next
      case TPanic
      then have "r = Panic (RuntimePanic ''Invalid input position'')" using body by simp
      then show ?thesis by simp
    qed
  qed
qed

lemma Run_keeps:
  assumes "hostKeepsInvariant N H" and "moduleInvariant i" and "Run N H code i = Some r"
  shows "keepsInvariant r"
proof -
  let ?t = "NewTokenizer code None False"
  let ?i1 = "i\<lparr>tokenizerStack := tokenizerStack i @ [?t]\<rparr>"
  obtain r0 where r0: "runWithTokenizer N H (length (tokenizerStack i)) ?t ?i1 = Some r0"
    using assms(3) by (auto simp: Run_def Let_def split: option.splits)
  have "keepsInvariant r0"
    using runWithTokenizer_keeps [OF r0] assms(1,2) by simp
  then show ?thesis
    using assms(3) r0
    by (auto simp: Run_def Let_def popTokenizer_def split: result.splits)
qed

text \<open>
  C4. On an interpreter that satisfies the module invariant: \<^verbatim>\<open>{\<close> with the empty name
  pushes the app module; with another name it pushes the child of the current module
  registered under that name, or else creates an empty module of that name, registers it
  under the current module and pushes it, and the new module enters the interpreter's
  registry exactly when the current module is the app module. \<^verbatim>\<open>}\<close> pops the module stack
  and panics when only the app module is left. Both words keep the invariant, which a new
  interpreter satisfies, and so does every \<^verbatim>\<open>Run\<close> whose native words and error handlers
  keep it: the module stack is never empty and its bottom is the app module.
\<close>

theorem C4_module_stack:
  assumes inv: "moduleInvariant i"
  shows
   "Execute N H (StartModuleWord []) i = Ok (i\<lparr>moduleStack := moduleStack i @ [appModule i]\<rparr>)
    \<and> (nm \<noteq> [] \<and> modules (moduleHeap i (last (moduleStack i))) nm = Some c \<longrightarrow>
         Execute N H (StartModuleWord nm) i = Ok (i\<lparr>moduleStack := moduleStack i @ [c]\<rparr>))
    \<and> (nm \<noteq> [] \<and> modules (moduleHeap i (last (moduleStack i))) nm = None \<longrightarrow>
         (\<exists>i'. Execute N H (StartModuleWord nm) i = Ok i'
            \<and> moduleStack i' = moduleStack i @ [nextModule i]
            \<and> name (moduleHeap i' (nextModule i)) = nm
            \<and> words (moduleHeap i' (nextModule i)) = []
            \<and> variables (moduleHeap i' (nextModule i)) = []
            \<and> modules (moduleHeap i' (last (moduleStack i))) nm = Some (nextModule i)
            \<and> registeredMods i' =
                (if last (moduleStack i) = appModule i
                 then (registeredMods i)(nm \<mapsto> nextModule i) else registeredMods i)))
    \<and> (length (moduleStack i) \<le> 1 \<longrightarrow>
         Execute N H EndModuleWord i
           = Panic (ForthicError ''Cannot pop app module from module stack'' None))
    \<and> (1 < length (moduleStack i) \<longrightarrow>
         Execute N H EndModuleWord i = Ok (i\<lparr>moduleStack := butlast (moduleStack i)\<rparr>))
    \<and> (\<forall>n i'. Execute N H (StartModuleWord n) i = Ok i' \<longrightarrow> moduleInvariant i')
    \<and> (\<forall>i'. Execute N H EndModuleWord i = Ok i' \<longrightarrow> moduleInvariant i')
    \<and> moduleInvariant (NewInterpreter ext)
    \<and> (hostKeepsInvariant N H \<longrightarrow> (\<forall>code r. Run N H code i = Some r \<longrightarrow> keepsInvariant r))
    \<and> moduleStack i \<noteq> [] \<and> hd (moduleStack i) = appModule i"
proof -
  have ne: "moduleStack i \<noteq> []" and hdm: "hd (moduleStack i) = appModule i"
    using inv by (simp_all add: moduleInvariant_def)
  have c1: "Execute N H (StartModuleWord []) i
              = Ok (i\<lparr>moduleStack := moduleStack i @ [appModule i]\<rparr>)"
    by (simp add: StartModule_app)
  have c2: "nm \<noteq> [] \<and> modules (moduleHeap i (last (moduleStack i))) nm = Some c \<longrightarrow>
         Execute N H (StartModuleWord nm) i = Ok (i\<lparr>moduleStack := moduleStack i @ [c]\<rparr>)"
    using StartModule_existing [OF ne] by simp
  have c3: "nm \<noteq> [] \<and> modules (moduleHeap i (last (moduleStack i))) nm = None \<longrightarrow>
         (\<exists>i'. Execute N H (StartModuleWord nm) i = Ok i'
            \<and> moduleStack i' = moduleStack i @ [nextModule i]
            \<and> name (moduleHeap i' (nextModule i)) = nm
            \<and> words (moduleHeap i' (nextModule i)) = []
            \<and> variables (moduleHeap i' (nextModule i)) = []
            \<and> modules (moduleHeap i' (last (moduleStack i))) nm = Some (nextModule i)
            \<and> registeredMods i' =
                (if last (moduleStack i) = appModule i
                 then (registeredMods i)(nm \<mapsto> nextModule i) else registeredMods i))"
  proof (intro impI)
    assume a: "nm \<noteq> [] \<and> modules (moduleHeap i (last (moduleStack i))) nm = None"
    from StartModule_create [OF inv] a
    obtain i' where "StartModuleWord_Execute nm i = Ok i'
           \<and> moduleStack i' = moduleStack i @ [nextModule i]
           \<and> name (moduleHeap i' (nextModule i)) = nm
           \<and> words (moduleHeap i' (nextModule i)) = []
           \<and> variables (moduleHeap i' (nextModule i)) = []
           \<and> modules (moduleHeap i' (last (moduleStack i))) nm = Some (nextModule i)
           \<and> registeredMods i' =
               (if last (moduleStack i) = appModule i
                then (registeredMods i)(nm \<mapsto> nextModule i) else registeredMods i)
           \<and> stack i' = stack i
           \<and> moduleInvariant i'"
      by blast
    then show "\<exists>i'. Execute N H (StartModuleWord nm) i = Ok i'
            \<and> moduleStack i' = moduleStack i @ [nextModule i]
            \<and> name (moduleHeap i' (nextModule i)) = nm
            \<and> words (moduleHeap i' (nextModule i)) = []
            \<and> variables (moduleHeap i' (nextModule i)) = []
            \<and> modules (moduleHeap i' (last (moduleStack i))) nm = Some (nextModule i)
            \<and> registeredMods i' =
                (if last (moduleStack i) = appModule i
                 then (registeredMods i)(nm \<mapsto> nextModule i) else registeredMods i)"
      by (intro exI [of _ i']) simp
  qed
  have c4: "length (moduleStack i) \<le> 1 \<longrightarrow>
         Execute N H EndModuleWord i
           = Panic (ForthicError ''Cannot pop app module from module stack'' None)"
    by (simp add: EndModuleWord_Execute_def ModuleStackPop_def)
  have c5: "1 < length (moduleStack i) \<longrightarrow>
         Execute N H EndModuleWord i = Ok (i\<lparr>moduleStack := butlast (moduleStack i)\<rparr>)"
    by (simp add: EndModuleWord_Execute_def ModuleStackPop_def)
  have c6: "\<forall>n i'. Execute N H (StartModuleWord n) i = Ok i' \<longrightarrow> moduleInvariant i'"
  proof (intro allI impI)
    fix n i' assume x: "Execute N H (StartModuleWord n) i = Ok i'"
    show "moduleInvariant i'"
    proof (cases "n = []")
      case True
      then show ?thesis using x StartModule_app_inv [OF inv] by (simp add: StartModule_app)
    next
      case False
      show ?thesis
      proof (cases "modules (moduleHeap i (last (moduleStack i))) n")
        case None
        then show ?thesis using StartModule_create [OF inv False None] x by auto
      next
        case (Some m)
        then show ?thesis
          using StartModule_existing [OF ne False Some] StartModule_existing_inv [OF inv False Some] x
          by simp
      qed
    qed
  qed
  have c7: "\<forall>i'. Execute N H EndModuleWord i = Ok i' \<longrightarrow> moduleInvariant i'"
    using EndModule_inv [OF inv]
    by (auto simp: EndModuleWord_Execute_def ModuleStackPop_def split: if_splits)
  have c8: "hostKeepsInvariant N H \<longrightarrow>
              (\<forall>code r. Run N H code i = Some r \<longrightarrow> keepsInvariant r)"
    using Run_keeps [OF _ inv] by blast
  show ?thesis
    using c1 c2 c3 c4 c5 c6 c7 c8 NewInterpreter_inv ne hdm by blast
qed

theorem C4_module_stack_witness:
  "Execute noNatives noHandlers (StartModuleWord []) plainInterpreter
     = Ok (plainInterpreter\<lparr>moduleStack := [0, 0]\<rparr>)
   \<and> (\<exists>i'. Execute noNatives noHandlers (StartModuleWord ''m'') plainInterpreter = Ok i'
         \<and> moduleStack i' = [0, 1] \<and> name (moduleHeap i' 1) = ''m''
         \<and> modules (moduleHeap i' 0) ''m'' = Some 1
         \<and> registeredMods i' = [''m'' \<mapsto> 1])
   \<and> Execute noNatives noHandlers EndModuleWord plainInterpreter
       = Panic (ForthicError ''Cannot pop app module from module stack'' None)
   \<and> Execute noNatives noHandlers EndModuleWord (plainInterpreter\<lparr>moduleStack := [0, 0]\<rparr>)
       = Ok (plainInterpreter\<lparr>moduleStack := [0]\<rparr>)"
proof -
  have p: "moduleInvariant plainInterpreter"
    by (simp add: plainInterpreter_def NewInterpreter_inv)
  have f: "moduleStack plainInterpreter = [0]" "appModule plainInterpreter = 0"
      "nextModule plainInterpreter = 1" "registeredMods plainInterpreter = Map.empty"
      "modules (moduleHeap plainInterpreter 0) ''m'' = None"
    by (simp_all add: plainInterpreter_def NewInterpreter_def emptyModule_def)
  have q: "moduleInvariant (plainInterpreter\<lparr>moduleStack := [0, 0]\<rparr>)"
    using StartModule_app_inv [OF p] f by simp
  note A = C4_module_stack [OF p, where N = noNatives and H = noHandlers and nm = "''m''"]
  note B = C4_module_stack [OF q, where N = noNatives and H = noHandlers]
  have a: "Execute noNatives noHandlers (StartModuleWord []) plainInterpreter
     = Ok (plainInterpreter\<lparr>moduleStack := [0, 0]\<rparr>)"
    using A [THEN conjunct1] f by (simp del: Execute.simps)
  have b: "\<exists>i'. Execute noNatives noHandlers (StartModuleWord ''m'') plainInterpreter = Ok i'
         \<and> moduleStack i' = [0, 1] \<and> name (moduleHeap i' 1) = ''m''
         \<and> modules (moduleHeap i' 0) ''m'' = Some 1
         \<and> registeredMods i' = [''m'' \<mapsto> 1]"
    using A [THEN conjunct2, THEN conjunct2, THEN conjunct1] f
    by (auto simp del: Execute.simps)
  have c: "Execute noNatives noHandlers EndModuleWord plainInterpreter
       = Panic (ForthicError ''Cannot pop app module from module stack'' None)"
    using A [THEN conjunct2, THEN conjunct2, THEN conjunct2, THEN conjunct1] f
    by (simp del: Execute.simps)
  have d: "Execute noNatives noHandlers EndModuleWord (plainInterpreter\<lparr>moduleStack := [0, 0]\<rparr>)
       = Ok (plainInterpreter\<lparr>moduleStack := [0]\<rparr>)"
    using B [THEN conjunct2, THEN conjunct2, THEN conjunct2, THEN conjunct2, THEN conjunct1]
    by (simp del: Execute.simps)
  show ?thesis
    using a b c d by blast
qed


section \<open>Import\<close>

lemma findDown_SomeD:
  "findDown ws nm n = Some x \<Longrightarrow> n \<le> length ws \<Longrightarrow> x \<in> set ws \<and> GetName x = nm"
  by (induction n) (auto split: if_splits)

lemma Module_FindWord_no_variables:
  "variables m = [] \<Longrightarrow> Module_FindWord m nm = Some x \<Longrightarrow> x \<in> set (words m) \<and> GetName x = nm"
  using findDown_SomeD [of "words m" nm "length (words m)" x]
  by (auto simp: Module_FindWord_def FindDictionaryWord_def FindVariable_def split: option.splits)

lemma Module_FindWord_absent:
  "variables m = [] \<Longrightarrow> \<forall>x\<in>set (words m). GetName x \<noteq> nm \<Longrightarrow> Module_FindWord m nm = None"
  using Module_FindWord_no_variables [of m nm] by (cases "Module_FindWord m nm") auto

lemma dupVariables_spec:
  "dupVariables vs i = (vs', i') \<Longrightarrow> \<forall>p\<in>set vs. snd p < nextVariable i \<Longrightarrow>
   map fst vs' = map fst vs
   \<and> (\<forall>k<length vs. snd (vs' ! k) = nextVariable i + k)
   \<and> nextVariable i' = nextVariable i + length vs
   \<and> (\<forall>k<length vs. variableHeap i' (nextVariable i + k) = variableHeap i (snd (vs ! k)))
   \<and> (\<forall>a<nextVariable i. variableHeap i' a = variableHeap i a)
   \<and> moduleHeap i' = moduleHeap i \<and> nextModule i' = nextModule i"
proof (induction vs arbitrary: i vs' i')
  case Nil
  then show ?case by simp
next
  case (Cons p vs)
  obtain key v where p: "p = (key, v)" by (cases p)
  let ?i1 = "snd (Variable_Dup v i)"
  obtain rest' i2 where r: "dupVariables vs ?i1 = (rest', i2)" by (cases "dupVariables vs ?i1")
  have vd: "Variable_Dup v i = (nextVariable i, ?i1)" by (simp add: Variable_Dup_def)
  have res: "vs' = (key, nextVariable i) # rest'" "i' = i2"
    using Cons.prems(1) r vd by (simp_all add: p Let_def split: prod.splits)
  have n1: "nextVariable ?i1 = nextVariable i + 1" by (simp add: Variable_Dup_def)
  have pre: "\<forall>q\<in>set vs. snd q < nextVariable ?i1" using Cons.prems(2) n1 by auto
  note IH = Cons.IH [OF r pre]
  have vlt: "v < nextVariable i" using Cons.prems(2) p by simp
  have h1: "variableHeap ?i1 a = variableHeap i a" if "a < nextVariable i" for a
    using that by (simp add: Variable_Dup_def)
  have h2: "variableHeap ?i1 (nextVariable i) = variableHeap i v"
    by (simp add: Variable_Dup_def)
  have m1: "moduleHeap ?i1 = moduleHeap i" "nextModule ?i1 = nextModule i"
    by (simp_all add: Variable_Dup_def)
  have a: "map fst vs' = map fst (p # vs)" using IH res p by simp
  have b: "snd (vs' ! k) = nextVariable i + k" if "k < length (p # vs)" for k
    using IH res n1 that by (cases k) simp_all
  have c: "nextVariable i' = nextVariable i + length (p # vs)" using IH res n1 by simp
  have d: "variableHeap i' (nextVariable i + k) = variableHeap i (snd ((p # vs) ! k))"
    if "k < length (p # vs)" for k
  proof (cases k)
    case 0
    have "variableHeap i2 (nextVariable i) = variableHeap ?i1 (nextVariable i)"
      using IH n1 by simp
    then show ?thesis using 0 h2 res p by simp
  next
    case (Suc k')
    then have "k' < length vs" using that by simp
    then have "variableHeap i2 (nextVariable ?i1 + k') = variableHeap ?i1 (snd (vs ! k'))"
      using IH by simp
    moreover have "snd (vs ! k') < nextVariable i" using Cons.prems(2) \<open>k' < length vs\<close> by simp
    ultimately show ?thesis using Suc res n1 h1 by simp
  qed
  have e: "variableHeap i' a = variableHeap i a" if "a < nextVariable i" for a
    using IH that n1 h1 res by simp
  show ?case using a b c d e IH m1 res by simp
qed

lemma fold_AddWord:
  "moduleHeap (fold (\<lambda>w. updateModule m (AddWord (f w))) ws i) =
     (moduleHeap i)(m := (moduleHeap i m)\<lparr>words := words (moduleHeap i m) @ map f ws\<rparr>)"
  by (induction ws arbitrary: i) (auto simp: updateModule_def AddWord_def)

lemma fold_AddWord_variableHeap:
  "variableHeap (fold (\<lambda>w. updateModule m (AddWord (f w))) ws i) = variableHeap i"
  by (induction ws arbitrary: i) (auto simp: updateModule_def)

lemma Dup_spec:
  assumes fresh: "\<forall>p\<in>set (variables (moduleHeap i m)). snd p < nextVariable i"
  shows "\<exists>vs' i'. Dup m i = (nextModule i, i')
     \<and> moduleHeap i' = (moduleHeap i)(nextModule i :=
          (emptyModule (name (moduleHeap i m)) (forthicCode (moduleHeap i m)))
            \<lparr>words := words (moduleHeap i m), exportable := exportable (moduleHeap i m),
             variables := vs', modules := modules (moduleHeap i m)\<rparr>)
     \<and> map fst vs' = map fst (variables (moduleHeap i m))
     \<and> (\<forall>k<length (variables (moduleHeap i m)).
           snd (vs' ! k) = nextVariable i + k
           \<and> variableHeap i' (nextVariable i + k)
               = variableHeap i (snd (variables (moduleHeap i m) ! k)))
     \<and> (\<forall>a<nextVariable i. variableHeap i' a = variableHeap i a)
     \<and> nextModule i' = nextModule i + 1"
proof -
  let ?src = "moduleHeap i m"
  let ?i1 = "snd (NewModule (name ?src) (forthicCode ?src) i)"
  obtain vs' i2 where d: "dupVariables (variables ?src) ?i1 = (vs', i2)"
    by (cases "dupVariables (variables ?src) ?i1")
  have f1: "nextVariable ?i1 = nextVariable i" "variableHeap ?i1 = variableHeap i"
    "moduleHeap ?i1 = (moduleHeap i)(nextModule i := emptyModule (name ?src) (forthicCode ?src))"
    "nextModule ?i1 = nextModule i + 1"
    by (simp_all add: NewModule_def)
  have "\<forall>p\<in>set (variables ?src). snd p < nextVariable ?i1" using fresh f1 by simp
  note S = dupVariables_spec [OF d this]
  have D: "Dup m i = (nextModule i,
             updateModule (nextModule i)
               (\<lambda>r. r\<lparr>words := words ?src, exportable := exportable ?src,
                       variables := vs', modules := modules ?src\<rparr>) i2)"
    using d by (simp add: Dup_def Let_def NewModule_def)
  show ?thesis
    apply (rule exI [of _ vs'])
    apply (rule exI)
    apply (rule conjI [OF D])
    using S f1 by (simp add: updateModule_def)
qed

lemma ImportModule_spec:
  assumes fresh: "\<forall>p\<in>set (variables (moduleHeap i module)). snd p < nextVariable i"
    and m: "m < nextModule i" and md: "module < nextModule i"
  shows "\<exists>vs'. moduleHeap (ImportModule m prefix module i) (nextModule i) =
          (emptyModule (name (moduleHeap i module)) (forthicCode (moduleHeap i module)))
            \<lparr>words := words (moduleHeap i module), exportable := exportable (moduleHeap i module),
             variables := vs', modules := modules (moduleHeap i module)\<rparr>
     \<and> map fst vs' = map fst (variables (moduleHeap i module))
     \<and> (\<forall>k<length (variables (moduleHeap i module)).
           snd (vs' ! k) = nextVariable i + k
           \<and> variableHeap (ImportModule m prefix module i) (nextVariable i + k)
               = variableHeap i (snd (variables (moduleHeap i module) ! k)))
     \<and> (\<forall>a<nextVariable i. variableHeap (ImportModule m prefix module i) a = variableHeap i a)
     \<and> moduleHeap (ImportModule m prefix module i) m =
         Module_RegisterModule (name (moduleHeap i module)) prefix (nextModule i)
           ((moduleHeap i m)\<lparr>words := words (moduleHeap i m)
               @ map (importedWord prefix) (ExportableWords (moduleHeap i module))\<rparr>)"
proof -
  obtain vs' i' where D: "Dup module i = (nextModule i, i')"
    and H: "moduleHeap i' = (moduleHeap i)(nextModule i :=
          (emptyModule (name (moduleHeap i module)) (forthicCode (moduleHeap i module)))
            \<lparr>words := words (moduleHeap i module), exportable := exportable (moduleHeap i module),
             variables := vs', modules := modules (moduleHeap i module)\<rparr>)"
    and F: "map fst vs' = map fst (variables (moduleHeap i module))"
    and V: "\<forall>k<length (variables (moduleHeap i module)).
           snd (vs' ! k) = nextVariable i + k
           \<and> variableHeap i' (nextVariable i + k)
               = variableHeap i (snd (variables (moduleHeap i module) ! k))"
    and O: "\<forall>a<nextVariable i. variableHeap i' a = variableHeap i a"
    using Dup_spec [OF fresh] by blast
  have ew: "ExportableWords (moduleHeap i' (nextModule i)) = ExportableWords (moduleHeap i module)"
    by (simp add: H ExportableWords_def)
  have ne: "m \<noteq> nextModule i" "module \<noteq> nextModule i" using m md by simp_all
  let ?i2 = "fold (\<lambda>w. updateModule m (AddWord (importedWord prefix w)))
               (ExportableWords (moduleHeap i module)) i'"
  have I: "ImportModule m prefix module i =
             updateModule m (Module_RegisterModule (name (moduleHeap ?i2 module)) prefix
               (nextModule i)) ?i2"
    by (simp add: ImportModule_def D Let_def ew)
  have nm: "name (moduleHeap ?i2 module) = name (moduleHeap i module)"
    using ne by (simp add: fold_AddWord H)
  show ?thesis
    apply (rule exI [of _ vs'])
    using ne F V O
    by (simp add: I nm updateModule_def fold_AddWord fold_AddWord_variableHeap H)
qed


lemma importedWord_name_inj:
  "GetName (importedWord prefix e) = GetName (importedWord prefix w) \<Longrightarrow> GetName e = GetName w"
  by (auto simp: importedWord_def split: if_splits)

text \<open>
  C5. Importing \<open>module\<close> into the host \<open>m\<close> (both allocated, the module's variables being
  cells of the heap) first duplicates the module: the duplicate has the module's words,
  exportable names, name and child-module references, and for each variable a fresh cell
  with the same name and value, different from the original cell, which is left as it
  was. The host then gets, after the words it had, exactly the duplicate's words whose
  names are exportable, each as it is when the prefix is empty and otherwise wrapped in a
  delegating word named \<^verbatim>\<open>prefix.name\<close>, and the duplicate is registered under the module's
  name. So in a host that had no words and no variables, every word found is an exported
  one, and a word whose name is not exportable is not found under the name an import
  would give it.
\<close>

theorem C5_import_exports_only:
  fixes i :: Interpreter and m module :: nat and prefix :: string
  defines "src \<equiv> moduleHeap i module"
    and "i' \<equiv> ImportModule m prefix module i"
    and "new \<equiv> nextModule i"
  assumes fresh: "\<forall>p\<in>set (variables src). snd p < nextVariable i"
    and m: "m < nextModule i" and md: "module < nextModule i"
  shows
   "words (moduleHeap i' new) = words src \<and> exportable (moduleHeap i' new) = exportable src
    \<and> modules (moduleHeap i' new) = modules src \<and> name (moduleHeap i' new) = name src
    \<and> map fst (variables (moduleHeap i' new)) = map fst (variables src)
    \<and> (\<forall>k<length (variables src).
          snd (variables src ! k) < snd (variables (moduleHeap i' new) ! k)
          \<and> variableHeap i' (snd (variables (moduleHeap i' new) ! k))
              = variableHeap i (snd (variables src ! k))
          \<and> variableHeap i' (snd (variables src ! k)) = variableHeap i (snd (variables src ! k)))
    \<and> distinct (map snd (variables (moduleHeap i' new)))
    \<and> words (moduleHeap i' m) =
        words (moduleHeap i m)
          @ map (importedWord prefix) (filter (\<lambda>w. GetName w \<in> set (exportable src)) (words src))
    \<and> (\<forall>w. importedWord [] w = w)
    \<and> (prefix \<noteq> [] \<longrightarrow>
         (\<forall>w. importedWord prefix w = ExecuteWord (prefix @ ''.'' @ GetName w) w))
    \<and> modules (moduleHeap i' m) (name src) = Some new
    \<and> (words (moduleHeap i m) = [] \<and> variables (moduleHeap i m) = [] \<longrightarrow>
         (\<forall>nm x. Module_FindWord (moduleHeap i' m) nm = Some x \<longrightarrow>
            (\<exists>e\<in>set (words src). GetName e \<in> set (exportable src) \<and> x = importedWord prefix e))
         \<and> (\<forall>w\<in>set (words src). GetName w \<notin> set (exportable src) \<longrightarrow>
              Module_FindWord (moduleHeap i' m) (GetName (importedWord prefix w)) = None))"
proof -
  obtain vs' where
    D: "moduleHeap i' new =
          (emptyModule (name src) (forthicCode src))
            \<lparr>words := words src, exportable := exportable src,
             variables := vs', modules := modules src\<rparr>"
    and F: "map fst vs' = map fst (variables src)"
    and V: "\<forall>k<length (variables src).
           snd (vs' ! k) = nextVariable i + k
           \<and> variableHeap i' (nextVariable i + k) = variableHeap i (snd (variables src ! k))"
    and O: "\<forall>a<nextVariable i. variableHeap i' a = variableHeap i a"
    and Hm: "moduleHeap i' m =
         Module_RegisterModule (name src) prefix new
           ((moduleHeap i m)\<lparr>words := words (moduleHeap i m)
               @ map (importedWord prefix) (ExportableWords src)\<rparr>)"
    using ImportModule_spec [OF fresh [unfolded src_def] m md, of prefix]
    unfolding src_def i'_def new_def by blast
  have len: "length vs' = length (variables src)"
    using F by (metis length_map)
  have c1: "words (moduleHeap i' new) = words src \<and> exportable (moduleHeap i' new) = exportable src
    \<and> modules (moduleHeap i' new) = modules src \<and> name (moduleHeap i' new) = name src
    \<and> map fst (variables (moduleHeap i' new)) = map fst (variables src)"
    by (simp add: D F emptyModule_def)
  have c2: "\<forall>k<length (variables src).
          snd (variables src ! k) < snd (variables (moduleHeap i' new) ! k)
          \<and> variableHeap i' (snd (variables (moduleHeap i' new) ! k))
              = variableHeap i (snd (variables src ! k))
          \<and> variableHeap i' (snd (variables src ! k)) = variableHeap i (snd (variables src ! k))"
  proof (intro allI impI)
    fix k assume k: "k < length (variables src)"
    then have "snd (variables src ! k) < nextVariable i" using fresh by simp
    then show "snd (variables src ! k) < snd (variables (moduleHeap i' new) ! k)
          \<and> variableHeap i' (snd (variables (moduleHeap i' new) ! k))
              = variableHeap i (snd (variables src ! k))
          \<and> variableHeap i' (snd (variables src ! k)) = variableHeap i (snd (variables src ! k))"
      using V O k by (simp add: D)
  qed
  have c3: "distinct (map snd (variables (moduleHeap i' new)))"
    using V len by (auto simp: D distinct_conv_nth)
  have c4: "words (moduleHeap i' m) =
        words (moduleHeap i m)
          @ map (importedWord prefix) (filter (\<lambda>w. GetName w \<in> set (exportable src)) (words src))"
    by (simp add: Hm Module_RegisterModule_def ExportableWords_def)
  have c5: "\<forall>w. importedWord [] w = w"
    and c6: "prefix \<noteq> [] \<longrightarrow>
         (\<forall>w. importedWord prefix w = ExecuteWord (prefix @ ''.'' @ GetName w) w)"
    by (simp_all add: importedWord_def)
  have c7: "modules (moduleHeap i' m) (name src) = Some new"
    by (simp add: Hm Module_RegisterModule_def)
  have c8: "(\<forall>nm x. Module_FindWord (moduleHeap i' m) nm = Some x \<longrightarrow>
            (\<exists>e\<in>set (words src). GetName e \<in> set (exportable src) \<and> x = importedWord prefix e))
         \<and> (\<forall>w\<in>set (words src). GetName w \<notin> set (exportable src) \<longrightarrow>
              Module_FindWord (moduleHeap i' m) (GetName (importedWord prefix w)) = None)"
    if host: "words (moduleHeap i m) = [] \<and> variables (moduleHeap i m) = []"
  proof -
    have hv: "variables (moduleHeap i' m) = []"
      using host by (simp add: Hm Module_RegisterModule_def)
    have hw: "set (words (moduleHeap i' m)) =
                importedWord prefix ` {e \<in> set (words src). GetName e \<in> set (exportable src)}"
      using host by (simp add: c4)
    have a: "\<exists>e\<in>set (words src). GetName e \<in> set (exportable src) \<and> x = importedWord prefix e"
      if "Module_FindWord (moduleHeap i' m) nm = Some x" for nm x
      using Module_FindWord_no_variables [OF hv that] hw by auto
    have b: "Module_FindWord (moduleHeap i' m) (GetName (importedWord prefix w)) = None"
      if "w \<in> set (words src)" "GetName w \<notin> set (exportable src)" for w
    proof (rule Module_FindWord_absent [OF hv], rule ballI)
      fix x assume "x \<in> set (words (moduleHeap i' m))"
      then obtain e where e: "GetName e \<in> set (exportable src)" "x = importedWord prefix e"
        using hw by auto
      show "GetName x \<noteq> GetName (importedWord prefix w)"
      proof
        assume "GetName x = GetName (importedWord prefix w)"
        then have "GetName e = GetName w" using e importedWord_name_inj by blast
        then show False using e that by simp
      qed
    qed
    show ?thesis using a b by blast
  qed
  show ?thesis
    using c1 c2 c3 c4 c5 c6 c7 c8 by blast
qed

theorem C5_import_exports_only_witness:
  "words (moduleHeap (ImportModule 0 ''p'' 1 libraryInterpreter) 0)
     = [ExecuteWord ''p.A'' (PushValueWord ''A'' (VInt 1))]
   \<and> words (moduleHeap (ImportModule 0 ''p'' 1 libraryInterpreter) 2)
       = [PushValueWord ''A'' (VInt 1), PushValueWord ''B'' (VInt 2)]
   \<and> exportable (moduleHeap (ImportModule 0 ''p'' 1 libraryInterpreter) 2) = [''A'']
   \<and> map fst (variables (moduleHeap (ImportModule 0 ''p'' 1 libraryInterpreter) 2)) = [''v'']
   \<and> modules (moduleHeap (ImportModule 0 ''p'' 1 libraryInterpreter) 0) ''lib'' = Some 2
   \<and> Module_FindWord (moduleHeap (ImportModule 0 ''p'' 1 libraryInterpreter) 0) ''p.B'' = None
   \<and> Module_FindWord (moduleHeap (ImportModule 0 [] 1 libraryInterpreter) 0) ''B'' = None"
proof -
  have f: "moduleHeap libraryInterpreter 1 = libraryModule"
      "moduleHeap libraryInterpreter 0 = emptyModule [] []"
      "nextModule libraryInterpreter = 2" "nextVariable libraryInterpreter = 1"
    by (simp_all add: libraryInterpreter_def plainInterpreter_def NewInterpreter_def)
  have l: "words libraryModule = [PushValueWord ''A'' (VInt 1), PushValueWord ''B'' (VInt 2)]"
      "exportable libraryModule = [''A'']" "variables libraryModule = [(''v'', 0)]"
      "name libraryModule = ''lib''"
    by (simp_all add: libraryModule_def emptyModule_def)
  have h: "\<forall>p\<in>set (variables (moduleHeap libraryInterpreter 1)).
             snd p < nextVariable libraryInterpreter"
    by (simp add: libraryInterpreter_def plainInterpreter_def NewInterpreter_def
          libraryModule_def emptyModule_def)
  have e: "words (emptyModule [] []) = []" "variables (emptyModule [] []) = []"
    by (simp_all add: emptyModule_def)
  have b: "PushValueWord ''B'' (VInt 2) \<in> set (words libraryModule)"
      "GetName (PushValueWord ''B'' (VInt 2)) \<notin> set (exportable libraryModule)"
    by (simp_all add: l)
  show ?thesis
    using C5_import_exports_only [OF h, of 0 "''p''"]
          C5_import_exports_only [OF h, of 0 "[]"]
          f l e b
    by (simp add: importedWord_def)
qed

end
